(* ===== verification/Prelude.thy ===== *)
theory Prelude
  imports Main "HOL-Library.Word" "HOL-Library.Monad_Syntax"
begin

text \<open>
  Shared vocabulary of the roletalk development: machine integers and strings of Go,
  Go slices with their capacity, decimal printing, and the generic lemmas on lists and
  options that the component theories use.  The collection \<open>go_slice\<close> holds the rules
  that evaluate slice expressions, \<open>wire\<close> the rules that evaluate the byte-level codec.
\<close>

named_theorems go_slice \<open>evaluation rules for Go slice expressions\<close>
named_theorems wire \<open>evaluation rules for the wire format\<close>

section \<open>Machine integers\<close>

type_synonym byte = "8 word"
type_synonym u32 = "32 word"
type_synonym u64 = "64 word"
type_synonym bytes = "byte list"

text \<open>
  A Go \<open>int\<close> is a signed 64-bit integer.  It is kept as a HOL \<open>int\<close>; every operation
  of the source that can leave the range is followed by \<open>wrap_int\<close>.
\<close>

definition wrap_int :: "int \<Rightarrow> int" where
  "wrap_int x = signed_take_bit 63 x"

lemma wrap_int_id: "- (2 ^ 63) \<le> x \<Longrightarrow> x < 2 ^ 63 \<Longrightarrow> wrap_int x = x"
  by (simp add: wrap_int_def signed_take_bit_int_eq_self)

lemma wrap_int_nonneg: "0 \<le> x \<Longrightarrow> x < 2 ^ 63 \<Longrightarrow> wrap_int x = x"
  by (rule wrap_int_id) simp_all

lemma wrap_int_range: "- (2 ^ 63) \<le> wrap_int x \<and> wrap_int x < 2 ^ 63"
proof
  show "- (2 ^ 63) \<le> wrap_int x"
    unfolding wrap_int_def by (rule signed_take_bit_int_greater_eq_minus_exp)
  show "wrap_int x < 2 ^ 63"
    unfolding wrap_int_def by (rule signed_take_bit_int_less_exp)
qed

lemma wrap_int_wrap [simp]: "wrap_int (wrap_int x + y) = wrap_int (x + y)"
proof -
  have "take_bit 64 (signed_take_bit 63 x + y) = take_bit 64 (x + y)"
  proof -
    have "take_bit 64 (signed_take_bit 63 x) = take_bit 64 x"
      by (simp add: take_bit_signed_take_bit)
    then show ?thesis by (metis take_bit_add)
  qed
  then show ?thesis
    by (simp add: wrap_int_def signed_take_bit_eq_iff_take_bit_eq)
qed

lemma wrap_int_idem [simp]: "wrap_int (wrap_int x) = wrap_int x"
  using wrap_int_wrap [of x 0] by simp

text \<open>\<open>a % b\<close> in Go truncates: the remainder has the sign of the dividend.\<close>

definition go_rem :: "int \<Rightarrow> int \<Rightarrow> int" where
  "go_rem a b = sgn a * (\<bar>a\<bar> mod \<bar>b\<bar>)"

lemma go_rem_nonneg: "0 \<le> a \<Longrightarrow> 0 < b \<Longrightarrow> go_rem a b = a mod b"
  by (cases "a = 0") (simp_all add: go_rem_def)

lemma unat_byte_less: "unat (b :: byte) < 256"
proof -
  have "unat b < 2 ^ LENGTH(8)" by (rule unsigned_less)
  then show ?thesis by simp
qed

lemma unat_of_nat_byte: "unat (of_nat n :: byte) = n mod 256"
  by (simp add: unat_of_nat)

lemma of_nat_mod_byte: "(of_nat (n mod 256) :: byte) = of_nat n"
  by (simp add: word_unat_eq_iff unat_of_nat_byte)

section \<open>Strings\<close>

text \<open>
  A Go \<open>string\<close> is an immutable sequence of bytes, a HOL \<open>string\<close> a list of 8-bit
  characters.  The conversions \<open>[]byte(s)\<close> and \<open>string(b)\<close> copy byte by byte.
\<close>

definition bytes_of :: "string \<Rightarrow> bytes" where
  "bytes_of s = map of_char s"

definition string_of :: "bytes \<Rightarrow> string" where
  "string_of bs = map (\<lambda>b. char_of (unat b)) bs"

lemma char_of_unat_of_char: "char_of (unat (of_char c :: byte)) = c"
proof -
  have "(of_char c :: byte) = of_nat (of_char c)"
    by (simp add: of_nat_of_char)
  then have "unat (of_char c :: byte) = take_bit 8 (of_char c)"
    by (simp add: unat_of_nat take_bit_eq_mod)
  then show ?thesis
    by (simp add: take_bit_eq_mod)
qed

lemma string_of_bytes_of [simp]: "string_of (bytes_of s) = s"
  by (simp add: string_of_def bytes_of_def char_of_unat_of_char map_idI)

lemma length_bytes_of [simp]: "length (bytes_of s) = length s"
  by (simp add: bytes_of_def)

lemma length_string_of [simp]: "length (string_of bs) = length bs"
  by (simp add: string_of_def)

lemma string_of_append: "string_of (as @ bs) = string_of as @ string_of bs"
  by (simp add: string_of_def)

lemma inj_bytes_of: "bytes_of s = bytes_of t \<longleftrightarrow> s = t"
  by (metis string_of_bytes_of)

section \<open>Decimal printing\<close>

text \<open>\<open>fmt.Sprintf("%d", n)\<close>: the decimal digits, most significant first.\<close>

definition digit_char :: "nat \<Rightarrow> char" where
  "digit_char d = char_of (48 + d)"

fun show_nat :: "nat \<Rightarrow> string" where
  "show_nat n = (if n < 10 then [digit_char n] else show_nat (n div 10) @ [digit_char (n mod 10)])"

declare show_nat.simps [simp del]

definition show_int :: "int \<Rightarrow> string" where
  "show_int x = (if x < 0 then CHR ''-'' # show_nat (nat (- x)) else show_nat (nat x))"

section \<open>Go slices\<close>

text \<open>
  A slice is a window of length \<open>slen\<close> on the cells of its backing array; \<open>cells\<close> holds
  the cells from the start of the window up to the capacity.  A slice expression \<open>s[a:b]\<close>
  is checked against the capacity, not against the length, so it can reach cells beyond the
  window; \<open>s[i]\<close> and \<open>s[a:]\<close> are checked against the length.  \<open>None\<close> is the run-time
  panic.
\<close>

datatype slice = Slice (cells: bytes) (slen: nat)

definition wf_slice :: "slice \<Rightarrow> bool" where
  "wf_slice s \<longleftrightarrow> slen s \<le> length (cells s)"

definition visible :: "slice \<Rightarrow> bytes" where
  "visible s = take (slen s) (cells s)"

definition slice_of :: "bytes \<Rightarrow> slice" where
  "slice_of bs = Slice bs (length bs)"

definition subslice :: "slice \<Rightarrow> nat \<Rightarrow> nat \<Rightarrow> bytes option" where
  "subslice s a b =
     (if a \<le> b \<and> b \<le> length (cells s) then Some (take (b - a) (drop a (cells s))) else None)"

definition slice_from :: "slice \<Rightarrow> nat \<Rightarrow> bytes option" where
  "slice_from s a = (if a \<le> slen s then Some (take (slen s - a) (drop a (cells s))) else None)"

definition slice_index :: "slice \<Rightarrow> nat \<Rightarrow> byte option" where
  "slice_index s i = (if i < slen s then Some (cells s ! i) else None)"

lemma slen_slice_of [simp]: "slen (slice_of bs) = length bs"
  and cells_slice_of [simp]: "cells (slice_of bs) = bs"
  and visible_slice_of [simp]: "visible (slice_of bs) = bs"
  and wf_slice_of [simp]: "wf_slice (slice_of bs)"
  by (simp_all add: slice_of_def visible_def wf_slice_def)

text \<open>Reading a layout: the bounds are given as lengths of the consecutive fields.\<close>

lemma subslice_field [go_slice]:
  "length (cells s) \<ge> b \<Longrightarrow> a \<le> b \<Longrightarrow> subslice s a b = Some (take (b - a) (drop a (cells s)))"
  by (simp add: subslice_def)

lemma subslice_append:
  assumes "cells s = xs @ ys @ zs" and "a = length xs" and "b = length xs + length ys"
  shows "subslice s a b = Some ys"
  using assms by (simp add: subslice_def)

lemma slice_index_append:
  assumes "cells s = xs @ y # zs" and "i = length xs" and "length xs < slen s"
  shows "slice_index s i = Some y"
  using assms by (simp add: slice_index_def)

lemma slice_from_append:
  assumes "cells s = xs @ ys" and "a = length xs" and "slen s = length xs + length ys"
  shows "slice_from s a = Some ys"
  using assms by (simp add: slice_from_def)

lemma length_subslice: "subslice s a b = Some bs \<Longrightarrow> length bs = b - a"
  by (auto simp: subslice_def split: if_splits)

text \<open>An index within the length, and every window below it, sees visible bytes only.\<close>

lemma slice_index_visible:
  "slice_index s i = Some x \<Longrightarrow> wf_slice s \<Longrightarrow> i < length (visible s) \<and> x = visible s ! i"
  by (auto simp: slice_index_def wf_slice_def visible_def split: if_splits)

lemma subslice_visible:
  "subslice s a b = Some x \<Longrightarrow> b \<le> slen s \<Longrightarrow> x = take (b - a) (drop a (visible s))"
  by (auto simp: subslice_def visible_def drop_take min_def split: if_splits)

section \<open>Results\<close>

text \<open>What a Go call can do: panic, return an error, or return a value.\<close>

datatype 'a outcome = Panic | Error string | Ok 'a

text \<open>What a call that touches Go channels can do: complete, block for ever, or panic.\<close>

datatype 'a exec = Done 'a | Blocked | Crashed

definition of_option :: "'a option \<Rightarrow> 'a outcome" where
  "of_option x = (case x of None \<Rightarrow> Panic | Some y \<Rightarrow> Ok y)"

section \<open>Lists and options\<close>

lemma map_option_bind: "map_option f (Option.bind x g) = Option.bind x (\<lambda>y. map_option f (g y))"
  by (cases x) simp_all

lemma bind_SomeD: "Option.bind x f = Some z \<Longrightarrow> \<exists>y. x = Some y \<and> f y = Some z"
  by (cases x) simp_all

text \<open>
  Iterating over a Go map visits its keys in an unspecified order.  Such a loop takes the
  order as a list; \<open>enumerates ks D\<close> says that it is one of the possible orders.
\<close>

definition enumerates :: "'k list \<Rightarrow> 'k set \<Rightarrow> bool" where
  "enumerates ks D \<longleftrightarrow> distinct ks \<and> set ks = D"

lemma enumeratesD: "enumerates ks D \<Longrightarrow> set ks = D" "enumerates ks D \<Longrightarrow> distinct ks"
  by (simp_all add: enumerates_def)

lemma enumerates_length: "enumerates ks D \<Longrightarrow> length ks = card D"
  by (auto simp: enumerates_def distinct_card)

lemma enumerates_finite: "enumerates ks D \<Longrightarrow> finite D"
  by (auto simp: enumerates_def)

end
