(* ===== verification/Correlation.thy ===== *)
theory Correlation
  imports Prelude
begin

text \<open>
  Big-endian integers on the wire (protocol.go): the two-byte length headers, and the
  variable-length correlations and quotas.  The code computes with \<open>float64\<close>; the theory
  models the rounding of large integers, the loop over powers of 256 and its conversion
  back to an integer, and proves for which values the encoding is the minimal big-endian
  one, is decoded to the same value and terminates.
\<close>

section \<open>Floating point as the code uses it\<close>

type_synonym correlation = u64

definition maxCorrelation :: nat where
  "maxCorrelation = 2 ^ 53 - 1"

fun bit_width :: "nat \<Rightarrow> nat" where
  "bit_width n = (if n = 0 then 0 else Suc (bit_width (n div 2)))"

declare bit_width.simps [simp del]

text \<open>
  \<open>float64(n)\<close> of an integer: exact below \<open>2 ^ 53\<close>, otherwise rounded to 53 significant
  bits, ties to even.
\<close>

definition f64_of_nat :: "nat \<Rightarrow> nat" where
  "f64_of_nat n =
     (if n < 2 ^ 53 then n
      else let k = bit_width n - 53; q = n div 2 ^ k; r = n mod 2 ^ k; half = 2 ^ k div 2
           in (if half < r \<or> (r = half \<and> odd q) then q + 1 else q) * 2 ^ k)"

text \<open>
  \<open>byte(x / 256^i)\<close>: dividing by a power of two is exact, the conversion truncates and
  keeps the low eight bits (what the repository's own tests of the encoder expect).
\<close>

definition float_byte :: "nat \<Rightarrow> nat \<Rightarrow> byte" where
  "float_byte x i = of_nat (x div 256 ^ i)"

text \<open>
  \<open>correlation(math.Pow(256, float64(i)))\<close>.  The power itself is exact.  For \<open>i \<ge> 8\<close> it
  does not fit in 64 bits and Go leaves the result of the conversion to the implementation:
  it is the parameter \<open>cvt\<close>.
\<close>

definition pow256 :: "(nat \<Rightarrow> u64) \<Rightarrow> nat \<Rightarrow> u64" where
  "pow256 cvt i = (if i < 8 then of_nat (256 ^ i) else cvt i)"

definition pow256_int :: "(nat \<Rightarrow> int) \<Rightarrow> nat \<Rightarrow> int" where
  "pow256_int cvti i = (if i < 8 then 256 ^ i else cvti i)"

section \<open>The operations\<close>

definition int2Bytes :: "nat \<Rightarrow> bytes" where
  "int2Bytes n = [of_nat (n div 256), of_nat (n mod 256)]"

text \<open>
  The loop \<open>for i := 1; pow(256, i) <= value; i++ { result = append(result, ...) }\<close> of the
  two serializers, with its guard and the appended byte as functions of \<open>i\<close>.  It may never
  end, so its result is an option: \<open>None\<close> is divergence.
\<close>

partial_function (option) digit_loop ::
    "(nat \<Rightarrow> bool) \<Rightarrow> (nat \<Rightarrow> byte) \<Rightarrow> nat \<Rightarrow> bytes \<Rightarrow> bytes option" where
  "digit_loop more digit i result =
     (if more i then digit_loop more digit (Suc i) (result @ [digit i]) else Some result)"

definition serializeCorrelation :: "(nat \<Rightarrow> u64) \<Rightarrow> correlation \<Rightarrow> bytes option" where
  "serializeCorrelation cvt value =
     do { result \<leftarrow> digit_loop (\<lambda>i. pow256 cvt i \<le> value)
            (\<lambda>i. float_byte (f64_of_nat (unat value)) i) 1 [of_nat (unat value mod 256)];
          Some (if length result > 1 then rev result else result) }"

definition serializeInt :: "(nat \<Rightarrow> int) \<Rightarrow> int \<Rightarrow> bytes option" where
  "serializeInt cvti value =
     do { result \<leftarrow> digit_loop (\<lambda>i. pow256_int cvti i \<le> value)
            (\<lambda>i. float_byte (f64_of_nat (nat value)) i) 1 [of_int (go_rem value 256)];
          Some (if length result > 1 then rev result else result) }"

fun corr_sum :: "(nat \<Rightarrow> u64) \<Rightarrow> u64 \<Rightarrow> bytes \<Rightarrow> u64" where
  "corr_sum cvt res [] = res"
| "corr_sum cvt res (b # bs) = corr_sum cvt (res + ucast b * pow256 cvt (length bs)) bs"

definition sliceToCorrelation :: "(nat \<Rightarrow> u64) \<Rightarrow> bytes \<Rightarrow> correlation" where
  "sliceToCorrelation cvt sl = corr_sum cvt 0 sl"

fun int_sum :: "(nat \<Rightarrow> int) \<Rightarrow> int \<Rightarrow> bytes \<Rightarrow> int" where
  "int_sum cvti res [] = res"
| "int_sum cvti res (b # bs) =
     int_sum cvti (wrap_int (res + wrap_int (uint b * pow256_int cvti (length bs)))) bs"

definition sliceToInt :: "(nat \<Rightarrow> int) \<Rightarrow> bytes \<Rightarrow> int" where
  "sliceToInt cvti sl = int_sum cvti 0 sl"

section \<open>The specification: minimal big-endian digits\<close>

fun be_bytes :: "nat \<Rightarrow> bytes" where
  "be_bytes n = (if n < 256 then [of_nat n] else be_bytes (n div 256) @ [of_nat (n mod 256)])"

declare be_bytes.simps [simp del]

fun be_value :: "bytes \<Rightarrow> nat" where
  "be_value [] = 0"
| "be_value (b # bs) = unat b * 256 ^ length bs + be_value bs"

lemma be_value_append: "be_value (as @ bs) = be_value as * 256 ^ length bs + be_value bs"
  by (induction as) (simp_all add: power_add algebra_simps)

lemma be_value_be_bytes: "be_value (be_bytes n) = n"
proof (induction n rule: be_bytes.induct)
  case (1 n)
  show ?case
  proof (cases "n < 256")
    case True
    then show ?thesis by (subst be_bytes.simps) (simp add: unat_of_nat)
  next
    case False
    with "1.IH" have "be_value (be_bytes (n div 256)) = n div 256" by simp
    moreover have "unat (of_nat (n mod 256) :: byte) = n mod 256"
      by (simp add: unat_of_nat)
    ultimately show ?thesis
      using False by (subst be_bytes.simps) (simp add: be_value_append)
  qed
qed

lemma be_bytes_nonempty: "be_bytes n \<noteq> []"
  by (subst be_bytes.simps) simp

lemma length_be_bytes: "n < 256 ^ k \<Longrightarrow> 0 < k \<Longrightarrow> length (be_bytes n) \<le> k"
proof (induction n arbitrary: k rule: be_bytes.induct)
  case (1 n)
  show ?case
  proof (cases "n < 256")
    case True
    with "1.prems" show ?thesis by (subst be_bytes.simps) simp
  next
    case False
    with "1.prems" obtain j where k: "k = Suc (Suc j)"
      by (cases k; cases "k - 1") (auto simp: not_less)
    then have "n div 256 < 256 ^ Suc j"
      using "1.prems" by (simp add: less_mult_imp_div_less mult.commute)
    then have "length (be_bytes (n div 256)) \<le> Suc j"
      using "1.IH" False by simp
    with False k show ?thesis by (subst be_bytes.simps) simp
  qed
qed

lemma be_value_bound: "be_value bs < 256 ^ length bs"
proof (induction bs)
  case (Cons b bs)
  have "unat b \<le> 255" using unat_byte_less [of b] by simp
  then have "unat b * 256 ^ length bs \<le> 255 * 256 ^ length bs" by (rule mult_le_mono1)
  with Cons.IH have "unat b * 256 ^ length bs + be_value bs < 255 * 256 ^ length bs + 256 ^ length bs"
    by linarith
  then show ?case by simp
qed simp

text \<open>The length of the encoding is the number of base-256 digits.\<close>

lemma be_bytes_lower: "1 \<le> i \<Longrightarrow> i < length (be_bytes n) \<Longrightarrow> 256 ^ i \<le> n"
proof (induction n arbitrary: i rule: be_bytes.induct)
  case (1 n)
  show ?case
  proof (cases "n < 256")
    case True
    with "1.prems" show ?thesis by (subst (asm) be_bytes.simps) simp
  next
    case False
    then have len: "i < Suc (length (be_bytes (n div 256)))"
      using "1.prems"(2) by (subst (asm) be_bytes.simps) simp
    show ?thesis
    proof (cases "i = 1")
      case True
      with False show ?thesis by simp
    next
      case i: False
      with "1.prems"(1) obtain j where j: "i = Suc j" "1 \<le> j"
        by (cases i) auto
      with len have "j < length (be_bytes (n div 256))" by simp
      then have "256 ^ j \<le> n div 256" using "1.IH" False j by blast
      then have "256 ^ j * 256 \<le> n" by (simp add: less_eq_div_iff_mult_less_eq)
      with j show ?thesis by (simp add: mult.commute)
    qed
  qed
qed

lemma be_bytes_upper: "n < 256 ^ length (be_bytes n)"
  using be_value_bound [of "be_bytes n"] by (simp add: be_value_be_bytes)

lemma be_bytes_digits:
  "be_bytes n = rev (map (\<lambda>j. of_nat (n div 256 ^ j)) [0..<length (be_bytes n)])"
proof (induction n rule: be_bytes.induct)
  case (1 n)
  show ?case
  proof (cases "n < 256")
    case True
    then show ?thesis by (subst be_bytes.simps, subst (2) be_bytes.simps) simp
  next
    case False
    let ?m = "length (be_bytes (n div 256))"
    have len: "length (be_bytes n) = Suc ?m"
      using False by (subst be_bytes.simps) simp
    have "rev (map (\<lambda>j. of_nat (n div 256 ^ j)) [0..<Suc ?m]) =
      rev (map (\<lambda>j. of_nat (n div 256 div 256 ^ j)) [0..<?m]) @ [of_nat n :: byte]"
      by (simp add: upt_conv_Cons map_Suc_upt [symmetric] div_mult2_eq o_def del: upt_Suc)
    also have "\<dots> = be_bytes (n div 256) @ [of_nat (n mod 256)]"
      using "1.IH" False by (simp add: of_nat_mod_byte)
    also have "\<dots> = be_bytes n"
      using False by (subst (2) be_bytes.simps) simp
    finally show ?thesis by (simp add: len)
  qed
qed

section \<open>The encoder against its specification\<close>

lemma digit_loop_run:
  assumes "i \<le> L" and "\<And>j. i \<le> j \<Longrightarrow> j < L \<Longrightarrow> more j" and "\<not> more L"
  shows "digit_loop more digit i r = Some (r @ map digit [i..<L])"
  using assms
proof (induction i arbitrary: r rule: inc_induct)
  case base
  then show ?case by (subst digit_loop.simps) simp
next
  case (step n)
  then show ?case by (subst digit_loop.simps) (simp add: upt_conv_Cons)
qed

lemma digit_loop_diverges:
  assumes "\<And>j. i \<le> j \<Longrightarrow> more j"
  shows "digit_loop more digit i r = None"
proof (cases "digit_loop more digit i r")
  case (Some y)
  then have "\<not> (\<forall>j \<ge> i. more j)"
  proof (rule digit_loop.raw_induct [where P = "\<lambda>more digit i r y. \<not> (\<forall>j \<ge> i. more j)", rotated])
    fix f more and digit :: "nat \<Rightarrow> byte" and i and r y :: bytes
    assume IH: "\<And>more digit i r y. f more digit i r = Some y \<Longrightarrow> \<not> (\<forall>j \<ge> i. more j)"
      and eq: "(if more i then f more digit (Suc i) (r @ [digit i]) else Some r) = Some y"
    show "\<not> (\<forall>j \<ge> i. more j)"
    proof (cases "more i")
      case True
      with eq have "f more digit (Suc i) (r @ [digit i]) = Some y" by simp
      from IH [OF this] show ?thesis by (blast dest: Suc_leD)
    qed blast
  qed
  with assms show ?thesis by blast
qed

lemma digits_of_loop:
  assumes "n < 256 ^ 7" and guard: "\<And>j. j < 8 \<Longrightarrow> more j \<longleftrightarrow> 256 ^ j \<le> n"
  shows "digit_loop more digit 1 [b] = Some (b # map digit [1..<length (be_bytes n)])"
proof -
  let ?L = "length (be_bytes n)"
  have "0 < ?L" using be_bytes_nonempty [of n] by simp
  then have "1 \<le> ?L" by linarith
  moreover have L7: "?L \<le> 7" using assms(1) length_be_bytes by simp
  moreover have "more j" if "1 \<le> j" "j < ?L" for j
    using that L7 guard [of j] be_bytes_lower [of j n] by simp
  moreover have "\<not> more ?L"
    using L7 guard [of ?L] be_bytes_upper [of n] by simp
  ultimately have "digit_loop more digit 1 [b] = Some ([b] @ map digit [1..<?L])"
    by (intro digit_loop_run) auto
  then show ?thesis by simp
qed

lemma rev_if_longer: "(if length xs > 1 then rev xs else xs) = rev xs"
  by (cases xs rule: list.exhaust; cases "tl xs") auto

lemma be_bytes_from_digits:
  "n \<le> maxCorrelation \<Longrightarrow>
   rev (of_nat n # map (float_byte (f64_of_nat n)) [1..<length (be_bytes n)]) = be_bytes n"
proof -
  let ?L = "length (be_bytes n)"
  assume "n \<le> maxCorrelation"
  then have exact: "f64_of_nat n = n" by (simp add: maxCorrelation_def f64_of_nat_def)
  have "0 < ?L" using be_bytes_nonempty [of n] by simp
  then have "[0..<?L] = 0 # [1..<?L]" by (simp add: upt_conv_Cons)
  then show ?thesis
    using be_bytes_digits [of n] by (simp add: exact float_byte_def [abs_def])
qed

text \<open>Up to seven bytes the loop never looks at the conversions the language leaves open.\<close>

lemma pow256_le_iff:
  assumes "i < 8"
  shows "pow256 cvt i \<le> v \<longleftrightarrow> 256 ^ i \<le> unat v"
proof -
  have "(256 :: nat) ^ i \<le> 256 ^ 7" using assms by (intro power_increasing) auto
  then have "unat (of_nat (256 ^ i) :: u64) = 256 ^ i"
    by (simp add: unat_of_nat del: of_nat_power)
  with assms show ?thesis
    by (simp add: pow256_def word_le_nat_alt del: of_nat_power)
qed

lemma serializeCorrelation_run:
  assumes "unat v < 256 ^ 7"
  shows "serializeCorrelation cvt v =
    Some (rev (of_nat (unat v) # map (float_byte (f64_of_nat (unat v))) [1..<length (be_bytes (unat v))]))"
  unfolding serializeCorrelation_def
  by (subst digits_of_loop [OF assms])
     (simp_all only: pow256_le_iff bind.bind_lunit rev_if_longer of_nat_mod_byte)

lemma serializeCorrelation_spec:
  assumes "unat v \<le> maxCorrelation"
  shows "serializeCorrelation cvt v = Some (be_bytes (unat v))"
proof -
  have "unat v < 256 ^ 7" using assms by (simp add: maxCorrelation_def)
  then show ?thesis
    using assms by (simp only: serializeCorrelation_run be_bytes_from_digits)
qed

lemma pow256_int_le_iff: "i < 8 \<Longrightarrow> 0 \<le> v \<Longrightarrow> pow256_int cvti i \<le> v \<longleftrightarrow> 256 ^ i \<le> nat v"
  by (simp add: pow256_int_def le_nat_iff)

lemma serializeInt_spec:
  assumes "0 \<le> v" and "nat v \<le> maxCorrelation"
  shows "serializeInt cvti v = Some (be_bytes (nat v))"
proof -
  have small: "nat v < 256 ^ 7" using assms by (simp add: maxCorrelation_def)
  have low: "of_int (go_rem v 256) = (of_nat (nat v) :: byte)"
    using assms(1) by (simp add: go_rem_nonneg word_uint_eq_iff uint_word_of_int)
  show ?thesis
    unfolding serializeInt_def
    by (subst digits_of_loop [OF small])
       (simp_all only: pow256_int_le_iff assms(1) low bind.bind_lunit rev_if_longer
          be_bytes_from_digits [OF assms(2)])
qed

section \<open>The decoder\<close>

lemma corr_sum_value:
  "length bs \<le> 8 \<Longrightarrow> corr_sum cvt res bs = res + of_nat (be_value bs)"
  by (induction bs arbitrary: res) (simp_all add: pow256_def)

lemma sliceToCorrelation_value:
  assumes "length bs \<le> 8"
  shows "unat (sliceToCorrelation cvt bs) = be_value bs"
proof -
  have "be_value bs < 256 ^ 8"
    using be_value_bound [of bs] power_increasing [OF assms, of "256::nat"] by simp
  then show ?thesis
    using assms by (simp add: sliceToCorrelation_def corr_sum_value unat_of_nat)
qed

lemma int_sum_value:
  "length bs \<le> 7 \<Longrightarrow> 0 \<le> res \<Longrightarrow> res + int (be_value bs) < 2 ^ 63 \<Longrightarrow>
   int_sum cvti res bs = res + int (be_value bs)"
proof (induction bs arbitrary: res)
  case (Cons b bs)
  let ?t = "uint b * 256 ^ length bs"
  have t: "?t = int (unat b * 256 ^ length bs)" by simp
  then have range: "0 \<le> ?t" "res + ?t + int (be_value bs) < 2 ^ 63"
    using Cons.prems by simp_all
  then have "wrap_int ?t = ?t" "wrap_int (res + ?t) = res + ?t"
    using Cons.prems by (intro wrap_int_nonneg; linarith)+
  then show ?case
    using Cons range by (simp add: pow256_int_def)
qed simp

lemma sliceToInt_value:
  assumes "length bs \<le> 7"
  shows "sliceToInt cvti bs = int (be_value bs)"
proof -
  have "(256 :: nat) ^ length bs \<le> 256 ^ 7" using assms by (intro power_increasing) auto
  with be_value_bound [of bs] have "int (be_value bs) < 2 ^ 63" by simp
  then show ?thesis
    using assms by (simp add: sliceToInt_def int_sum_value)
qed

lemma length_be_bytes_max: "n \<le> maxCorrelation \<Longrightarrow> length (be_bytes n) \<le> 7"
  by (rule length_be_bytes) (simp_all add: maxCorrelation_def)

lemma sliceToCorrelation_be_bytes:
  "unat v \<le> maxCorrelation \<Longrightarrow> sliceToCorrelation cvt (be_bytes (unat v)) = v"
  by (simp add: word_unat_eq_iff sliceToCorrelation_value be_value_be_bytes
      order_trans [OF length_be_bytes_max])

lemma length_int2Bytes [simp]: "length (int2Bytes n) = 2"
  by (simp add: int2Bytes_def)

lemma int2Bytes_value_mod: "unat (sliceToCorrelation cvt (int2Bytes n)) = n mod 65536"
  using mod_mult2_eq [of n 256 256]
  by (simp add: sliceToCorrelation_value) (simp add: int2Bytes_def unat_of_nat_byte)

lemma int2Bytes_value: "n < 65536 \<Longrightarrow> unat (sliceToCorrelation cvt (int2Bytes n)) = n"
  by (simp add: int2Bytes_value_mod)

section \<open>Properties\<close>



lemma serializeCorrelation_loops:
  assumes big: "2 ^ 56 \<le> unat v"
  shows "serializeCorrelation (\<lambda>_. 0) v = None"
proof -
  have "pow256 (\<lambda>_. 0) i \<le> v" if "1 \<le> i" for i
  proof (cases "i < 8")
    case True
    then have "(256 :: nat) ^ i \<le> 256 ^ 7" by (intro power_increasing) auto
    then have "256 ^ i \<le> unat v" using big by simp
    with True show ?thesis by (simp add: pow256_le_iff)
  next
    case False
    then show ?thesis by (simp add: pow256_def)
  qed
  then show ?thesis by (simp add: serializeCorrelation_def digit_loop_diverges)
qed

text \<open>
  Where an out-of-range conversion yields 0, the encoder of correlations does not
  terminate exactly for the values of eight significant bytes: such a value, which a remote
  peer can put into a request, makes the reply loop for ever.
\<close>

theorem serializeCorrelation_diverges_iff:
  "serializeCorrelation (\<lambda>_. 0) v = None \<longleftrightarrow> 2 ^ 56 \<le> unat v"
proof
  assume none: "serializeCorrelation (\<lambda>_. 0) v = None"
  show "2 ^ 56 \<le> unat v"
  proof (rule ccontr)
    assume "\<not> 2 ^ 56 \<le> unat v"
    then have "unat v < 256 ^ 7" by simp
    from serializeCorrelation_run [OF this] none show False by simp
  qed
qed (rule serializeCorrelation_loops)

text \<open>
  The bound \<open>maxCorrelation\<close> is needed: rounding to \<open>float64\<close> corrupts the value
  \<open>2 ^ 53 + 255\<close>, which is decoded as \<open>2 ^ 53 + 511\<close>.
\<close>

theorem correlation_bound_needed:
  "Option.bind (serializeCorrelation cvt (2 ^ 53 + 255)) (\<lambda>bs. Some (sliceToCorrelation cvt' bs))
    = Some (2 ^ 53 + 511)"
proof -
  let ?n = "2 ^ 53 + 255 :: nat"
  have len: "length (be_bytes ?n) = 7"
    by (simp add: be_bytes.simps)
  have round: "f64_of_nat ?n = 2 ^ 53 + 256"
    by (simp add: f64_of_nat_def bit_width.simps Let_def)
  have v: "unat (2 ^ 53 + 255 :: u64) = ?n" by simp
  have "serializeCorrelation cvt (2 ^ 53 + 255) =
    Some (rev (of_nat ?n # map (float_byte (2 ^ 53 + 256)) [1..<7]))"
    using serializeCorrelation_run [of "2 ^ 53 + 255" cvt] by (simp only: v len round) simp
  then show ?thesis
    by (simp add: upt_rec float_byte_def sliceToCorrelation_def pow256_def)
qed

text \<open>Quotas up to \<open>maxCorrelation\<close> survive the round trip as integers.\<close>

theorem quota_roundtrip:
  assumes "0 \<le> q" and "nat q \<le> maxCorrelation"
  shows "\<exists>bs. serializeInt cvti q = Some bs \<and> sliceToInt cvti' bs = q"
  using assms by (simp add: serializeInt_spec sliceToInt_value length_be_bytes_max be_value_be_bytes)

theorem quota_roundtrip_witness:
  "\<exists>bs. serializeInt (\<lambda>_. 0) 6384 = Some bs \<and> sliceToInt (\<lambda>_. 5) bs = 6384"
  by (rule quota_roundtrip) (simp_all add: maxCorrelation_def)



end
