(* ===== verification/Constants.thy ===== *)
theory Constants
  imports Correlation
begin

text \<open>
  The constants of constants.go: message types, stream control bytes, close codes and the
  defaults of the stream quota.  Durations are not used by the model: a timeout is an event
  of the environment.
\<close>

definition byteError :: byte where
  [wire]: "byteError = 0"

definition byteAuthChallenge :: byte where
  [wire]: "byteAuthChallenge = 1"

definition byteAuthResponse :: byte where
  [wire]: "byteAuthResponse = 2"

definition byteAuthConfirmed :: byte where
  [wire]: "byteAuthConfirmed = 3"

definition typeMessage :: byte where
  [wire]: "typeMessage = 100"

definition typeRequest :: byte where
  [wire]: "typeRequest = 101"

definition typeResolve :: byte where
  [wire]: "typeResolve = 102"

definition typeReader :: byte where
  [wire]: "typeReader = 103"

definition typeWriter :: byte where
  [wire]: "typeWriter = 104"

definition typeReject :: byte where
  [wire]: "typeReject = 105"

definition typeStreamData :: byte where
  [wire]: "typeStreamData = 106"

definition typeStreamResolve :: byte where
  [wire]: "typeStreamResolve = 107"

definition typeStreamReject :: byte where
  [wire]: "typeStreamReject = 108"

definition typeAcquaint :: byte where
  [wire]: "typeAcquaint = 200"

definition typeRoles :: byte where
  [wire]: "typeRoles = 201"

definition streamByteChunk :: byte where
  [wire]: "streamByteChunk = 0"

definition streamByteFinish :: byte where
  [wire]: "streamByteFinish = 1"

definition streamByteError :: byte where
  [wire]: "streamByteError = 2"

definition streamByteQuota :: byte where
  [wire]: "streamByteQuota = 3"

definition errManualClose :: nat where
  "errManualClose = 4000"

definition errAuthRejected :: nat where
  "errAuthRejected = 4001"

definition errWrongMessageType :: nat where
  "errWrongMessageType = 4002"

definition errWrongDataType :: nat where
  "errWrongDataType = 4003"

definition errWrongCorrelation :: nat where
  "errWrongCorrelation = 4004"

definition errHeartbeatTimeout :: nat where
  "errHeartbeatTimeout = 4005"

definition errIncorrectMessageStructure :: nat where
  "errIncorrectMessageStructure = 4006"

definition errIncompatibleProtocolVersion :: nat where
  "errIncompatibleProtocolVersion = 4007"

definition protocolVersion :: string where
  "protocolVersion = ''2.0.0''"

definition defQuotaSizeBytes :: int where
  "defQuotaSizeBytes = 1024 * 16"

text \<open>
  \<open>float64(q) < float64(quotaSize) * 0.66\<close>.  Quotas are far below \<open>2 ^ 53\<close>, so the
  conversions are exact; the product with the constant nearest to 0.66 is compared exactly as
  \<open>100 * q < 66 * quotaSize\<close> for every quota size whose multiple of 0.66 is not an integer,
  in particular for the only size the code uses.
\<close>

definition below_threshold :: "int \<Rightarrow> int \<Rightarrow> bool" where
  "below_threshold q quotaSize \<longleftrightarrow> 100 * q < 66 * quotaSize"

text \<open>Every message type is a different byte, so dispatching on it is unambiguous.\<close>

lemma message_types_distinct:
  "distinct [typeMessage, typeRequest, typeResolve, typeReader, typeWriter, typeReject,
     typeStreamData, typeStreamResolve, typeStreamReject, typeAcquaint, typeRoles]"
  by (simp add: wire)

end
