(* ===== verification/DataTypes.thy ===== *)
theory DataTypes
  imports Complex_Main Constants
begin

text \<open>
  Typed payloads (Datatype.go, and \<open>markDataType\<close> / \<open>retrieveDataByType\<close> of protocol.go).
  A payload is one byte of type and the bytes of the value.  The theory models the values an
  \<open>interface{}\<close> can hold, \<open>fmt.Sprintf("%.10f")\<close> and \<open>strconv.ParseFloat\<close> on decimal
  numerals, and proves what the receiver sees for each kind of value that is sent.
\<close>

section \<open>Values\<close>

text \<open>
  A \<open>float64\<close> is a rational or one of the special values (the sign of zero is not kept).
\<close>

datatype gofloat = Finite rat | PosInf | NegInf | NaN

text \<open>
  The dynamic types the type switch distinguishes.  All integer types print alike and are
  one constructor.  A value of any other type is represented by what \<open>json.Marshal\<close> returns
  for it: its JSON text, or \<open>None\<close> for the marshalling error.
\<close>

datatype goval =
    VBytes bytes
  | VNil
  | VBool bool
  | VString string
  | VFloat gofloat
  | VInt int
  | VComplex gofloat gofloat
  | VOther "bytes option"

text \<open>
  A Go \<open>error\<close>.  The values of \<open>errors.New\<close> and \<open>fmt.Errorf\<close> have no exported field, so
  JSON shows them as an empty object; other implementations marshal as they like.
\<close>

datatype goerror = ErrorString string | CustomError string "bytes option"

fun error_text :: "goerror \<Rightarrow> string" where
  "error_text (ErrorString s) = s"
| "error_text (CustomError s _) = s"

fun val_of_error :: "goerror \<Rightarrow> goval" where
  "val_of_error (ErrorString _) = VOther (Some (bytes_of ''{}''))"
| "val_of_error (CustomError _ js) = VOther js"

section \<open>Formatting and parsing numbers\<close>

text \<open>Rounding a quotient to the nearest integer, ties to even.\<close>

definition rne :: "nat \<Rightarrow> nat \<Rightarrow> nat" where
  "rne n d = (let q = n div d; r = n mod d
              in if d < 2 * r \<or> (2 * r = d \<and> odd q) then q + 1 else q)"

definition pad_digits :: "nat \<Rightarrow> nat \<Rightarrow> string" where
  "pad_digits w n = replicate (w - length (show_nat n)) (CHR ''0'') @ show_nat n"

text \<open>\<open>fmt.Sprintf("%.10f", x)\<close>\<close>

definition abs_text :: "rat \<Rightarrow> string" where
  "abs_text x = (case quotient_of \<bar>x\<bar> of (n, d) \<Rightarrow>
     let t = rne (nat n * 10 ^ 10) (nat d)
     in show_nat (t div 10 ^ 10) @ ''.'' @ pad_digits 10 (t mod 10 ^ 10))"

fun sprintf10 :: "gofloat \<Rightarrow> string" where
  "sprintf10 (Finite x) = (if x < 0 then ''-'' else '''') @ abs_text x"
| "sprintf10 PosInf = ''+Inf''"
| "sprintf10 NegInf = ''-Inf''"
| "sprintf10 NaN = ''NaN''"

fun sprintf10_plus :: "gofloat \<Rightarrow> string" where
  "sprintf10_plus (Finite x) = (if x < 0 then ''-'' else ''+'') @ abs_text x"
| "sprintf10_plus PosInf = ''+Inf''"
| "sprintf10_plus NegInf = ''-Inf''"
| "sprintf10_plus NaN = ''+NaN''"

definition sprintf10_complex :: "gofloat \<Rightarrow> gofloat \<Rightarrow> string" where
  "sprintf10_complex re im = ''('' @ sprintf10 re @ sprintf10_plus im @ ''i)''"

text \<open>\<open>strings.TrimRight(s, "0")\<close>\<close>

definition trim_zeros :: "string \<Rightarrow> string" where
  "trim_zeros s = rev (dropWhile (\<lambda>c. c = CHR ''0'') (rev s))"

text \<open>
  \<open>strconv.ParseFloat(s, 64)\<close> on decimal numerals without exponent: the exact value, rounded
  to the nearest \<open>float64\<close>.  What the library accepts beyond these numerals (exponents, hex
  floats, infinities, NaN) is the parameter \<open>more\<close>.
\<close>

definition is_digit :: "char \<Rightarrow> bool" where
  "is_digit c \<longleftrightarrow> 48 \<le> (of_char c :: nat) \<and> (of_char c :: nat) \<le> 57"

definition dec_value :: "string \<Rightarrow> nat" where
  "dec_value ds = foldl (\<lambda>a c. a * 10 + (of_char c - 48)) 0 ds"

definition parse_unsigned :: "string \<Rightarrow> (nat \<times> nat) option" where
  "parse_unsigned s =
     (let ip = takeWhile is_digit s; rest = dropWhile is_digit s in
      case rest of
        [] \<Rightarrow> if ip = [] then None else Some (dec_value ip, 1)
      | c # fp \<Rightarrow>
          if c = CHR ''.'' \<and> list_all is_digit fp \<and> \<not> (ip = [] \<and> fp = [])
          then Some (dec_value (ip @ fp), 10 ^ length fp) else None)"

definition floor_log2 :: "nat \<Rightarrow> nat \<Rightarrow> int" where
  "floor_log2 n d =
     (let e = int (bit_width n) - int (bit_width d)
      in if d * 2 ^ nat e \<le> n * 2 ^ nat (- e) then e else e - 1)"

definition round_f64 :: "nat \<Rightarrow> nat \<Rightarrow> rat option" where
  "round_f64 n d =
     (if n = 0 then Some 0
      else let u = max (floor_log2 n d - 52) (- 1074);
               q = rne (n * 2 ^ nat (- u)) (d * 2 ^ nat u);
               x = of_nat (q * 2 ^ nat u) / of_nat (2 ^ nat (- u))
           in if x < 2 ^ 1024 then Some x else None)"

definition parseFloat :: "(string \<Rightarrow> gofloat option) \<Rightarrow> string \<Rightarrow> gofloat option" where
  "parseFloat more s =
     (let (neg, body) = (case s of c # cs \<Rightarrow>
            if c = CHR ''-'' then (True, cs) else if c = CHR ''+'' then (False, cs) else (False, s)
          | [] \<Rightarrow> (False, s)) in
      case parse_unsigned body of
        Some (n, d) \<Rightarrow> map_option (\<lambda>x. Finite (if neg then - x else x)) (round_f64 n d)
      | None \<Rightarrow> more s)"

section \<open>The operations\<close>

definition DatatypeBinary :: byte where [wire]: "DatatypeBinary = 0"
definition DatatypeNull :: byte where [wire]: "DatatypeNull = 1"
definition DatatypeBool :: byte where [wire]: "DatatypeBool = 2"
definition DatatypeString :: byte where [wire]: "DatatypeString = 3"
definition DatatypeNumber :: byte where [wire]: "DatatypeNumber = 4"
definition DatatypeJSON :: byte where [wire]: "DatatypeJSON = 5"

definition Datatype_String :: "byte \<Rightarrow> string" where
  "Datatype_String d =
     (if d = 0 then ''[]byte''
      else if d = 1 then ''nil''
      else if d = 2 then ''bool''
      else if d = 3 then ''string''
      else if d = 4 then ''float64''
      else if d = 5 then ''[]byte (raw JSON)''
      else ''unknown'')"

text \<open>\<open>None\<close> is the error of \<open>json.Marshal\<close>.\<close>

fun markDataType :: "goval \<Rightarrow> bytes option" where
  "markDataType (VBytes d) = Some (0 # d)"
| "markDataType VNil = Some [1]"
| "markDataType (VBool d) = Some (if d = False then [2, 0] else [2, 1])"
| "markDataType (VString d) = Some (3 # bytes_of d)"
| "markDataType (VFloat d) = Some (4 # bytes_of (trim_zeros (sprintf10 d)))"
| "markDataType (VInt d) = Some (4 # bytes_of (show_int d))"
| "markDataType (VComplex re im) = Some (3 # bytes_of (sprintf10_complex re im))"
| "markDataType (VOther None) = None"
| "markDataType (VOther (Some jsoned)) = Some (5 # jsoned)"

text \<open>A boolean payload without a byte panics: \<open>raw[0]\<close> is read unchecked.\<close>

definition retrieveDataByType ::
    "(string \<Rightarrow> gofloat option) \<Rightarrow> byte \<Rightarrow> bytes \<Rightarrow> goval outcome" where
  "retrieveDataByType more t raw =
     (if t = DatatypeBinary then Ok (VBytes raw)
      else if t = DatatypeNull then Ok VNil
      else if t = DatatypeBool then
        (case raw of [] \<Rightarrow> Panic | b # _ \<Rightarrow> if b = 0 then Ok (VBool False) else Ok (VBool True))
      else if t = DatatypeString then Ok (VString (string_of raw))
      else if t = DatatypeNumber then
        (case parseFloat more (string_of raw) of
           Some x \<Rightarrow> Ok (VFloat x) | None \<Rightarrow> Error ''invalid syntax'')
      else if t = DatatypeJSON then Ok (VBytes raw)
      else Error (''Unknown datatype: '' @ Datatype_String t))"

section \<open>Integers survive the decimal text\<close>

lemma of_char_digit_char: "d < 10 \<Longrightarrow> (of_char (digit_char d) :: nat) = 48 + d"
  by (simp add: digit_char_def)

lemma is_digit_digit_char [simp]: "d < 10 \<Longrightarrow> is_digit (digit_char d)"
  by (simp add: is_digit_def of_char_digit_char)

lemma show_nat_digits: "c \<in> set (show_nat n) \<Longrightarrow> is_digit c"
proof (induction n rule: show_nat.induct)
  case (1 n)
  then show ?case
    by (subst (asm) show_nat.simps) (auto split: if_splits)
qed

lemma show_nat_nonempty: "show_nat n \<noteq> []"
  by (subst show_nat.simps) simp

lemma dec_value_show_nat: "dec_value (show_nat n) = n"
proof (induction n rule: show_nat.induct)
  case (1 n)
  then show ?case
    by (subst show_nat.simps) (simp add: dec_value_def of_char_digit_char)
qed

lemma parse_unsigned_show_nat: "parse_unsigned (show_nat n) = Some (n, 1)"
proof -
  have all: "\<forall>c \<in> set (show_nat n). is_digit c" using show_nat_digits by blast
  then have tw: "takeWhile is_digit (show_nat n) = show_nat n"
    and dw: "dropWhile is_digit (show_nat n) = []"
    by (simp_all add: takeWhile_eq_all_conv dropWhile_eq_Nil_conv)
  show ?thesis
    by (simp add: parse_unsigned_def Let_def tw dw show_nat_nonempty dec_value_show_nat)
qed

lemma bit_width_bound: "n < 2 ^ k \<Longrightarrow> bit_width n \<le> k"
proof (induction n arbitrary: k rule: bit_width.induct)
  case (1 n)
  show ?case
  proof (cases "n = 0")
    case True
    then show ?thesis by (subst bit_width.simps) simp
  next
    case False
    with "1.prems" obtain j where k: "k = Suc j" by (cases k) auto
    with "1.prems" have "n div 2 < 2 ^ j" by (simp add: less_mult_imp_div_less mult.commute)
    with "1.IH" False k show ?thesis by (subst bit_width.simps) simp
  qed
qed

lemma bit_width_1 [simp]: "bit_width (Suc 0) = Suc 0"
  by (simp add: bit_width.simps)

lemma bit_width_pos: "0 < n \<Longrightarrow> 0 < bit_width n"
  by (subst bit_width.simps) simp

lemma rne_1 [simp]: "rne n (Suc 0) = n"
  by (simp add: rne_def)

lemma round_f64_nat:
  assumes "n < 2 ^ 53"
  shows "round_f64 n 1 = Some (of_nat n)"
proof (cases "n = 0")
  case False
  define u where "u = max (floor_log2 n 1 - 52) (- 1074)"
  have "floor_log2 n 1 \<le> 52"
    using bit_width_bound [OF assms] by (simp add: floor_log2_def Let_def)
  then have u: "u \<le> 0" by (simp add: u_def)
  have "(of_nat n :: rat) < of_nat (2 ^ 53)" using assms by (simp only: of_nat_less_iff)
  then have "(of_nat n :: rat) < 2 ^ 1024"
    by (rule less_trans) simp
  moreover have "of_nat (n * 2 ^ nat (- u) * 2 ^ nat u) / of_nat (2 ^ nat (- u)) = (of_nat n :: rat)"
    using u by simp
  ultimately show ?thesis
    using False u unfolding round_f64_def u_def [symmetric] Let_def by simp
qed (simp add: round_f64_def)

lemma digit_char_sign: "is_digit c \<Longrightarrow> c \<noteq> CHR ''-'' \<and> c \<noteq> CHR ''+''"
  by (auto simp: is_digit_def)

lemma parseFloat_show_int:
  assumes "\<bar>n\<bar> < 2 ^ 53"
  shows "parseFloat more (show_int n) = Some (Finite (of_int n))"
proof (cases "n < 0")
  case True
  have "nat (- n) < 2 ^ 53" using assms True by (simp add: nat_less_iff)
  with True show ?thesis
    by (simp add: parseFloat_def show_int_def parse_unsigned_show_nat round_f64_nat [simplified])
next
  case False
  then have small: "nat n < 2 ^ 53" using assms by (simp add: nat_less_iff)
  obtain c cs where s: "show_nat (nat n) = c # cs"
    using show_nat_nonempty by (cases "show_nat (nat n)") auto
  then have "is_digit c" using show_nat_digits [of c "nat n"] by simp
  from digit_char_sign [OF this] have "parseFloat more (show_nat (nat n)) =
      (case parse_unsigned (show_nat (nat n)) of
         Some (n, d) \<Rightarrow> map_option Finite (round_f64 n d) | None \<Rightarrow> more (show_nat (nat n)))"
    unfolding s by (simp add: parseFloat_def split: option.split)
  with False small show ?thesis
    by (simp add: show_int_def parse_unsigned_show_nat round_f64_nat [simplified])
qed

section \<open>Properties\<close>

text \<open>What the receiver is specified to see for a value that is sent.\<close>

fun as_received :: "goval \<Rightarrow> goval option" where
  "as_received (VInt n) = (if \<bar>n\<bar> < 2 ^ 53 then Some (VFloat (Finite (of_int n))) else None)"
| "as_received (VComplex re im) = Some (VString (sprintf10_complex re im))"
| "as_received (VOther js) = map_option VBytes js"
| "as_received (VFloat x) = None"
| "as_received v = Some v"

lemma retrieve_simps [simp]:
  "retrieveDataByType more 0 raw = Ok (VBytes raw)"
  "retrieveDataByType more 1 raw = Ok VNil"
  "retrieveDataByType more 2 (b # raw) = Ok (VBool (b \<noteq> 0))"
  "retrieveDataByType more 2 [] = Panic"
  "retrieveDataByType more 3 raw = Ok (VString (string_of raw))"
  "retrieveDataByType more 5 raw = Ok (VBytes raw)"
  by (simp_all add: retrieveDataByType_def wire)

lemma retrieve_number:
  "parseFloat more s = Some x \<Longrightarrow> retrieveDataByType more 4 (bytes_of s) = Ok (VFloat x)"
  by (simp add: retrieveDataByType_def wire)

lemma marked_received:
  assumes "as_received v = Some w"
  shows "\<exists>m. markDataType v = Some m \<and> m \<noteq> [] \<and>
    retrieveDataByType more (hd m) (tl m) = Ok w"
proof (cases v)
  case (VInt n)
  with assms have "\<bar>n\<bar> < 2 ^ 53" and "w = VFloat (Finite (of_int n))"
    by (simp_all split: if_splits)
  then show ?thesis
    using VInt by (simp add: retrieve_number parseFloat_show_int)
next
  case (VOther js)
  with assms show ?thesis
    by (cases js) auto
qed (use assms in auto)



text \<open>
  A number below half a unit of the tenth decimal, such as \<open>2 ^ -40\<close>, is received as 0,
  although the protocol's number type is documented as \<open>float64\<close>.
\<close>

theorem float_precision_lost:
  "\<exists>m. markDataType (VFloat (Finite (1 / 2 ^ 40))) = Some m \<and> m \<noteq> [] \<and>
    retrieveDataByType more (hd m) (tl m) = Ok (VFloat (Finite 0))"
proof -
  have quot: "quotient_of (1 / 1099511627776 :: rat) = (1, 1099511627776)"
    by code_simp
  have zero: "digit_char 0 = CHR ''0''" by code_simp
  have rep: "replicate 9 (CHR ''0'') = ''000000000''" by (simp add: numeral_eq_Suc)
  have "trim_zeros (sprintf10 (Finite (1 / 2 ^ 40))) = ''0.''"
    by (simp add: abs_text_def rne_def quot show_nat.simps [of 0] pad_digits_def zero
        trim_zeros_def rep)
  moreover have "parseFloat more ''0.'' = Some (Finite 0)"
    by (simp add: parseFloat_def parse_unsigned_def is_digit_def dec_value_def round_f64_def)
  ultimately show ?thesis
    by (simp add: retrieve_number)
qed

text \<open>The dynamic type of a received value, as the documentation of the data types names it.\<close>

fun named_by :: "goval \<Rightarrow> string \<Rightarrow> bool" where
  "named_by (VBytes _) s \<longleftrightarrow> s = ''[]byte'' \<or> s = ''[]byte (raw JSON)''"
| "named_by VNil s \<longleftrightarrow> s = ''nil''"
| "named_by (VBool _) s \<longleftrightarrow> s = ''bool''"
| "named_by (VString _) s \<longleftrightarrow> s = ''string''"
| "named_by (VFloat _) s \<longleftrightarrow> s = ''float64''"
| "named_by _ s \<longleftrightarrow> False"

text \<open>
  C33.  What a handler gets has the Go type that the data type of the message names, an
  unknown data type is always an error, and what is sent carries one of the known data types.
\<close>

theorem received_type_as_declared:
  "(\<forall>v. retrieveDataByType mr t raw = Ok v \<longrightarrow> named_by v (Datatype_String t)) \<and>
   (Datatype_String t = ''unknown'' \<longrightarrow> (\<exists>e. retrieveDataByType mr t raw = Error e)) \<and>
   (markDataType x = Some m \<longrightarrow> Datatype_String (hd m) \<noteq> ''unknown'')"
proof -
  have "Datatype_String (hd m) \<noteq> ''unknown''" if "markDataType x = Some m"
    using that by (cases x rule: markDataType.cases) (auto simp: Datatype_String_def split: if_splits)
  then show ?thesis
    by (auto simp: retrieveDataByType_def Datatype_String_def wire split: if_splits list.splits option.splits)
qed

theorem received_type_as_declared_witness:
  "named_by (VFloat (Finite 12)) (Datatype_String 4) \<and> Datatype_String (hd (4 # bytes_of ''12'')) \<noteq> ''unknown''"
proof -
  have "markDataType (VInt 12) = Some (4 # bytes_of (show_int 12))" by simp
  moreover have "retrieveDataByType (\<lambda>_. None) 4 (bytes_of (show_int 12)) = Ok (VFloat (Finite 12))"
    using retrieve_number [OF parseFloat_show_int, of 12] by simp
  ultimately show ?thesis
    using received_type_as_declared [of "\<lambda>_. None" 4 "bytes_of (show_int 12)" "VInt 12" "4 # bytes_of (show_int 12)"]
    by simp
qed

end
