(* ===== verification/Protocol.thy ===== *)
theory Protocol
  imports DataTypes
begin

text \<open>
  The frames of protocol.go.  Serializers build the whole frame; parsers get the frame
  without its first byte, as a slice with the capacity the reader happened to allocate.
  Every frame kind is an instance of the locale \<open>frame_codec\<close>, where the consequences of the
  round trip are proved once; \<open>parseStreamResponse\<close> is the exception and its defect is stated
  exactly.
\<close>

section \<open>Serializers\<close>

definition serializeString :: "byte \<Rightarrow> string \<Rightarrow> bytes" where
  "serializeString t str = [t] @ bytes_of str"

definition serializeOneway :: "string \<Rightarrow> string \<Rightarrow> bytes \<Rightarrow> bytes" where
  "serializeOneway role event msg =
     (let binRole = bytes_of role; binEvent = bytes_of event in
      [typeMessage] @ int2Bytes (length binRole) @ int2Bytes (length binEvent)
        @ binRole @ binEvent @ msg)"

definition serializeRequest ::
    "(nat \<Rightarrow> u64) \<Rightarrow> string \<Rightarrow> string \<Rightarrow> correlation \<Rightarrow> bytes \<Rightarrow> bytes option" where
  "serializeRequest cvt role event corr msg =
     (let binRole = bytes_of role; binEvent = bytes_of event in
      do { binCor \<leftarrow> serializeCorrelation cvt corr;
           Some ([typeRequest] @ int2Bytes (length binRole) @ int2Bytes (length binEvent)
             @ [of_nat (length binCor)] @ binRole @ binEvent @ binCor @ msg) })"

definition serializeStreamRequest ::
    "(nat \<Rightarrow> u64) \<Rightarrow> byte \<Rightarrow> string \<Rightarrow> string \<Rightarrow> correlation \<Rightarrow> correlation \<Rightarrow> bytes \<Rightarrow> bytes option" where
  "serializeStreamRequest cvt t role event corr channel msg =
     (let binRole = bytes_of role; binEvent = bytes_of event in
      do { binCor \<leftarrow> serializeCorrelation cvt corr;
           binChan \<leftarrow> serializeCorrelation cvt channel;
           Some ([t] @ int2Bytes (length binRole) @ int2Bytes (length binEvent)
             @ [of_nat (length binCor)] @ [of_nat (length binChan)]
             @ binRole @ binEvent @ binCor @ binChan @ msg) })"

definition serializeResponse ::
    "(nat \<Rightarrow> u64) \<Rightarrow> byte \<Rightarrow> correlation \<Rightarrow> bytes \<Rightarrow> bytes option" where
  "serializeResponse cvt t corr msg =
     do { binCor \<leftarrow> serializeCorrelation cvt corr;
          Some ([t] @ [of_nat (length binCor)] @ binCor @ msg) }"

definition serializeStreamResponse ::
    "(nat \<Rightarrow> u64) \<Rightarrow> byte \<Rightarrow> correlation \<Rightarrow> correlation \<Rightarrow> bytes \<Rightarrow> bytes option" where
  "serializeStreamResponse cvt t corr channel msg =
     do { binCor \<leftarrow> serializeCorrelation cvt corr;
          binChan \<leftarrow> serializeCorrelation cvt channel;
          Some ([t] @ [of_nat (length binCor)] @ [of_nat (length binChan)]
            @ binCor @ binChan @ msg) }"

section \<open>Parsers\<close>

text \<open>
  \<open>None\<close> is the panic of an index or slice expression.  Sums of the \<open>uint64\<close> and \<open>int\<close>
  lengths below stay under \<open>2 ^ 18\<close> and are computed as naturals; the two response parsers
  compute with the type \<open>byte\<close>, where sums wrap.
\<close>

definition parseString :: "slice \<Rightarrow> string option" where
  "parseString inc = map_option string_of (slice_from inc 1)"

definition parseOneway ::
    "(nat \<Rightarrow> u64) \<Rightarrow> slice \<Rightarrow> (string \<times> string \<times> byte \<times> bytes) option" where
  "parseOneway cvt raw =
     do { roleLen \<leftarrow> map_option (\<lambda>b. unat (sliceToCorrelation cvt b)) (subslice raw 0 2);
          eventLen \<leftarrow> map_option (\<lambda>b. unat (sliceToCorrelation cvt b)) (subslice raw 2 4);
          role \<leftarrow> map_option string_of (subslice raw 4 (4 + roleLen));
          event \<leftarrow> map_option string_of (subslice raw (4 + roleLen) (4 + roleLen + eventLen));
          dataType \<leftarrow> slice_index raw (4 + roleLen + eventLen);
          rowData \<leftarrow> slice_from raw (4 + roleLen + eventLen + 1);
          Some (role, event, dataType, rowData) }"

definition parseRequest ::
    "(nat \<Rightarrow> u64) \<Rightarrow> slice \<Rightarrow> (string \<times> string \<times> correlation \<times> byte \<times> bytes) option" where
  "parseRequest cvt raw =
     do { roleLen \<leftarrow> map_option (\<lambda>b. unat (sliceToCorrelation cvt b)) (subslice raw 0 2);
          eventLen \<leftarrow> map_option (\<lambda>b. unat (sliceToCorrelation cvt b)) (subslice raw 2 4);
          corLen \<leftarrow> map_option unat (slice_index raw 4);
          role \<leftarrow> map_option string_of (subslice raw 5 (5 + roleLen));
          event \<leftarrow> map_option string_of (subslice raw (5 + roleLen) (5 + roleLen + eventLen));
          corr \<leftarrow> map_option (sliceToCorrelation cvt)
            (subslice raw (5 + roleLen + eventLen) (5 + roleLen + eventLen + corLen));
          dataType \<leftarrow> slice_index raw (5 + roleLen + eventLen + corLen);
          rowData \<leftarrow> slice_from raw (5 + roleLen + eventLen + corLen + 1);
          Some (role, event, corr, dataType, rowData) }"

definition parseStreamRequest ::
    "(nat \<Rightarrow> u64) \<Rightarrow> slice \<Rightarrow>
     (string \<times> string \<times> correlation \<times> correlation \<times> byte \<times> bytes) option" where
  "parseStreamRequest cvt raw =
     do { roleLen \<leftarrow> map_option (\<lambda>b. unat (sliceToCorrelation cvt b)) (subslice raw 0 2);
          eventLen \<leftarrow> map_option (\<lambda>b. unat (sliceToCorrelation cvt b)) (subslice raw 2 4);
          corLen \<leftarrow> map_option unat (slice_index raw 4);
          chanLen \<leftarrow> map_option unat (slice_index raw 5);
          let roleFrom = 6;
          let eventFrom = roleFrom + roleLen;
          let corrFrom = eventFrom + eventLen;
          let chanFrom = corrFrom + corLen;
          let typePos = chanFrom + chanLen;
          role \<leftarrow> map_option string_of (subslice raw roleFrom eventFrom);
          event \<leftarrow> map_option string_of (subslice raw eventFrom corrFrom);
          corr \<leftarrow> map_option (sliceToCorrelation cvt) (subslice raw corrFrom chanFrom);
          channel \<leftarrow> map_option (sliceToCorrelation cvt) (subslice raw chanFrom typePos);
          dataType \<leftarrow> slice_index raw typePos;
          rowData \<leftarrow> slice_from raw (typePos + 1);
          Some (role, event, corr, channel, dataType, rowData) }"

definition parseResponse ::
    "(nat \<Rightarrow> u64) \<Rightarrow> slice \<Rightarrow> (correlation \<times> byte \<times> bytes) option" where
  "parseResponse cvt raw =
     do { corLen \<leftarrow> slice_index raw 0;
          corr \<leftarrow> map_option (sliceToCorrelation cvt) (subslice raw 1 (unat (1 + corLen)));
          dataType \<leftarrow> slice_index raw (unat (1 + corLen));
          rowData \<leftarrow> slice_from raw (unat (2 + corLen));
          Some (corr, dataType, rowData) }"

definition parseStreamResponse ::
    "(nat \<Rightarrow> u64) \<Rightarrow> slice \<Rightarrow> (correlation \<times> correlation \<times> byte \<times> bytes) option" where
  "parseStreamResponse cvt raw =
     do { corLen \<leftarrow> slice_index raw 0;
          chanLen \<leftarrow> slice_index raw 1;
          corr \<leftarrow> map_option (sliceToCorrelation cvt) (subslice raw 2 (unat (2 + corLen)));
          channel \<leftarrow> map_option (sliceToCorrelation cvt)
            (subslice raw (unat (2 + corLen)) (unat (2 + corLen + chanLen)));
          dataType \<leftarrow> slice_index raw (unat (2 + chanLen + chanLen));
          rowData \<leftarrow> slice_from raw (unat (3 + chanLen + chanLen));
          Some (corr, channel, dataType, rowData) }"

section \<open>The interface of a codec\<close>

text \<open>
  A frame is its type byte and a body.  \<open>dec\<close> sees the body as a slice with any spare
  capacity behind it.  The law is the round trip on the messages that satisfy \<open>ok\<close>.
\<close>

locale frame_codec =
  fixes enc :: "'m \<Rightarrow> bytes option" and dec :: "slice \<Rightarrow> 'm option" and ok :: "'m \<Rightarrow> bool"
  assumes roundtrip: "ok m \<Longrightarrow> \<exists>t body. enc m = Some (t # body) \<and>
    (\<forall>spare. dec (Slice (body @ spare) (length body)) = Some m)"
begin

lemma dec_enc:
  "ok m \<Longrightarrow> enc m = Some (t # body) \<Longrightarrow> dec (Slice (body @ spare) (length body)) = Some m"
  using roundtrip [of m] by auto

lemma enc_inj: "ok m \<Longrightarrow> ok m' \<Longrightarrow> enc m = enc m' \<Longrightarrow> m = m'"
  using roundtrip [of m] dec_enc [of m'] by (metis option.inject)

end

text \<open>The lengths that fit the headers.\<close>

definition header_ok :: "string \<Rightarrow> string \<Rightarrow> bool" where
  "header_ok role event \<longleftrightarrow> length role < 65536 \<and> length event < 65536"

definition corr_ok :: "correlation \<Rightarrow> bool" where
  "corr_ok c \<longleftrightarrow> unat c \<le> maxCorrelation"

lemma corr_ok_enc: "corr_ok c \<Longrightarrow> serializeCorrelation cvt c = Some (be_bytes (unat c))"
  by (simp add: corr_ok_def serializeCorrelation_spec)

lemma corr_ok_dec: "corr_ok c \<Longrightarrow> sliceToCorrelation cvt (be_bytes (unat c)) = c"
  by (simp add: corr_ok_def sliceToCorrelation_be_bytes)

lemma corr_ok_len: "corr_ok c \<Longrightarrow> length (be_bytes (unat c)) \<le> 7"
  by (simp add: corr_ok_def length_be_bytes_max)

lemma corr_ok_unat_len:
  "corr_ok c \<Longrightarrow> unat (of_nat (length (be_bytes (unat c))) :: byte) = length (be_bytes (unat c))"
  using corr_ok_len [of c] by (simp add: unat_of_nat_byte)

lemmas corr_codec = corr_ok_enc corr_ok_dec corr_ok_unat_len

lemmas read_fields = subslice_def slice_index_def slice_from_def nth_append

type_synonym oneway = "string \<times> string \<times> byte \<times> bytes"

definition enc_oneway :: "oneway \<Rightarrow> bytes option" where
  "enc_oneway m = (case m of (role, event, t, d) \<Rightarrow> Some (serializeOneway role event (t # d)))"

lemma parseOneway_serialize:
  assumes "header_ok role event"
  shows "\<exists>body. serializeOneway role event (t # d) = typeMessage # body \<and>
    (\<forall>spare. parseOneway cvt (Slice (body @ spare) (length body)) = Some (role, event, t, d))"
  using assms
  by (simp add: serializeOneway_def parseOneway_def read_fields header_ok_def int2Bytes_value Let_def)

lemma parseRequest_serialize:
  assumes "header_ok role event" and "corr_ok corr"
  shows "\<exists>body. serializeRequest cvt role event corr (t # d) = Some (typeRequest # body) \<and>
    (\<forall>spare. parseRequest cvt' (Slice (body @ spare) (length body)) = Some (role, event, corr, t, d))"
  using assms
  by (simp add: serializeRequest_def parseRequest_def read_fields header_ok_def int2Bytes_value
      Let_def corr_codec)

lemma parseStreamRequest_serialize:
  assumes "header_ok role event" and "corr_ok corr" and "corr_ok channel"
  shows "\<exists>body. serializeStreamRequest cvt k role event corr channel (t # d) = Some (k # body) \<and>
    (\<forall>spare. parseStreamRequest cvt' (Slice (body @ spare) (length body))
      = Some (role, event, corr, channel, t, d))"
  using assms
  by (simp add: serializeStreamRequest_def parseStreamRequest_def read_fields header_ok_def
      int2Bytes_value Let_def corr_codec drop_Cons')

text \<open>The byte sums of the response parsers do not wrap for encodings of at most seven bytes.\<close>

lemma unat_byte_sums:
  assumes "a \<le> 7" and "b \<le> 7"
  shows "unat (1 + of_nat a :: byte) = 1 + a" "unat (2 + of_nat a :: byte) = 2 + a"
    "unat (2 + of_nat a + of_nat b :: byte) = 2 + a + b"
    "unat (3 + of_nat a + of_nat b :: byte) = 3 + a + b"
proof -
  have "(1 + of_nat a :: byte) = of_nat (1 + a)" "(2 + of_nat a :: byte) = of_nat (2 + a)"
    "(2 + of_nat a + of_nat b :: byte) = of_nat (2 + a + b)"
    "(3 + of_nat a + of_nat b :: byte) = of_nat (3 + a + b)"
    by simp_all
  then show "unat (1 + of_nat a :: byte) = 1 + a" "unat (2 + of_nat a :: byte) = 2 + a"
    "unat (2 + of_nat a + of_nat b :: byte) = 2 + a + b"
    "unat (3 + of_nat a + of_nat b :: byte) = 3 + a + b"
    using assms by (simp_all only: unat_of_nat_byte) simp_all
qed

lemmas corr_ok_sums = unat_byte_sums [OF corr_ok_len corr_ok_len]

lemma parseResponse_serialize:
  assumes "corr_ok corr"
  shows "\<exists>body. serializeResponse cvt k corr (t # d) = Some (k # body) \<and>
    (\<forall>spare. parseResponse cvt' (Slice (body @ spare) (length body)) = Some (corr, t, d))"
  using assms
  by (simp add: serializeResponse_def parseResponse_def read_fields corr_codec
      corr_ok_sums [OF assms assms])

text \<open>
  A stream response is read back only when both numbers take the same number of bytes: the
  parser computes the position of the payload from twice the channel's length.
\<close>

definition same_width :: "correlation \<Rightarrow> correlation \<Rightarrow> bool" where
  "same_width corr channel \<longleftrightarrow> length (be_bytes (unat corr)) = length (be_bytes (unat channel))"

lemma parseStreamResponse_serialize:
  assumes "corr_ok corr" and "corr_ok channel" and "same_width corr channel"
  shows "\<exists>body. serializeStreamResponse cvt k corr channel (t # d) = Some (k # body) \<and>
    (\<forall>spare. parseStreamResponse cvt' (Slice (body @ spare) (length body)) = Some (corr, channel, t, d))"
proof -
  have w: "length (be_bytes (unat corr)) = length (be_bytes (unat channel))"
    using assms(3) by (simp add: same_width_def)
  show ?thesis
    using assms(1,2) corr_ok_unat_len [OF assms(2)]
    by (simp add: serializeStreamResponse_def parseStreamResponse_def read_fields
        corr_ok_enc corr_ok_dec w corr_ok_sums [OF assms(2,2)]
        corr_ok_sums [OF assms(2,2), simplified] drop_Cons')
qed

text \<open>
  With one byte more in the correlation, the last byte of the channel is taken for the type
  of the payload, and the type for the first byte of the data.
\<close>

lemma parseStreamResponse_shifted:
  assumes "corr_ok corr" and "corr_ok channel"
    and "length (be_bytes (unat corr)) = Suc (length (be_bytes (unat channel)))"
  shows "\<exists>body. serializeStreamResponse cvt k corr channel (t # d) = Some (k # body) \<and>
    parseStreamResponse cvt' (slice_of body) = Some (corr, channel, of_nat (unat channel), t # d)"
proof -
  let ?h = "be_bytes (unat channel)"
  have last: "?h ! (length ?h - 1) = of_nat (unat channel)"
    using be_bytes_nonempty [of "unat channel"]
    by (subst be_bytes_digits) (simp add: rev_nth)
  have "0 < length ?h" using be_bytes_nonempty [of "unat channel"] by simp
  then obtain m where m: "length ?h = Suc m" by (cases "length ?h") auto
  have small: "Suc (Suc m) \<le> 7" using corr_ok_len [OF assms(1)] assms(3) m by simp
  have u: "unat (of_nat (Suc m) :: byte) = Suc m" "unat (of_nat (Suc (Suc m)) :: byte) = Suc (Suc m)"
    using small by (simp_all only: unat_of_nat_byte) simp_all
  show ?thesis
    using assms(1,2) last unat_byte_sums [of "Suc (Suc m)" "Suc m", simplified]
      unat_byte_sums [of "Suc m" "Suc m", simplified] u small
    by (simp add: serializeStreamResponse_def parseStreamResponse_def read_fields
        corr_ok_enc corr_ok_dec assms(3) m slice_of_def drop_Cons')
qed

section \<open>The frame kinds as codecs\<close>

type_synonym request = "string \<times> string \<times> correlation \<times> byte \<times> bytes"
type_synonym stream_request_msg = "string \<times> string \<times> correlation \<times> correlation \<times> byte \<times> bytes"
type_synonym response = "correlation \<times> byte \<times> bytes"
type_synonym stream_response = "correlation \<times> correlation \<times> byte \<times> bytes"

fun enc_request :: "(nat \<Rightarrow> u64) \<Rightarrow> request \<Rightarrow> bytes option" where
  "enc_request cvt (role, event, corr, t, d) = serializeRequest cvt role event corr (t # d)"

fun enc_stream_request :: "(nat \<Rightarrow> u64) \<Rightarrow> byte \<Rightarrow> stream_request_msg \<Rightarrow> bytes option" where
  "enc_stream_request cvt k (role, event, corr, channel, t, d) =
     serializeStreamRequest cvt k role event corr channel (t # d)"

fun enc_response :: "(nat \<Rightarrow> u64) \<Rightarrow> byte \<Rightarrow> response \<Rightarrow> bytes option" where
  "enc_response cvt k (corr, t, d) = serializeResponse cvt k corr (t # d)"

fun enc_stream_response :: "(nat \<Rightarrow> u64) \<Rightarrow> byte \<Rightarrow> stream_response \<Rightarrow> bytes option" where
  "enc_stream_response cvt k (corr, channel, t, d) =
     serializeStreamResponse cvt k corr channel (t # d)"

interpretation ow: frame_codec enc_oneway "parseOneway cvt"
  "\<lambda>(role, event, t, d). header_ok role event" for cvt
  by unfold_locales (clarsimp simp: enc_oneway_def, metis parseOneway_serialize)

interpretation rq: frame_codec "enc_request cvt" "parseRequest cvt'"
  "\<lambda>(role, event, corr, t, d). header_ok role event \<and> corr_ok corr" for cvt cvt'
  by unfold_locales (clarsimp, metis parseRequest_serialize)

interpretation sr: frame_codec "enc_stream_request cvt k" "parseStreamRequest cvt'"
  "\<lambda>(role, event, corr, channel, t, d). header_ok role event \<and> corr_ok corr \<and> corr_ok channel"
  for cvt cvt' k
  by unfold_locales (clarsimp, metis parseStreamRequest_serialize)

interpretation rs: frame_codec "enc_response cvt k" "parseResponse cvt'"
  "\<lambda>(corr, t, d). corr_ok corr" for cvt cvt' k
  by unfold_locales (clarsimp, metis parseResponse_serialize)

interpretation ss: frame_codec "enc_stream_response cvt k" "parseStreamResponse cvt'"
  "\<lambda>(corr, channel, t, d). corr_ok corr \<and> corr_ok channel \<and> same_width corr channel"
  for cvt cvt' k
  by unfold_locales (clarsimp, metis parseStreamResponse_serialize)

section \<open>Properties\<close>

text \<open>
  C3.  Messages, requests and stream requests are received with the role, event, numbers,
  type and data they were sent with, whatever spare capacity the receive buffer has.
\<close>

theorem request_frames_roundtrip:
  assumes "header_ok role event" and "corr_ok corr" and "corr_ok channel"
  shows "\<exists>b1 b2 b3.
    serializeOneway role event (t # d) = typeMessage # b1 \<and>
    serializeRequest cvt role event corr (t # d) = Some (typeRequest # b2) \<and>
    serializeStreamRequest cvt k role event corr channel (t # d) = Some (k # b3) \<and>
    (\<forall>spare.
      parseOneway cvt' (Slice (b1 @ spare) (length b1)) = Some (role, event, t, d) \<and>
      parseRequest cvt' (Slice (b2 @ spare) (length b2)) = Some (role, event, corr, t, d) \<and>
      parseStreamRequest cvt' (Slice (b3 @ spare) (length b3))
        = Some (role, event, corr, channel, t, d))"
  using parseOneway_serialize [OF assms(1), of t d cvt'] parseRequest_serialize [OF assms(1,2), of cvt t d cvt']
    parseStreamRequest_serialize [OF assms, of cvt k t d cvt'] by blast

theorem request_frames_roundtrip_witness:
  "\<exists>b1 b2 b3.
    serializeOneway ''echo'' ''test'' [3, 97] = typeMessage # b1 \<and>
    serializeRequest (\<lambda>_. 0) ''echo'' ''test'' 50 [3, 97] = Some (typeRequest # b2) \<and>
    serializeStreamRequest (\<lambda>_. 0) typeReader ''echo'' ''test'' 50 (2 ^ 40) [3, 97]
      = Some (typeReader # b3) \<and>
    (\<forall>spare.
      parseOneway (\<lambda>_. 0) (Slice (b1 @ spare) (length b1)) = Some (''echo'', ''test'', 3, [97]) \<and>
      parseRequest (\<lambda>_. 0) (Slice (b2 @ spare) (length b2)) = Some (''echo'', ''test'', 50, 3, [97]) \<and>
      parseStreamRequest (\<lambda>_. 0) (Slice (b3 @ spare) (length b3))
        = Some (''echo'', ''test'', 50, 2 ^ 40, 3, [97]))"
  by (rule request_frames_roundtrip) (simp_all add: header_ok_def corr_ok_def maxCorrelation_def)

text \<open>
  C27.  Responses are received as sent, and stream responses are when correlation and channel
  are encoded in equally many bytes.
\<close>

theorem response_frames_roundtrip:
  assumes "corr_ok corr" and "corr_ok channel" and "same_width corr channel"
  shows "\<exists>b1 b2.
    serializeResponse cvt k corr (t # d) = Some (k # b1) \<and>
    serializeStreamResponse cvt k corr channel (t # d) = Some (k # b2) \<and>
    (\<forall>spare.
      parseResponse cvt' (Slice (b1 @ spare) (length b1)) = Some (corr, t, d) \<and>
      parseStreamResponse cvt' (Slice (b2 @ spare) (length b2)) = Some (corr, channel, t, d))"
  using parseResponse_serialize [OF assms(1), of cvt k t d cvt']
    parseStreamResponse_serialize [OF assms, of cvt k t d cvt'] by blast

theorem response_frames_roundtrip_witness:
  "\<exists>b1 b2.
    serializeResponse (\<lambda>_. 0) typeResolve 50 [3, 97] = Some (typeResolve # b1) \<and>
    serializeStreamResponse (\<lambda>_. 0) typeResolve 50 150 [3, 97] = Some (typeResolve # b2) \<and>
    (\<forall>spare.
      parseResponse (\<lambda>_. 0) (Slice (b1 @ spare) (length b1)) = Some (50, 3, [97]) \<and>
      parseStreamResponse (\<lambda>_. 0) (Slice (b2 @ spare) (length b2)) = Some (50, 150, 3, [97]))"
  by (rule response_frames_roundtrip)
     (simp_all add: corr_ok_def maxCorrelation_def same_width_def be_bytes.simps)

text \<open>
  Once correlations need one byte more than channels (from the 256th request on, while
  fewer than 256 streams were opened), a stream response is misread: the type of the payload
  becomes the low byte of the channel and the type byte is prepended to the data.
\<close>

theorem stream_response_misread:
  assumes "corr_ok corr" and "corr_ok channel"
    and "length (be_bytes (unat corr)) = Suc (length (be_bytes (unat channel)))"
  shows "\<exists>body. serializeStreamResponse cvt k corr channel (t # d) = Some (k # body) \<and>
    parseStreamResponse cvt' (slice_of body) = Some (corr, channel, of_nat (unat channel), t # d)"
  using assms by (rule parseStreamResponse_shifted)

theorem stream_response_misread_witness:
  "\<exists>body. serializeStreamResponse (\<lambda>_. 0) typeStreamResolve 256 3 [2, 1] = Some (typeStreamResolve # body) \<and>
    parseStreamResponse (\<lambda>_. 0) (slice_of body) = Some (256, 3, of_nat (unat (3 :: u64)), [2, 1])"
  by (rule stream_response_misread) (simp_all add: corr_ok_def maxCorrelation_def be_bytes.simps)

lemma subslice_in_frame:
  "b \<le> slen s \<Longrightarrow> wf_slice s \<Longrightarrow> subslice s a b = subslice (slice_of (visible s)) a b"
  by (auto simp: subslice_def visible_def wf_slice_def drop_take min_def)

lemma index_in_frame: "wf_slice s \<Longrightarrow> slice_index s i = slice_index (slice_of (visible s)) i"
  by (auto simp: slice_index_def visible_def wf_slice_def)

lemma from_in_frame: "wf_slice s \<Longrightarrow> slice_from s a = slice_from (slice_of (visible s)) a"
  by (auto simp: slice_from_def visible_def wf_slice_def drop_take)

lemma slice_index_bound: "slice_index s i = Some x \<Longrightarrow> i < slen s"
  by (simp add: slice_index_def split: if_splits)

text \<open>
  A successful parse of a message, a request or a stream request only saw bytes of the
  frame: slice expressions may reach into stale capacity, but the check of the index that
  follows rules that out.
\<close>

theorem parsers_see_frame_only:
  assumes "wf_slice s"
  shows "(parseOneway cvt s = Some r1 \<longrightarrow> parseOneway cvt (slice_of (visible s)) = Some r1) \<and>
    (parseRequest cvt s = Some r2 \<longrightarrow> parseRequest cvt (slice_of (visible s)) = Some r2) \<and>
    (parseStreamRequest cvt s = Some r3 \<longrightarrow> parseStreamRequest cvt (slice_of (visible s)) = Some r3)"
proof (intro conjI impI)
  note frame = subslice_in_frame [OF _ assms, symmetric] index_in_frame [OF assms, symmetric]
    from_in_frame [OF assms, symmetric]
  let ?len = "\<lambda>z. unat (sliceToCorrelation cvt z)"
  show "parseOneway cvt (slice_of (visible s)) = Some r1" if ok: "parseOneway cvt s = Some r1"
  proof -
    from ok obtain z1 z2 x where sub: "subslice s 0 2 = Some z1" "subslice s 2 4 = Some z2"
      and "slice_index s (4 + ?len z1 + ?len z2) = Some x"
      by (auto simp: parseOneway_def bind_eq_Some_conv)
    then have "4 + ?len z1 + ?len z2 < slen s" by (simp add: slice_index_bound)
    with ok sub show ?thesis
      by (simp add: parseOneway_def frame)
  qed
  show "parseRequest cvt (slice_of (visible s)) = Some r2" if ok: "parseRequest cvt s = Some r2"
  proof -
    from ok obtain z1 z2 l x where sub: "subslice s 0 2 = Some z1" "subslice s 2 4 = Some z2"
      "slice_index s 4 = Some l"
      and "slice_index s (5 + ?len z1 + ?len z2 + unat l) = Some x"
      by (auto simp: parseRequest_def bind_eq_Some_conv)
    then have "5 + ?len z1 + ?len z2 + unat l < slen s" by (simp add: slice_index_bound)
    with ok sub show ?thesis
      by (simp add: parseRequest_def frame)
  qed
  show "parseStreamRequest cvt (slice_of (visible s)) = Some r3" if ok: "parseStreamRequest cvt s = Some r3"
  proof -
    from ok obtain z1 z2 l k x where sub: "subslice s 0 2 = Some z1" "subslice s 2 4 = Some z2"
      "slice_index s 4 = Some l" "slice_index s 5 = Some k"
      and "slice_index s (6 + ?len z1 + ?len z2 + unat l + unat k) = Some x"
      by (auto simp: parseStreamRequest_def bind_eq_Some_conv Let_def)
    then have "6 + ?len z1 + ?len z2 + unat l + unat k < slen s" by (simp add: slice_index_bound)
    with ok sub show ?thesis
      by (simp add: parseStreamRequest_def frame Let_def)
  qed
qed

definition stale_frame :: slice where
  "stale_frame = Slice [0, 1, 0, 1, 97, 98, 3, 7, 200, 201] 8"

theorem parsers_see_frame_only_witness:
  "parseOneway (\<lambda>_. 0) (slice_of (visible stale_frame)) = Some (''a'', ''b'', 3, [7])"
proof -
  have "wf_slice stale_frame" by (simp add: stale_frame_def wf_slice_def)
  moreover have "parseOneway (\<lambda>_. 0) stale_frame = Some (''a'', ''b'', 3, [7])"
    by (simp add: stale_frame_def parseOneway_def read_fields sliceToCorrelation_def pow256_def
        string_of_def char_of_def) code_simp
  ultimately show ?thesis using parsers_see_frame_only by blast
qed

text \<open>
  A role name of 65536 bytes or more never arrives: its length header wraps, without
  an error on either side.
\<close>

theorem overlong_role_lost:
  assumes "65536 \<le> length role"
  shows "parseOneway cvt (slice_of (tl (serializeOneway role event msg))) \<noteq> Some (role, e, t, d)"
proof
  let ?s = "slice_of (tl (serializeOneway role event msg))"
  have "subslice ?s 0 2 = Some (int2Bytes (length role))"
    by (simp add: subslice_def serializeOneway_def Let_def)
  moreover assume "parseOneway cvt ?s = Some (role, e, t, d)"
  ultimately obtain bs where "subslice ?s 4 (4 + length role mod 65536) = Some bs" "role = string_of bs"
    by (auto simp: parseOneway_def bind_eq_Some_conv int2Bytes_value_mod)
  then have "length role \<le> length role mod 65536"
    by (auto dest!: length_subslice)
  then show False using assms by (metis leD le_trans mod_less_divisor zero_less_numeral)
qed

theorem overlong_role_lost_witness:
  "parseOneway (\<lambda>_. 0) (slice_of (tl (serializeOneway (replicate 65536 CHR ''a'') ''test'' [3, 97])))
    \<noteq> Some (replicate 65536 CHR ''a'', ''test'', 3, [97])"
  by (rule overlong_role_lost) simp

text \<open>
  Different stream requests with names that fit the headers have different frames, so
  no receiver can confuse them.
\<close>

theorem stream_request_frames_injective:
  assumes "header_ok r e" and "corr_ok c" and "corr_ok h"
    and "header_ok r' e'" and "corr_ok c'" and "corr_ok h'"
    and "(r, e, c, h, t, d) \<noteq> (r', e', c', h', t', d')"
  shows "serializeStreamRequest cvt k r e c h (t # d) \<noteq> serializeStreamRequest cvt k r' e' c' h' (t' # d')"
  using sr.enc_inj [of "(r, e, c, h, t, d)" "(r', e', c', h', t', d')" cvt k] assms by auto

theorem stream_request_frames_injective_witness:
  "serializeStreamRequest (\<lambda>_. 0) typeReader ''ab'' ''c'' 1 2 (3 # [4])
    \<noteq> serializeStreamRequest (\<lambda>_. 0) typeReader ''a'' ''bc'' 1 2 (3 # [4])"
  by (rule stream_request_frames_injective) (simp_all add: header_ok_def corr_ok_def maxCorrelation_def)

end
