(* ===== verification/Middleware.thy ===== *)
theory Middleware
  imports Protocol
begin

text \<open>
  The four handler registries of structs.go.  They are separate types in the code with the
  same two methods; each is modelled by its own definitions, and what their client, the
  dispatch of role_internal.go, relies on is the locale \<open>middleware\<close>, interpreted for all
  four.  The mutexes make every method atomic.
\<close>

section \<open>The interface\<close>

locale middleware =
  fixes create :: "'m" and get :: "'m \<Rightarrow> string \<Rightarrow> 'h list" and set_mw :: "'m \<Rightarrow> string \<Rightarrow> 'h \<Rightarrow> 'm"
  assumes get_create: "get create event = []"
    and get_set: "get (set_mw m event h) event' =
      (if event' = event then get m event @ [h] else get m event')"
begin

lemma get_registered:
  "get (fold (\<lambda>(e, h) m. set_mw m e h) regs m) event =
   get m event @ map snd (filter (\<lambda>(e, h). e = event) regs)"
  by (induction regs arbitrary: m) (auto simp: get_set)

lemma registration_order:
  "get (fold (\<lambda>(e, h) m. set_mw m e h) regs create) event =
   map snd (filter (\<lambda>(e, h). e = event) regs)"
  by (simp add: get_registered get_create)

end

section \<open>Message handlers\<close>

definition createMiddlewareMessageMap :: "string \<Rightarrow> 'h list option" where
  "createMiddlewareMessageMap = Map.empty"

definition mwMessage_get :: "(string \<Rightarrow> 'h list option) \<Rightarrow> string \<Rightarrow> 'h list" where
  "mwMessage_get m event = (case m event of None \<Rightarrow> [] | Some handlers \<Rightarrow> handlers)"

definition mwMessage_set ::
    "(string \<Rightarrow> 'h list option) \<Rightarrow> string \<Rightarrow> 'h \<Rightarrow> (string \<Rightarrow> 'h list option)" where
  "mwMessage_set m event handler =
     (let m' = (if m event = None then m(event \<mapsto> []) else m)
      in m'(event \<mapsto> the (m' event) @ [handler]))"

section \<open>Request handlers\<close>

definition createMiddlewareRequestMap :: "string \<Rightarrow> 'h list option" where
  "createMiddlewareRequestMap = Map.empty"

definition mwRequest_get :: "(string \<Rightarrow> 'h list option) \<Rightarrow> string \<Rightarrow> 'h list" where
  "mwRequest_get m event = (case m event of None \<Rightarrow> [] | Some handlers \<Rightarrow> handlers)"

definition mwRequest_set ::
    "(string \<Rightarrow> 'h list option) \<Rightarrow> string \<Rightarrow> 'h \<Rightarrow> (string \<Rightarrow> 'h list option)" where
  "mwRequest_set m event handler =
     (let m' = (if m event = None then m(event \<mapsto> []) else m)
      in m'(event \<mapsto> the (m' event) @ [handler]))"

section \<open>Writable stream handlers\<close>

definition createMiddlewareWriterMap :: "string \<Rightarrow> 'h list option" where
  "createMiddlewareWriterMap = Map.empty"

definition mwWriter_get :: "(string \<Rightarrow> 'h list option) \<Rightarrow> string \<Rightarrow> 'h list" where
  "mwWriter_get m event = (case m event of None \<Rightarrow> [] | Some handlers \<Rightarrow> handlers)"

definition mwWriter_set ::
    "(string \<Rightarrow> 'h list option) \<Rightarrow> string \<Rightarrow> 'h \<Rightarrow> (string \<Rightarrow> 'h list option)" where
  "mwWriter_set m event handler =
     (let m' = (if m event = None then m(event \<mapsto> []) else m)
      in m'(event \<mapsto> the (m' event) @ [handler]))"

section \<open>Readable stream handlers\<close>

definition createMiddlewareReaderMap :: "string \<Rightarrow> 'h list option" where
  "createMiddlewareReaderMap = Map.empty"

definition mwReader_get :: "(string \<Rightarrow> 'h list option) \<Rightarrow> string \<Rightarrow> 'h list" where
  "mwReader_get m event = (case m event of None \<Rightarrow> [] | Some handlers \<Rightarrow> handlers)"

definition mwReader_set ::
    "(string \<Rightarrow> 'h list option) \<Rightarrow> string \<Rightarrow> 'h \<Rightarrow> (string \<Rightarrow> 'h list option)" where
  "mwReader_set m event handler =
     (let m' = (if m event = None then m(event \<mapsto> []) else m)
      in m'(event \<mapsto> the (m' event) @ [handler]))"

section \<open>All four implement the interface\<close>

interpretation mwm: middleware createMiddlewareMessageMap mwMessage_get mwMessage_set
  by unfold_locales
     (auto simp: createMiddlewareMessageMap_def mwMessage_get_def mwMessage_set_def Let_def)

interpretation mwq: middleware createMiddlewareRequestMap mwRequest_get mwRequest_set
  by unfold_locales
     (auto simp: createMiddlewareRequestMap_def mwRequest_get_def mwRequest_set_def Let_def)

interpretation mww: middleware createMiddlewareWriterMap mwWriter_get mwWriter_set
  by unfold_locales
     (auto simp: createMiddlewareWriterMap_def mwWriter_get_def mwWriter_set_def Let_def)

interpretation mwr: middleware createMiddlewareReaderMap mwReader_get mwReader_set
  by unfold_locales
     (auto simp: createMiddlewareReaderMap_def mwReader_get_def mwReader_set_def Let_def)

section \<open>Properties\<close>

text \<open>
  C30.  Whatever was registered before and for other events, the handlers found for an event
  are exactly those registered for it, in the order of registration, in all four registries.
\<close>

theorem handlers_in_registration_order:
  "mwMessage_get (fold (\<lambda>(e, h) m. mwMessage_set m e h) regs createMiddlewareMessageMap) event
     = map snd (filter (\<lambda>(e, h). e = event) regs)
   \<and> mwRequest_get (fold (\<lambda>(e, h) m. mwRequest_set m e h) regs createMiddlewareRequestMap) event
     = map snd (filter (\<lambda>(e, h). e = event) regs)
   \<and> mwWriter_get (fold (\<lambda>(e, h) m. mwWriter_set m e h) regs createMiddlewareWriterMap) event
     = map snd (filter (\<lambda>(e, h). e = event) regs)
   \<and> mwReader_get (fold (\<lambda>(e, h) m. mwReader_set m e h) regs createMiddlewareReaderMap) event
     = map snd (filter (\<lambda>(e, h). e = event) regs)"
  by (simp only: mwm.registration_order mwq.registration_order mww.registration_order
      mwr.registration_order)

end
