(* ===== verification/Callbacks.thy ===== *)
theory Callbacks
  imports Protocol
begin

text \<open>
  Request correlation (unit_internal.go): the goroutine that produces correlations and the
  controller that matches responses, timeouts and unit closing to waiting requests.  The
  client of the generator is stated by the locale \<open>id_supply\<close>.
\<close>

section \<open>The producer of correlations\<close>

text \<open>
  \<open>produceCorrelation\<close> gets the controller's map as an \<open>interface{}\<close>.  A value of that type
  carries its dynamic type: the two callers pass a map of waiters and a map of streams.
\<close>

datatype dyn_map =
    WaiterMap "correlation set"
  | StreamMap "correlation set"
  | InterfaceMap "correlation set"

text \<open>
  \<open>callbacks, _ := cb.(map[correlation]interface{})\<close>: the assertion holds for that very type
  only; otherwise the result is the nil map, which has no key.
\<close>

fun assert_interface_map :: "dyn_map \<Rightarrow> correlation set" where
  "assert_interface_map (InterfaceMap m) = m"
| "assert_interface_map _ = {}"

text \<open>One turn of the loop: the correlation sent on the channel, or \<open>None\<close> for the break.\<close>

definition produceCorrelation :: "dyn_map \<Rightarrow> correlation \<Rightarrow> correlation option" where
  "produceCorrelation cb i =
     (let callbacks = assert_interface_map cb;
          i1 = i + 1;
          i2 = (if i1 > of_nat maxCorrelation then 0 else i1)
      in if i2 \<in> callbacks then None else Some i2)"

text \<open>The first \<open>n\<close> correlations of the goroutine, fewer if it stops.\<close>

fun produced :: "dyn_map \<Rightarrow> correlation \<Rightarrow> nat \<Rightarrow> correlation list" where
  "produced cb i 0 = []"
| "produced cb i (Suc n) =
     (case produceCorrelation cb i of None \<Rightarrow> [] | Some j \<Rightarrow> j # produced cb j n)"

definition ids :: "nat \<Rightarrow> correlation" where
  "ids k = of_nat (Suc k mod 2 ^ 53)"

lemma unat_ids: "unat (ids k) = Suc k mod 2 ^ 53"
proof -
  have "Suc k mod 2 ^ 53 < 2 ^ 64"
    by (rule less_trans [of _ "2 ^ 53"]) simp_all
  then show ?thesis by (simp add: ids_def unat_of_nat)
qed

lemma corr_ok_ids: "corr_ok (ids k)"
  using mod_less_divisor [of "2 ^ 53" "Suc k"]
  by (simp add: corr_ok_def unat_ids maxCorrelation_def less_Suc_eq_le [symmetric] del: mod_less_divisor)

lemma produce_ids:
  assumes "assert_interface_map cb = {}"
  shows "produceCorrelation cb (of_nat (k mod 2 ^ 53)) = Some (ids k)"
proof -
  let ?m = "k mod 2 ^ 53"
  have m: "?m < 2 ^ 53" by simp
  have "(of_nat ?m + 1 :: u64) = of_nat (?m + 1)" by simp
  then have u: "unat (of_nat ?m + 1 :: u64) = ?m + 1"
    using m by (simp only: unat_of_nat) simp
  have max: "unat (of_nat maxCorrelation :: u64) = 2 ^ 53 - 1"
    by (simp add: maxCorrelation_def)
  show ?thesis
  proof (cases "?m + 1 = 2 ^ 53")
    case True
    then have "Suc k mod 2 ^ 53 = 0" by (simp add: mod_Suc)
    with True u max assms show ?thesis
      by (simp add: produceCorrelation_def Let_def word_less_nat_alt ids_def)
  next
    case False
    then have "Suc k mod 2 ^ 53 = ?m + 1" by (simp add: mod_Suc)
    with False m u max assms show ?thesis
      by (simp add: produceCorrelation_def Let_def word_less_nat_alt ids_def)
  qed
qed

lemma produced_ids:
  "assert_interface_map cb = {} \<Longrightarrow> produced cb (of_nat (k mod 2 ^ 53)) n = map ids [k..<k + n]"
proof (induction n arbitrary: k)
  case (Suc n)
  have "produced cb (of_nat (k mod 2 ^ 53)) (Suc n) = ids k # produced cb (ids k) n"
    by (simp only: produced.simps produce_ids [OF Suc.prems] option.case)
  also have "produced cb (ids k) n = map ids [Suc k..<Suc k + n]"
    using Suc.IH [OF Suc.prems, of "Suc k"] ids_def [of k] by simp
  finally show ?case by (simp add: upt_conv_Cons del: upt_Suc)
qed simp

section \<open>The interface the controllers rely on\<close>

locale id_supply =
  fixes nth_id :: "nat \<Rightarrow> correlation" and span :: nat
  assumes distinct_in_span: "i < j \<Longrightarrow> j - i < span \<Longrightarrow> nth_id i \<noteq> nth_id j"
begin

lemma fresh:
  assumes "\<And>c. c \<in> used \<Longrightarrow> \<exists>i < n. c = nth_id i" and "n < span"
  shows "nth_id n \<notin> used"
proof
  assume "nth_id n \<in> used"
  with assms(1) obtain i where "i < n" "nth_id n = nth_id i" by blast
  with distinct_in_span [of i n] assms(2) show False by (simp add: less_imp_diff_less)
qed

lemma inj_below: "n \<le> span \<Longrightarrow> inj_on nth_id {..<n}"
proof (rule linorder_inj_onI)
  fix i j assume "n \<le> span" "i < j" "j \<in> {..<n}"
  then show "nth_id i \<noteq> nth_id j" using distinct_in_span [of i j] by auto
qed auto

end

interpretation corr_ids: id_supply ids "2 ^ 53"
proof
  fix i j :: nat assume ij: "i < j" "j - i < 2 ^ 53"
  show "ids i \<noteq> ids j"
  proof
    assume "ids i = ids j"
    then have "Suc j mod 2 ^ 53 = Suc i mod 2 ^ 53" by (metis unat_ids)
    then have "(2 ^ 53 :: nat) dvd Suc j - Suc i"
      using ij(1) by (metis mod_eq_dvd_iff_nat less_imp_le_nat Suc_le_mono)
    with ij show False by (auto dest: dvd_imp_le)
  qed
qed

section \<open>The callback controller\<close>

record 'c callback =
  cb_ctx :: "'c option"
  cb_err :: "goerror option"

text \<open>
  A waiter holds the channel its request listens on.  Channels are named by numbers in the
  order of their creation; \<open>chan_buf\<close> is what was sent on each (its capacity is 1), \<open>timers\<close>
  the channels whose timeout is running.
\<close>

record cbWaiter =
  waiter_ch :: nat
  ignUnitClose :: bool

record 'c reqCallbackController =
  waiters :: "correlation \<Rightarrow> cbWaiter option"
  last_corr :: correlation
  next_chan :: nat
  chan_buf :: "nat \<Rightarrow> 'c callback list"
  chan_closed :: "nat set"
  timers :: "nat set"

definition createCallbackController :: "'c reqCallbackController" where
  "createCallbackController =
     \<lparr>waiters = Map.empty, last_corr = 0, next_chan = 0, chan_buf = (\<lambda>_. []),
      chan_closed = {}, timers = {}\<rparr>"

text \<open>Receiving from the producer blocks for ever once the producer has stopped.\<close>

definition prepare ::
    "'c reqCallbackController \<Rightarrow> bool \<Rightarrow> (correlation \<times> nat \<times> 'c reqCallbackController) exec" where
  "prepare rcm ign =
     (let ch = next_chan rcm in
      case produceCorrelation (WaiterMap (dom (waiters rcm))) (last_corr rcm) of
        None \<Rightarrow> Blocked
      | Some corr \<Rightarrow> Done (corr, ch, rcm\<lparr>
          next_chan := Suc ch,
          last_corr := corr,
          timers := insert ch (timers rcm),
          waiters := (waiters rcm)(corr \<mapsto> \<lparr>waiter_ch = ch, ignUnitClose = ign\<rparr>)\<rparr>))"

text \<open>\<open>cw.ch <- cb; close(cw.ch); cw.timer.Stop(); delete(rcm.m, corr)\<close>\<close>

definition complete ::
    "'c reqCallbackController \<Rightarrow> correlation \<Rightarrow> cbWaiter \<Rightarrow> 'c callback \<Rightarrow> 'c reqCallbackController exec" where
  "complete rcm corr cw cb =
     (let ch = waiter_ch cw in
      if ch \<in> chan_closed rcm then Crashed
      else if length (chan_buf rcm ch) \<ge> 1 then Blocked
      else Done (rcm\<lparr>
        chan_buf := (chan_buf rcm)(ch := chan_buf rcm ch @ [cb]),
        chan_closed := insert ch (chan_closed rcm),
        timers := timers rcm - {ch},
        waiters := (waiters rcm)(corr := None)\<rparr>))"

definition respond ::
    "'c reqCallbackController \<Rightarrow> correlation \<Rightarrow> 'c callback \<Rightarrow> 'c reqCallbackController exec" where
  "respond rcm corr cb =
     (case waiters rcm corr of
        None \<Rightarrow> Done rcm
      | Some cw \<Rightarrow> complete rcm corr cw cb)"

definition unit_closed :: "'c callback" where
  "unit_closed = \<lparr>cb_ctx = None, cb_err = Some (ErrorString ''Unit closed'')\<rparr>"

text \<open>
  The loop over the waiters, in the order the map iteration happens to have.  It leaves the
  loop at the first waiter that ignores the closing of the unit.
\<close>

fun onClose_loop ::
    "'c reqCallbackController \<Rightarrow> correlation list \<Rightarrow> 'c reqCallbackController exec" where
  "onClose_loop rcm [] = Done rcm"
| "onClose_loop rcm (corr # order) =
     (case waiters rcm corr of
        None \<Rightarrow> onClose_loop rcm order
      | Some cw \<Rightarrow>
          if ignUnitClose cw then Done rcm
          else (case complete rcm corr cw unit_closed of
                  Done rcm' \<Rightarrow> onClose_loop rcm' order
                | Blocked \<Rightarrow> Blocked
                | Crashed \<Rightarrow> Crashed))"

definition onClose ::
    "correlation list \<Rightarrow> 'c reqCallbackController \<Rightarrow> 'c reqCallbackController exec" where
  "onClose order rcm = onClose_loop rcm order"

definition timeout_error :: "string \<Rightarrow> 'c callback" where
  "timeout_error timeout = \<lparr>cb_ctx = None, cb_err = Some (ErrorString (''Request timeout: '' @ timeout))\<rparr>"

section \<open>The controller as a state machine\<close>

text \<open>
  Requests, responses, expiring timeouts (which respond with an error) and the closing of the
  unit, in any order.
\<close>

inductive cb_reach :: "'c reqCallbackController \<Rightarrow> bool" where
  cb_init: "cb_reach createCallbackController"
| cb_prepare: "cb_reach s \<Longrightarrow> prepare s ign = Done (corr, ch, t) \<Longrightarrow> cb_reach t"
| cb_respond: "cb_reach s \<Longrightarrow> respond s corr cb = Done t \<Longrightarrow> cb_reach t"
| cb_close: "cb_reach s \<Longrightarrow> enumerates order (dom (waiters s)) \<Longrightarrow> onClose order s = Done t \<Longrightarrow> cb_reach t"

definition pending :: "'c reqCallbackController \<Rightarrow> nat \<Rightarrow> bool" where
  "pending s ch \<longleftrightarrow> (\<exists>w. waiters s (ids ch) = Some w \<and> waiter_ch w = ch)"

definition untouched :: "'c reqCallbackController \<Rightarrow> nat \<Rightarrow> bool" where
  "untouched s ch \<longleftrightarrow> chan_buf s ch = [] \<and> ch \<notin> chan_closed s"

definition answered :: "'c reqCallbackController \<Rightarrow> nat \<Rightarrow> bool" where
  "answered s ch \<longleftrightarrow> length (chan_buf s ch) = 1 \<and> ch \<in> chan_closed s \<and> ch \<notin> timers s"

definition cb_inv :: "'c reqCallbackController \<Rightarrow> bool" where
  "cb_inv s \<longleftrightarrow>
     (\<forall>c w. waiters s c = Some w \<longrightarrow> waiter_ch w < next_chan s \<and> c = ids (waiter_ch w)) \<and>
     (\<forall>ch. pending s ch \<longrightarrow> untouched s ch \<and> ch \<in> timers s) \<and>
     (\<forall>ch < next_chan s. \<not> pending s ch \<longrightarrow> answered s ch) \<and>
     (\<forall>ch \<ge> next_chan s. untouched s ch) \<and>
     last_corr s = of_nat (next_chan s mod 2 ^ 53)"

lemma cb_invD:
  assumes "cb_inv s"
  shows "waiters s c = Some w \<Longrightarrow> waiter_ch w < next_chan s"
    and "waiters s c = Some w \<Longrightarrow> ids (waiter_ch w) = c"
    and "pending s ch \<Longrightarrow> untouched s ch"
    and "ch < next_chan s \<Longrightarrow> \<not> pending s ch \<Longrightarrow> answered s ch"
    and "last_corr s = of_nat (next_chan s mod 2 ^ 53)"
  using assms by (simp_all add: cb_inv_def)

lemma cb_inv_waiter:
  "cb_inv s \<Longrightarrow> waiters s c = Some w \<Longrightarrow> pending s (waiter_ch w) \<and> untouched s (waiter_ch w)"
  using cb_invD(2,3) by (metis pending_def)

lemma cb_inv_init: "cb_inv createCallbackController"
  by (simp add: cb_inv_def createCallbackController_def pending_def untouched_def)

lemma prepare_ids:
  assumes "cb_inv s"
  shows "prepare s ign = Done (ids (next_chan s), next_chan s, s\<lparr>
     next_chan := Suc (next_chan s),
     last_corr := ids (next_chan s),
     timers := insert (next_chan s) (timers s),
     waiters := (waiters s)(ids (next_chan s) \<mapsto> \<lparr>waiter_ch = next_chan s, ignUnitClose = ign\<rparr>)\<rparr>)"
  unfolding prepare_def Let_def cb_invD(5) [OF assms]
  by (subst produce_ids) simp_all

lemma prepare_fresh:
  assumes "cb_inv s" and "next_chan s < 2 ^ 53"
  shows "waiters s (ids (next_chan s)) = None"
proof -
  have "ids (next_chan s) \<notin> dom (waiters s)"
    using assms by (intro corr_ids.fresh) (auto dest: cb_invD(1,2) [OF assms(1)])
  then show ?thesis by blast
qed

lemma ids_eq_iff: "i < 2 ^ 53 \<Longrightarrow> j < 2 ^ 53 \<Longrightarrow> ids i = ids j \<longleftrightarrow> i = j"
  using corr_ids.inj_below [of "2 ^ 53"] by (auto dest: inj_onD)

lemma cb_inv_prepare:
  assumes inv: "cb_inv s" and n: "next_chan s < 2 ^ 53" and "prepare s ign = Done (corr, ch, t)"
  shows "cb_inv t"
proof -
  have t: "t = s\<lparr>next_chan := Suc (next_chan s), last_corr := ids (next_chan s),
     timers := insert (next_chan s) (timers s),
     waiters := (waiters s)(ids (next_chan s) \<mapsto> \<lparr>waiter_ch = next_chan s, ignUnitClose = ign\<rparr>)\<rparr>"
    using assms(3) by (auto simp: prepare_ids [OF inv])
  have old: "pending t ch \<longleftrightarrow> pending s ch" if "ch < next_chan s" for ch
    using that n ids_eq_iff [of ch "next_chan s"] by (simp add: pending_def t)
  have new: "pending t (next_chan s)" by (simp add: pending_def t)
  have none: "\<not> pending t ch" if "next_chan s < ch" for ch
    using that cb_invD(1) [OF inv] by (fastforce simp: pending_def t split: if_splits)
  have "pending t ch \<longrightarrow> untouched t ch \<and> ch \<in> timers t" for ch
    using old [of ch] none [of ch] inv
    by (cases ch "next_chan s" rule: linorder_cases) (auto simp: t cb_inv_def untouched_def)
  moreover have "ch < Suc (next_chan s) \<Longrightarrow> \<not> pending t ch \<Longrightarrow> answered t ch" for ch
    using old [of ch] new inv by (auto simp: t cb_inv_def answered_def less_Suc_eq)
  ultimately show ?thesis
    using inv by (auto simp: cb_inv_def t untouched_def ids_def less_Suc_eq split: if_splits)
qed

lemma complete_inv:
  assumes inv: "cb_inv s" and w: "waiters s corr = Some cw"
  shows "\<exists>t. complete s corr cw cb = Done t \<and> cb_inv t \<and>
    waiters t = (waiters s)(corr := None) \<and> next_chan t = next_chan s \<and>
    chan_buf t = (chan_buf s)(waiter_ch cw := [cb])"
proof -
  let ?ch = "waiter_ch cw"
  have open_ch: "chan_buf s ?ch = []" "?ch \<notin> chan_closed s"
    using cb_inv_waiter [OF inv w] by (simp_all add: untouched_def)
  have ch: "?ch < next_chan s" "ids ?ch = corr"
    using cb_invD(1,2) [OF inv w] by simp_all
  let ?t = "s\<lparr>chan_buf := (chan_buf s)(?ch := [cb]), chan_closed := insert ?ch (chan_closed s),
    timers := timers s - {?ch}, waiters := (waiters s)(corr := None)\<rparr>"
  have run: "complete s corr cw cb = Done ?t"
    using open_ch by (simp add: complete_def Let_def)
  have pend: "pending ?t ch \<longleftrightarrow> pending s ch \<and> ch \<noteq> ?ch" for ch
  proof (cases "ids ch = corr")
    case True
    with w show ?thesis by (auto simp: pending_def)
  next
    case False
    with ch(2) have "ch \<noteq> ?ch" by blast
    with False show ?thesis by (simp add: pending_def)
  qed
  have "cb_inv ?t"
    using inv ch(1) unfolding cb_inv_def pend
    by (auto simp: untouched_def answered_def split: if_splits)
  with run show ?thesis by auto
qed

lemma respond_inv:
  assumes "cb_inv s"
  shows "\<exists>t. respond s corr cb = Done t \<and> cb_inv t \<and> next_chan t = next_chan s"
proof (cases "waiters s corr")
  case (Some cw)
  from complete_inv [OF assms this, of cb] Some show ?thesis
    by (auto simp: respond_def)
qed (simp add: respond_def assms)

lemma onClose_inv:
  assumes "cb_inv s"
  shows "\<exists>t. onClose order s = Done t \<and> cb_inv t \<and> next_chan t = next_chan s"
  unfolding onClose_def using assms
proof (induction order arbitrary: s)
  case (Cons corr order)
  show ?case
  proof (cases "waiters s corr")
    case None
    with Cons show ?thesis by simp
  next
    case (Some cw)
    obtain t where "complete s corr cw unit_closed = Done t" "cb_inv t" "next_chan t = next_chan s"
      using complete_inv [OF Cons.prems Some] by blast
    with Cons.IH [of t] Cons.prems Some show ?thesis by simp
  qed
qed simp

text \<open>No operation but \<open>prepare\<close> creates a channel.\<close>

lemma complete_next: "complete s corr cw cb = Done t \<Longrightarrow> next_chan t = next_chan s"
  by (auto simp: complete_def Let_def split: if_splits)

lemma respond_next: "respond s corr cb = Done t \<Longrightarrow> next_chan t = next_chan s"
  by (auto simp: respond_def complete_next split: option.splits)

lemma onClose_next: "onClose order s = Done t \<Longrightarrow> next_chan t = next_chan s"
  unfolding onClose_def
proof (induction order arbitrary: s)
  case (Cons corr order)
  then show ?case
    by (auto dest!: complete_next split: option.splits if_splits exec.splits)
qed simp

lemma prepare_next: "prepare s ign = Done (corr, ch, t) \<Longrightarrow> next_chan t = Suc (next_chan s)"
  by (auto simp: prepare_def Let_def split: option.splits)

lemma cb_reach_inv: "cb_reach s \<Longrightarrow> next_chan s \<le> 2 ^ 53 \<Longrightarrow> cb_inv s"
proof (induction rule: cb_reach.induct)
  case cb_init
  show ?case by (rule cb_inv_init)
next
  case (cb_prepare s ign corr ch t)
  then have "next_chan s < 2 ^ 53" using prepare_next [of s ign corr ch t] by linarith
  with cb_prepare show ?case using cb_inv_prepare [of s ign corr ch t] by simp
next
  case (cb_respond s corr cb t)
  then have "cb_inv s" using respond_next by metis
  from respond_inv [OF this, of corr cb] cb_respond.hyps(2) show ?case by simp
next
  case (cb_close s order t)
  then have "cb_inv s" using onClose_next by metis
  from onClose_inv [OF this, of order] cb_close.hyps(3) show ?case by simp
qed

section \<open>Closing the unit\<close>

lemma pending_waiters: "waiters t = waiters s \<Longrightarrow> pending t ch = pending s ch"
  by (simp add: pending_def)

lemma onClose_loop_all:
  assumes "cb_inv s" and "\<forall>c w. waiters s c = Some w \<longrightarrow> \<not> ignUnitClose w"
  shows "\<exists>t. onClose_loop s order = Done t \<and> waiters t = waiters s |` (- set order) \<and>
    chan_buf t = (\<lambda>ch. if pending s ch \<and> ids ch \<in> set order then [unit_closed] else chan_buf s ch)"
  using assms
proof (induction order arbitrary: s)
  case Nil
  then show ?case by (simp add: restrict_map_def)
next
  case (Cons corr order)
  show ?case
  proof (cases "waiters s corr")
    case None
    then have "ids ch \<noteq> corr" if "pending s ch" for ch using that by (auto simp: pending_def)
    moreover have "waiters s |` (- set order) = waiters s |` (- set (corr # order))"
      using None by (auto simp: restrict_map_def fun_eq_iff)
    moreover have "onClose_loop s (corr # order) = onClose_loop s order" using None by simp
    ultimately show ?thesis using Cons.IH [OF Cons.prems] by (metis list.set_intros(2) set_ConsD)
  next
    case (Some cw)
    obtain s1 where s1: "complete s corr cw unit_closed = Done s1" "cb_inv s1"
      "waiters s1 = (waiters s)(corr := None)" "chan_buf s1 = (chan_buf s)(waiter_ch cw := [unit_closed])"
      using complete_inv [OF Cons.prems(1) Some] by blast
    have pend: "pending s1 ch \<longleftrightarrow> pending s ch \<and> ids ch \<noteq> corr" for ch
      using s1(3) by (auto simp: pending_def)
    have here: "pending s ch \<and> ids ch = corr \<longleftrightarrow> ch = waiter_ch cw" for ch
      using Some cb_invD(2) [OF Cons.prems(1) Some] cb_inv_waiter [OF Cons.prems(1) Some]
      by (metis option.inject pending_def)
    have "\<forall>c w. waiters s1 c = Some w \<longrightarrow> \<not> ignUnitClose w"
      using Cons.prems(2) by (simp add: s1(3))
    then obtain t where t: "onClose_loop s1 order = Done t" "waiters t = waiters s1 |` (- set order)"
      "chan_buf t = (\<lambda>ch. if pending s1 ch \<and> ids ch \<in> set order then [unit_closed] else chan_buf s1 ch)"
      using Cons.IH [OF s1(2)] by blast
    have "waiters t = waiters s |` (- set (corr # order))"
      by (auto simp: t(2) s1(3) restrict_map_def fun_eq_iff)
    moreover have "chan_buf t = (\<lambda>ch. if pending s ch \<and> ids ch \<in> set (corr # order)
        then [unit_closed] else chan_buf s ch)"
      using here by (auto simp: t(3) s1(4) pend fun_eq_iff)
    ultimately show ?thesis using Some Cons.prems(2) s1(1) t(1) by auto
  qed
qed

section \<open>Properties\<close>

text \<open>
  C4.  Every request is answered exactly once: as long as no more than \<open>2 ^ 53\<close> requests were
  made, each either waits with an empty channel or has received exactly one callback, under
  any interleaving of requests, responses, timeouts and closings.
\<close>

theorem each_request_answered_once:
  assumes "cb_reach s" and "next_chan s \<le> 2 ^ 53" and "ch < next_chan s"
  shows "(pending s ch \<and> chan_buf s ch = []) \<or> (\<not> pending s ch \<and> length (chan_buf s ch) = 1)"
  using cb_invD(3,4) [OF cb_reach_inv [OF assms(1,2)]] assms(3)
  by (cases "pending s ch") (auto simp: untouched_def answered_def)

definition one_request :: "unit reqCallbackController" where
  "one_request = (case prepare createCallbackController False of Done (_, _, s) \<Rightarrow> s)"

lemma one_request_reach:
  "cb_reach one_request" "next_chan one_request = 1"
  "waiters one_request = [1 \<mapsto> \<lparr>waiter_ch = 0, ignUnitClose = False\<rparr>]"
proof -
  have run: "prepare createCallbackController False = Done (1, 0, one_request)"
    by (simp add: one_request_def prepare_def Let_def produceCorrelation_def maxCorrelation_def
        createCallbackController_def)
  show "cb_reach one_request" by (rule cb_prepare [OF cb_init run])
  show "next_chan one_request = 1" "waiters one_request = [1 \<mapsto> \<lparr>waiter_ch = 0, ignUnitClose = False\<rparr>]"
    by (simp_all add: one_request_def prepare_def Let_def produceCorrelation_def maxCorrelation_def
        createCallbackController_def)
qed

theorem each_request_answered_once_witness:
  "(pending one_request 0 \<and> chan_buf one_request 0 = []) \<or>
   (\<not> pending one_request 0 \<and> length (chan_buf one_request 0) = 1)"
  by (rule each_request_answered_once) (simp_all add: one_request_reach)

text \<open>
  A response is delivered to the request with its correlation and to no other, without
  blocking or panicking, and a second response to the same correlation is ignored.
\<close>

theorem response_delivered:
  assumes "cb_reach s" and "next_chan s \<le> 2 ^ 53" and "waiters s corr = Some cw"
  shows "\<exists>t. respond s corr cb = Done t \<and> chan_buf t = (chan_buf s)(waiter_ch cw := [cb]) \<and>
    waiters t = (waiters s)(corr := None) \<and> respond t corr cb' = Done t"
  using complete_inv [OF cb_reach_inv [OF assms(1,2)] assms(3), of cb] assms(3)
  by (auto simp: respond_def)

theorem response_delivered_witness:
  "\<exists>t. respond one_request 1 (timeout_error ''1ns'') = Done t \<and>
    chan_buf t = (chan_buf one_request)(waiter_ch \<lparr>waiter_ch = 0, ignUnitClose = False\<rparr> := [timeout_error ''1ns'']) \<and>
    waiters t = (waiters one_request)(1 := None) \<and> respond t 1 unit_closed = Done t"
  by (rule response_delivered) (simp_all add: one_request_reach)

text \<open>
  C29.  If no waiting request asked to ignore it, closing the unit answers every waiting
  request with the error of a closed unit, in whatever order the map is iterated.
\<close>

theorem unit_close_answers_all:
  assumes "cb_reach s" and "next_chan s \<le> 2 ^ 53" and "enumerates order (dom (waiters s))"
    and "\<forall>c w. waiters s c = Some w \<longrightarrow> \<not> ignUnitClose w"
  shows "\<exists>t. onClose order s = Done t \<and> waiters t = Map.empty \<and>
    (\<forall>ch. pending s ch \<longrightarrow> chan_buf t ch = [unit_closed])"
proof -
  obtain t where "onClose_loop s order = Done t" "waiters t = waiters s |` (- dom (waiters s))"
    "chan_buf t = (\<lambda>ch. if pending s ch \<and> ids ch \<in> dom (waiters s) then [unit_closed] else chan_buf s ch)"
    using onClose_loop_all [OF cb_reach_inv [OF assms(1,2)] assms(4), of order] assms(3)
    by (auto simp: enumerates_def)
  then show ?thesis
    by (auto simp: onClose_def restrict_map_def fun_eq_iff pending_def domIff)
qed

theorem unit_close_answers_all_witness:
  "\<exists>t. onClose [1] one_request = Done t \<and> waiters t = Map.empty \<and>
    (\<forall>ch. pending one_request ch \<longrightarrow> chan_buf t ch = [unit_closed])"
  by (rule unit_close_answers_all) (auto simp: one_request_reach enumerates_def)

text \<open>
  One request that ignores the closing of its unit can keep all others waiting: there
  is an iteration order in which closing the unit answers nobody, since the loop is left
  instead of continued.
\<close>

theorem unit_close_may_answer_nobody:
  assumes "waiters s corr = Some cw" and "ignUnitClose cw" and "finite (dom (waiters s))"
  shows "\<exists>order. enumerates order (dom (waiters s)) \<and> onClose order s = Done s"
proof -
  obtain rest where rest: "set rest = dom (waiters s) - {corr}" "distinct rest"
    using finite_distinct_list [of "dom (waiters s) - {corr}"] assms(3) by auto
  then have "enumerates (corr # rest) (dom (waiters s))"
    using assms(1) by (auto simp: enumerates_def)
  moreover have "onClose (corr # rest) s = Done s"
    using assms(1,2) by (simp add: onClose_def)
  ultimately show ?thesis by blast
qed

definition ignoring_and_waiting :: "unit reqCallbackController" where
  "ignoring_and_waiting = createCallbackController\<lparr>
     waiters := [1 \<mapsto> \<lparr>waiter_ch = 0, ignUnitClose = True\<rparr>, 2 \<mapsto> \<lparr>waiter_ch = 1, ignUnitClose = False\<rparr>],
     next_chan := 2\<rparr>"

theorem unit_close_may_answer_nobody_witness:
  "\<exists>order. enumerates order (dom (waiters ignoring_and_waiting)) \<and>
    onClose order ignoring_and_waiting = Done ignoring_and_waiting"
  by (rule unit_close_may_answer_nobody [of _ 1 "\<lparr>waiter_ch = 0, ignUnitClose = True\<rparr>"])
     (simp_all add: ignoring_and_waiting_def)

text \<open>
  The producer hands out 1, 2, 3, ... modulo \<open>2 ^ 53\<close> whatever requests or streams are
  open: its check for numbers in use looks at the result of a failed type assertion.
\<close>

theorem correlations_ignore_open_requests:
  "produced (WaiterMap used) 0 n = map (\<lambda>k. of_nat (Suc k mod 2 ^ 53)) [0..<n] \<and>
   produced (StreamMap used) 0 n = map (\<lambda>k. of_nat (Suc k mod 2 ^ 53)) [0..<n]"
  using produced_ids [of "WaiterMap used" 0 n] produced_ids [of "StreamMap used" 0 n]
  by (simp add: ids_def [abs_def])

end
