(* ===== verification/StreamController.thy ===== *)
theory StreamController
  imports Callbacks
begin

text \<open>
  The stream controller of a unit (streamController.go).  A stream channel is shared by the
  controller's map and by the \<open>Readable\<close> or \<open>Writable\<close> that uses it, so channels live in a
  store and the map holds their addresses.
\<close>

section \<open>State\<close>

record streamChannel =
  buf :: bytes
  serr :: "goerror option"
  quota :: int

text \<open>
  Connections are pointers, \<open>None\<close> being nil: after a failed write a stream is bound to the
  nil connection.  \<open>connChans\<close> holds the set of channels bound to each connection.
\<close>

type_synonym conn = nat

record streamController =
  sc_map :: "correlation \<Rightarrow> nat option"
  sc_store :: "nat \<Rightarrow> streamChannel"
  sc_next :: nat
  sc_last :: correlation
  connChans :: "conn option \<Rightarrow> correlation set option"

definition new_channel :: streamChannel where
  "new_channel = \<lparr>buf = [], serr = None, quota = 0\<rparr>"

section \<open>Operations\<close>

definition createStreamController :: streamController where
  "createStreamController =
     \<lparr>sc_map = Map.empty, sc_store = (\<lambda>_. new_channel), sc_next = 0, sc_last = 0,
      connChans = Map.empty\<rparr>"

definition createStream :: "streamController \<Rightarrow> (correlation \<times> nat \<times> streamController) exec" where
  "createStream sm =
     (case produceCorrelation (StreamMap (dom (sc_map sm))) (sc_last sm) of
        None \<Rightarrow> Blocked
      | Some channel \<Rightarrow>
          let sc = sc_next sm in
          Done (channel, sc, sm\<lparr>
            sc_last := channel,
            sc_next := Suc sc,
            sc_store := (sc_store sm)(sc := new_channel),
            sc_map := (sc_map sm)(channel \<mapsto> sc)\<rparr>))"

definition delete_stream :: "streamController \<Rightarrow> correlation \<Rightarrow> streamController" where
  "delete_stream sm channel = sm\<lparr>sc_map := (sc_map sm)(channel := None)\<rparr>"

definition getStreamChannel :: "streamController \<Rightarrow> correlation \<Rightarrow> nat option" where
  "getStreamChannel sm channel = sc_map sm channel"

definition sc_setErr :: "goerror option \<Rightarrow> streamChannel \<Rightarrow> streamChannel" where
  "sc_setErr err sc = sc\<lparr>serr := err\<rparr>"

definition sc_getErr :: "streamChannel \<Rightarrow> goerror option" where
  "sc_getErr sc = serr sc"

definition setErr :: "streamController \<Rightarrow> correlation \<Rightarrow> goerror option \<Rightarrow> streamController" where
  "setErr sm channel err =
     (case sc_map sm channel of
        None \<Rightarrow> sm
      | Some sc \<Rightarrow> sm\<lparr>sc_store := (sc_store sm)(sc := sc_setErr err (sc_store sm sc))\<rparr>)"

definition bindConn :: "streamController \<Rightarrow> conn option \<Rightarrow> correlation \<Rightarrow> streamController" where
  "bindConn sm conn channel =
     (let sm1 = (case connChans sm conn of
                   None \<Rightarrow> sm\<lparr>connChans := (connChans sm)(conn \<mapsto> {})\<rparr>
                 | Some _ \<Rightarrow> sm);
          c = the (connChans sm1 conn)
      in sm1\<lparr>connChans := (connChans sm1)(conn \<mapsto> insert channel c)\<rparr>)"

definition unbindConn :: "streamController \<Rightarrow> conn option \<Rightarrow> correlation \<Rightarrow> streamController" where
  "unbindConn sm conn channel =
     (case connChans sm conn of
        None \<Rightarrow> sm
      | Some c \<Rightarrow> sm\<lparr>connChans := (connChans sm)(conn \<mapsto> c - {channel})\<rparr>)"

text \<open>
  \<open>errors.Wrap\<close> of the package pkg/errors is the parameter \<open>wrap\<close>; it maps nil to nil.  The
  order in which \<open>Range\<close> visits the channels of the connection is a parameter too.
\<close>

definition wrap_err :: "(goerror \<Rightarrow> string \<Rightarrow> goerror) \<Rightarrow> goerror option \<Rightarrow> string \<Rightarrow> goerror option" where
  "wrap_err wrap err msg = map_option (\<lambda>e. wrap e msg) err"

definition onConnClosed ::
    "(goerror \<Rightarrow> string \<Rightarrow> goerror) \<Rightarrow> correlation list \<Rightarrow> streamController \<Rightarrow> conn option
     \<Rightarrow> goerror option \<Rightarrow> streamController" where
  "onConnClosed wrap order sm conn err =
     (case connChans sm conn of
        None \<Rightarrow> sm
      | Some m \<Rightarrow>
          foldl (\<lambda>sm c. setErr sm c
              (wrap_err wrap err ''underlying connection closed due to error previously occured''))
            (sm\<lparr>connChans := (connChans sm)(conn := None)\<rparr>) order)"

section \<open>Lemmas\<close>

lemma setErr_frame [simp]:
  "sc_map (setErr sm c e) = sc_map sm" "sc_next (setErr sm c e) = sc_next sm"
  "connChans (setErr sm c e) = connChans sm" "sc_last (setErr sm c e) = sc_last sm"
  by (simp_all add: setErr_def split: option.splits)

lemma setErr_store:
  "sc_store (setErr sm c e) a =
    (if sc_map sm c = Some a then sc_setErr e (sc_store sm a) else sc_store sm a)"
  by (auto simp: setErr_def split: option.splits)

lemma foldl_setErr:
  "sc_map (foldl (\<lambda>sm c. setErr sm c e) sm cs) = sc_map sm \<and>
   connChans (foldl (\<lambda>sm c. setErr sm c e) sm cs) = connChans sm \<and>
   sc_store (foldl (\<lambda>sm c. setErr sm c e) sm cs) a =
     (if \<exists>c \<in> set cs. sc_map sm c = Some a then sc_setErr e (sc_store sm a) else sc_store sm a)"
  by (induction cs arbitrary: sm) (auto simp: setErr_store sc_setErr_def)

lemma bindConn_connChans:
  "connChans (bindConn sm conn ch) = (connChans sm)(conn \<mapsto>
     insert ch (case connChans sm conn of None \<Rightarrow> {} | Some c \<Rightarrow> c))"
  by (auto simp: bindConn_def Let_def split: option.splits)

lemma bindConn_frame [simp]:
  "sc_map (bindConn sm conn ch) = sc_map sm" "sc_store (bindConn sm conn ch) = sc_store sm"
  "sc_next (bindConn sm conn ch) = sc_next sm" "sc_last (bindConn sm conn ch) = sc_last sm"
  by (simp_all add: bindConn_def Let_def split: option.splits)

section \<open>Reachable controllers\<close>

inductive sc_reach :: "streamController \<Rightarrow> bool" where
  sc_init: "sc_reach createStreamController"
| sc_create: "sc_reach s \<Longrightarrow> createStream s = Done (channel, a, t) \<Longrightarrow> sc_reach t"
| sc_delete: "sc_reach s \<Longrightarrow> sc_reach (delete_stream s channel)"
| sc_bind: "sc_reach s \<Longrightarrow> sc_reach (bindConn s conn channel)"
| sc_closed: "sc_reach s \<Longrightarrow> sc_reach (onConnClosed wrap order s conn err)"
| sc_update: "sc_reach s \<Longrightarrow> sc_reach (s\<lparr>sc_store := (sc_store s)(a := f (sc_store s a))\<rparr>)"

definition sc_inv :: "streamController \<Rightarrow> bool" where
  "sc_inv s \<longleftrightarrow> (\<forall>c a. sc_map s c = Some a \<longrightarrow> a < sc_next s \<and> c = ids a) \<and>
     sc_last s = of_nat (sc_next s mod 2 ^ 53)"

lemma createStream_ids:
  assumes "sc_inv s"
  shows "createStream s = Done (ids (sc_next s), sc_next s, s\<lparr>
    sc_last := ids (sc_next s), sc_next := Suc (sc_next s),
    sc_store := (sc_store s)(sc_next s := new_channel),
    sc_map := (sc_map s)(ids (sc_next s) \<mapsto> sc_next s)\<rparr>)"
proof -
  have "sc_last s = of_nat (sc_next s mod 2 ^ 53)" using assms by (simp add: sc_inv_def)
  then show ?thesis
    by (simp only: createStream_def) (subst produce_ids, simp_all add: Let_def)
qed

lemma foldl_setErr_next:
  "sc_next (foldl (\<lambda>sm c. setErr sm c e) sm cs) = sc_next sm \<and>
   sc_last (foldl (\<lambda>sm c. setErr sm c e) sm cs) = sc_last sm"
  by (induction cs arbitrary: sm) simp_all

lemma onConnClosed_frame [simp]:
  "sc_map (onConnClosed wrap order sm conn err) = sc_map sm"
  "sc_next (onConnClosed wrap order sm conn err) = sc_next sm"
  "sc_last (onConnClosed wrap order sm conn err) = sc_last sm"
  by (simp_all add: onConnClosed_def foldl_setErr foldl_setErr_next split: option.split)

lemma sc_reach_inv: "sc_reach s \<Longrightarrow> sc_inv s"
proof (induction rule: sc_reach.induct)
  case (sc_create s channel a t)
  then have "t = s\<lparr>sc_last := ids (sc_next s), sc_next := Suc (sc_next s),
    sc_store := (sc_store s)(sc_next s := new_channel),
    sc_map := (sc_map s)(ids (sc_next s) \<mapsto> sc_next s)\<rparr>"
    by (auto simp: createStream_ids)
  with sc_create.IH show ?case
    by (auto simp: sc_inv_def ids_def less_Suc_eq)
qed (auto simp: sc_inv_def createStreamController_def delete_stream_def)

section \<open>Properties\<close>

text \<open>
  C17.  While no more than \<open>2 ^ 53\<close> streams were opened on a unit, a new stream gets a number
  no open stream has and an empty channel of its own; all open streams keep theirs.
\<close>

theorem new_stream_is_fresh:
  assumes "sc_reach s" and "sc_next s < 2 ^ 53"
  shows "\<exists>channel a t. createStream s = Done (channel, a, t) \<and> corr_ok channel \<and>
    getStreamChannel s channel = None \<and> getStreamChannel t channel = Some a \<and>
    sc_store t a = new_channel \<and>
    (\<forall>c b. getStreamChannel s c = Some b \<longrightarrow>
      b \<noteq> a \<and> getStreamChannel t c = Some b \<and> sc_store t b = sc_store s b)"
proof -
  have inv: "sc_inv s" using assms(1) by (rule sc_reach_inv)
  have "ids (sc_next s) \<notin> dom (sc_map s)"
    using inv assms(2) by (intro corr_ids.fresh) (auto simp: sc_inv_def)
  then have "sc_map s (ids (sc_next s)) = None" by blast
  moreover have "b < sc_next s" if "sc_map s c = Some b" for c b
    using that inv by (auto simp: sc_inv_def)
  ultimately show ?thesis
    by (auto simp: createStream_ids [OF inv] getStreamChannel_def corr_ok_ids)
qed

theorem new_stream_is_fresh_witness:
  "\<exists>channel a t. createStream createStreamController = Done (channel, a, t) \<and> corr_ok channel \<and>
    getStreamChannel createStreamController channel = None \<and> getStreamChannel t channel = Some a \<and>
    sc_store t a = new_channel \<and>
    (\<forall>c b. getStreamChannel createStreamController c = Some b \<longrightarrow>
      b \<noteq> a \<and> getStreamChannel t c = Some b \<and> sc_store t b = sc_store createStreamController b)"
  by (rule new_stream_is_fresh [OF sc_init]) (simp add: createStreamController_def)

text \<open>
  C24.  When a connection closes, every stream bound to it gets the wrapped error, no other
  stream changes, and the connection is forgotten, whatever the order of iteration.
\<close>

theorem conn_close_fails_its_streams:
  assumes "connChans s conn = Some bound" and "enumerates order bound"
  shows "connChans (onConnClosed wrap order s conn err) = (connChans s)(conn := None) \<and>
    (\<forall>a. sc_store (onConnClosed wrap order s conn err) a =
      (if \<exists>c \<in> bound. getStreamChannel s c = Some a
       then (sc_store s a)\<lparr>serr := wrap_err wrap err
         ''underlying connection closed due to error previously occured''\<rparr>
       else sc_store s a))"
  using assms by (simp add: onConnClosed_def foldl_setErr enumerates_def sc_setErr_def getStreamChannel_def)

definition two_streams :: streamController where
  "two_streams = createStreamController\<lparr>
     sc_map := [1 \<mapsto> 0, 2 \<mapsto> 1], sc_next := 2, connChans := [Some 7 \<mapsto> {1, 2}, None \<mapsto> {3}]\<rparr>"

theorem conn_close_fails_its_streams_witness:
  "connChans (onConnClosed (\<lambda>e _. e) [2, 1] two_streams (Some 7) (Some (ErrorString ''eof'')))
     = (connChans two_streams)(Some 7 := None) \<and>
   (\<forall>a. sc_store (onConnClosed (\<lambda>e _. e) [2, 1] two_streams (Some 7) (Some (ErrorString ''eof''))) a =
      (if \<exists>c \<in> {1, 2}. getStreamChannel two_streams c = Some a
       then (sc_store two_streams a)\<lparr>serr := wrap_err (\<lambda>e _. e) (Some (ErrorString ''eof''))
         ''underlying connection closed due to error previously occured''\<rparr>
       else sc_store two_streams a))"
  by (rule conn_close_fails_its_streams) (auto simp: two_streams_def enumerates_def)

end
