(* ===== verification/Streams.thy ===== *)
theory Streams
  imports StreamController
begin

text \<open>
  Binary streams: the frames of stream data, their handling by the goroutine that reads a
  connection (unit_internal.go), and the two ends \<open>Readable\<close> and \<open>Writable\<close>
  (Contexts.go) with their quota.  The critical sections of a channel's mutex are atomic
  steps; blocking on the signal is a result of the operation.
\<close>

section \<open>Frames\<close>

definition createStreamPrefix :: "(nat \<Rightarrow> u64) \<Rightarrow> correlation \<Rightarrow> byte \<Rightarrow> bytes option" where
  "createStreamPrefix cvt channel streamByte =
     do { chanBytes \<leftarrow> serializeCorrelation cvt channel;
          let chanLen = length chanBytes;
          let pref = [typeStreamData, of_nat chanLen];
          let pref = pref @ chanBytes;
          Some (pref @ [streamByte]) }"

text \<open>
  Reading the header of a stream frame after its type byte.  A channel of more than seven
  bytes or of none indexes the table of preallocated slices out of range; a frame that ends
  early panics too.  The rest of the reader is the payload.
\<close>

definition readStreamHeader :: "(nat \<Rightarrow> u64) \<Rightarrow> bytes \<Rightarrow> (correlation \<times> byte \<times> bytes) option" where
  "readStreamHeader cvt reader =
     (case reader of
        [] \<Rightarrow> None
      | l # reader1 \<Rightarrow>
          let chanLen = unat l in
          if chanLen = 0 \<or> chanLen > 7 then None
          else let pas = take chanLen reader1 in
          if length pas \<noteq> chanLen then None
          else case drop chanLen reader1 of
              [] \<Rightarrow> None
            | strFlag # payload \<Rightarrow> Some (sliceToCorrelation cvt pas, strFlag, payload))"

definition io_EOF :: goerror where
  "io_EOF = ErrorString ''EOF''"

text \<open>The four kinds of stream frame; other flags are skipped.\<close>

definition applyStreamFrame :: "(nat \<Rightarrow> int) \<Rightarrow> byte \<Rightarrow> bytes \<Rightarrow> streamChannel \<Rightarrow> streamChannel" where
  "applyStreamFrame cvti strFlag payload sc =
     (if strFlag = streamByteChunk then sc\<lparr>buf := buf sc @ payload\<rparr>
      else if strFlag = streamByteFinish then sc\<lparr>serr := Some io_EOF\<rparr>
      else if strFlag = streamByteError then sc\<lparr>serr := Some (ErrorString (string_of payload))\<rparr>
      else if strFlag = streamByteQuota then sc\<lparr>quota := wrap_int (quota sc + sliceToInt cvti payload)\<rparr>
      else sc)"

text \<open>
  One turn of the loop of \<open>readConnMessages\<close> on a stream frame.  \<open>ConnDies\<close> is the panic that
  ends the loop and deletes the connection, after a close frame with a code if one is sent.
\<close>

datatype conn_turn = Continue streamController | ConnDies "nat option"

definition readStreamFrame ::
    "(nat \<Rightarrow> u64) \<Rightarrow> (nat \<Rightarrow> int) \<Rightarrow> streamController \<Rightarrow> bytes \<Rightarrow> conn_turn" where
  "readStreamFrame cvt cvti sm reader =
     (case readStreamHeader cvt reader of
        None \<Rightarrow> ConnDies None
      | Some (channel, strFlag, payload) \<Rightarrow>
          (case getStreamChannel sm channel of
             None \<Rightarrow> ConnDies (Some errWrongMessageType)
           | Some a \<Rightarrow> Continue (sm\<lparr>sc_store :=
               (sc_store sm)(a := applyStreamFrame cvti strFlag payload (sc_store sm a))\<rparr>)))"

section \<open>The readable end\<close>

record readable =
  rd_conn :: "conn option"
  rd_c :: correlation
  rd_pref :: bytes
  rd_quotaRem :: int
  rd_quotaSize :: int

definition addRemQuota :: "readable \<Rightarrow> int \<Rightarrow> int \<times> readable" where
  "addRemQuota r n =
     (let q = wrap_int (rd_quotaRem r + n) in (q, r\<lparr>rd_quotaRem := q\<rparr>))"

definition getRemQuota :: "readable \<Rightarrow> int" where
  "getRemQuota r = rd_quotaRem r"

text \<open>\<open>bytes.Buffer.Read\<close> into a slice of length \<open>n\<close>: the bytes read, the rest, end of file.\<close>

definition bufRead :: "bytes \<Rightarrow> nat \<Rightarrow> bytes \<times> bytes \<times> bool" where
  "bufRead b n = (if b = [] then ([], [], n \<noteq> 0) else (take n b, drop n b, False))"

text \<open>
  \<open>Read(p)\<close> up to its return or to the receive on the signal, after which it starts again.
  With data, it may start a goroutine that grants a quota; the third component is that grant.
\<close>

datatype read_result = ReadReturns bytes "goerror option" | ReadWaits

definition Read ::
    "nat \<Rightarrow> streamChannel \<Rightarrow> readable \<Rightarrow> read_result \<times> streamChannel \<times> readable \<times> int option" where
  "Read n sc r =
     (case bufRead (buf sc) n of (got, rest, eof) \<Rightarrow>
      let sc1 = sc\<lparr>buf := rest\<rparr>; scErr = serr sc in
      if length got \<noteq> 0 then
        (case addRemQuota r (- int (length got)) of (q, r1) \<Rightarrow>
           (ReadReturns got None, sc1, r1,
            if below_threshold q (rd_quotaSize r1) then Some (wrap_int (rd_quotaSize r1 - q)) else None))
      else if scErr \<noteq> None then (ReadReturns [] scErr, sc1, r, None)
      else if \<not> eof then (ReadReturns [] None, sc1, r, None)
      else (ReadWaits, sc1, r, None))"

definition Readable_Read ::
    "nat \<Rightarrow> streamController \<Rightarrow> readable \<Rightarrow> read_result \<times> streamController \<times> readable \<times> int option" where
  "Readable_Read n sm r =
     (case getStreamChannel sm (rd_c r) of
        None \<Rightarrow> (ReadReturns [] (Some (ErrorString ''Stream closed'')), sm, r, None)
      | Some a \<Rightarrow> (case Read n (sc_store sm a) r of (res, sc1, r1, grant) \<Rightarrow>
          (res, sm\<lparr>sc_store := (sc_store sm)(a := sc1)\<rparr>, r1, grant)))"

text \<open>The goroutine that grants \<open>q\<close> bytes: the counter first, then one frame on the connection.\<close>

definition addQuota :: "(nat \<Rightarrow> int) \<Rightarrow> readable \<Rightarrow> int \<Rightarrow> (bytes \<times> readable) option" where
  "addQuota cvti r q =
     (case addRemQuota r q of (_, r1) \<Rightarrow>
        do { quotaSlice \<leftarrow> serializeInt cvti q;
             Some (rd_pref r1 @ quotaSlice, r1) })"

text \<open>
  \<open>append(r.pref[0:len(r.pref)-1], streamByteError)\<close> has room in the array of \<open>pref\<close>, so it
  overwrites the last byte of \<open>pref\<close> in place.
\<close>

definition Readable_Destroy :: "readable \<Rightarrow> string \<Rightarrow> bytes \<times> readable" where
  "Readable_Destroy r err =
     (let pref = butlast (rd_pref r) @ [streamByteError]
      in (pref @ bytes_of err, r\<lparr>rd_pref := pref\<rparr>))"

section \<open>The writable end\<close>

record writable =
  wr_conn :: "conn option"
  wr_pref :: bytes
  wr_channel :: nat
  wr_quotaRem :: int

text \<open>
  \<open>Write(p)\<close> up to its return or to the receive on the signal, after which it starts again.
  Both ends of the signal are only used without waiting at the \<open>select\<close>, so that one never
  receives.  \<open>net\<close> is the error of writing to the connection.
\<close>

datatype write_result = WriteReturns nat "goerror option" | WriteWaits

definition Write ::
    "goerror option \<Rightarrow> bytes \<Rightarrow> streamChannel \<Rightarrow> writable \<Rightarrow> write_result \<times> bytes option \<times> writable" where
  "Write net p sc w =
     (case sc_getErr sc of
        Some err \<Rightarrow> (WriteReturns 0 (Some err), None, w)
      | None \<Rightarrow>
          let w1 = w\<lparr>wr_quotaRem := wrap_int (wr_quotaRem w + quota sc)\<rparr> in
          if wr_quotaRem w1 \<le> 0 then (WriteWaits, None, w1)
          else case net of
              Some err \<Rightarrow> (WriteReturns 0 (Some err), None, w1)
            | None \<Rightarrow>
                let n = length p in
                (WriteReturns n None, Some (wr_pref w1 @ p),
                 w1\<lparr>wr_quotaRem := wrap_int (wr_quotaRem w1 - int n)\<rparr>))"

definition Writable_Close :: "writable \<Rightarrow> bytes \<times> writable" where
  "Writable_Close w =
     (let pref = butlast (wr_pref w) @ [streamByteFinish] in (pref, w\<lparr>wr_pref := pref\<rparr>))"

definition Writable_Destroy :: "writable \<Rightarrow> string \<Rightarrow> bytes \<times> writable" where
  "Writable_Destroy w err =
     (let pref = butlast (wr_pref w) @ [streamByteError]
      in (pref @ bytes_of err, w\<lparr>wr_pref := pref\<rparr>))"

section \<open>Frames reach their channel\<close>

lemma header_roundtrip:
  assumes "corr_ok channel"
  shows "\<exists>pref. createStreamPrefix cvt channel strFlag = Some (typeStreamData # pref) \<and>
    (\<forall>payload. readStreamHeader cvt' (pref @ payload) = Some (channel, strFlag, payload))"
proof -
  let ?c = "be_bytes (unat channel)"
  have "length ?c \<noteq> 0" using be_bytes_nonempty [of "unat channel"] by simp
  then show ?thesis
    using assms corr_ok_len [OF assms] corr_ok_unat_len [OF assms]
    by (simp add: createStreamPrefix_def readStreamHeader_def corr_ok_enc corr_ok_dec Let_def)
qed

text \<open>Which frames wake a reader or writer that waits on the signal.\<close>

definition signals :: "byte \<Rightarrow> bool" where
  "signals strFlag \<longleftrightarrow>
     strFlag \<in> {streamByteChunk, streamByteFinish, streamByteError, streamByteQuota}"

section \<open>A reading session, interleaved with the connection\<close>

text \<open>
  The reader either is about to read, has found the buffer empty and released the mutex but
  does not listen on the signal yet, or listens.  Sending a signal to a reader that does not
  listen has no effect.  Grants run in goroutines of their own.
\<close>

datatype reader_pc = Ready | Parking | Parked

datatype label = LRead | LPark | LGrant | LFrame byte bytes | LError goerror

record session =
  se_sc :: streamChannel
  se_rd :: readable
  se_pc :: reader_pc
  se_got :: bytes
  se_fed :: bytes
  se_grants :: "int list"
  se_granted :: int

definition new_readable :: "conn option \<Rightarrow> correlation \<Rightarrow> bytes \<Rightarrow> readable" where
  "new_readable conn channel pref =
     \<lparr>rd_conn = conn, rd_c = channel, rd_pref = pref,
      rd_quotaRem = defQuotaSizeBytes, rd_quotaSize = defQuotaSizeBytes\<rparr>"

definition new_session :: "readable \<Rightarrow> session" where
  "new_session r = \<lparr>se_sc = new_channel, se_rd = r, se_pc = Ready, se_got = [], se_fed = [],
     se_grants = [], se_granted = 0\<rparr>"

definition wake :: "reader_pc \<Rightarrow> reader_pc" where
  "wake pc = (if pc = Parked then Ready else pc)"

inductive sess_step :: "session \<Rightarrow> label \<Rightarrow> session \<Rightarrow> bool" where
  ss_return: "se_pc s = Ready \<Longrightarrow> 0 < n \<Longrightarrow>
    Read n (se_sc s) (se_rd s) = (ReadReturns got e, sc, r, g) \<Longrightarrow>
    sess_step s LRead (s\<lparr>se_sc := sc, se_rd := r, se_got := se_got s @ got,
      se_grants := se_grants s @ (case g of None \<Rightarrow> [] | Some q \<Rightarrow> [q])\<rparr>)"
| ss_empty: "se_pc s = Ready \<Longrightarrow> 0 < n \<Longrightarrow>
    Read n (se_sc s) (se_rd s) = (ReadWaits, sc, r, g) \<Longrightarrow>
    sess_step s LRead (s\<lparr>se_sc := sc, se_rd := r, se_pc := Parking\<rparr>)"
| ss_park: "se_pc s = Parking \<Longrightarrow> sess_step s LPark (s\<lparr>se_pc := Parked\<rparr>)"
| ss_frame: "sess_step s (LFrame strFlag payload)
    (s\<lparr>se_sc := applyStreamFrame cvti strFlag payload (se_sc s),
       se_fed := se_fed s @ (if strFlag = streamByteChunk then payload else []),
       se_pc := (if signals strFlag then wake (se_pc s) else se_pc s)\<rparr>)"
| ss_error: "sess_step s (LError e)
    (s\<lparr>se_sc := sc_setErr (Some e) (se_sc s), se_pc := wake (se_pc s)\<rparr>)"
| ss_grant: "se_grants s = xs @ q # ys \<Longrightarrow> addQuota cvti (se_rd s) q = Some (frame, r) \<Longrightarrow>
    sess_step s LGrant (s\<lparr>se_rd := r, se_grants := xs @ ys, se_granted := se_granted s + q\<rparr>)"

inductive sess_reach :: "session \<Rightarrow> session \<Rightarrow> bool" for s0 where
  sess_start: "sess_reach s0 s0"
| sess_next: "sess_reach s0 s \<Longrightarrow> sess_step s l t \<Longrightarrow> sess_reach s0 t"

inductive_cases parked_readE: "sess_step s LRead t"
inductive_cases parked_parkE: "sess_step s LPark t"

lemma Read_returns:
  assumes "Read n sc r = (ReadReturns got e, sc', r', g)"
  shows "got @ buf sc' = buf sc"
    and "rd_quotaRem r' = (if got = [] then rd_quotaRem r else wrap_int (rd_quotaRem r - int (length got)))"
    and "e \<noteq> None \<Longrightarrow> 0 < n \<Longrightarrow> got = [] \<and> buf sc = []"
  using assms
  by (auto simp: Read_def bufRead_def addRemQuota_def Let_def split: if_splits)

lemma Read_waits:
  assumes "Read n sc r = (ReadWaits, sc', r', g)"
  shows "buf sc = [] \<and> sc' = sc \<and> r' = r"
  using assms by (auto simp: Read_def bufRead_def addRemQuota_def Let_def split: if_splits)

lemma addQuota_rem:
  "addQuota cvti r q = Some (frame, r') \<Longrightarrow> rd_quotaRem r' = wrap_int (rd_quotaRem r + q)"
  by (auto simp: addQuota_def addRemQuota_def Let_def bind_eq_Some_conv)

text \<open>Nothing is lost, repeated or reordered; and the quota counter accounts for every byte.\<close>

definition sess_inv :: "session \<Rightarrow> bool" where
  "sess_inv s \<longleftrightarrow> se_got s @ buf (se_sc s) = se_fed s \<and>
     rd_quotaRem (se_rd s) = wrap_int (defQuotaSizeBytes - int (length (se_got s)) + se_granted s)"

lemma sess_step_inv: "sess_step s l t \<Longrightarrow> sess_inv s \<Longrightarrow> sess_inv t"
proof (induction rule: sess_step.induct)
  case (ss_return s n got e sc r g)
  have "rd_quotaRem r = wrap_int (rd_quotaRem (se_rd s) - int (length got))"
    using Read_returns(2) [OF ss_return(3)] ss_return(4)
    by (auto simp: sess_inv_def)
  then show ?case
    using Read_returns(1) [OF ss_return(3)] ss_return(4)
      wrap_int_wrap [of "defQuotaSizeBytes - int (length (se_got s)) + se_granted s" "- int (length got)"]
    by (simp add: sess_inv_def algebra_simps)
next
  case (ss_empty s n sc r g)
  then show ?case using Read_waits [OF ss_empty(3)] by (simp add: sess_inv_def)
next
  case (ss_frame s strFlag payload cvti)
  then show ?case by (auto simp: sess_inv_def applyStreamFrame_def)
next
  case (ss_grant s xs q ys cvti frame r)
  then show ?case
    using wrap_int_wrap [of "defQuotaSizeBytes - int (length (se_got s)) + se_granted s" q]
    by (simp add: sess_inv_def addQuota_rem add.assoc)
qed (simp_all add: sess_inv_def sc_setErr_def)

lemma sess_reach_inv: "sess_reach s0 s \<Longrightarrow> sess_inv s0 \<Longrightarrow> sess_inv s"
  by (induction rule: sess_reach.induct) (auto intro: sess_step_inv)

lemma new_session_inv: "sess_inv (new_session (new_readable conn channel pref))"
  by (simp add: sess_inv_def new_session_def new_readable_def new_channel_def wrap_int_nonneg
      defQuotaSizeBytes_def)

section \<open>Concrete runs\<close>

definition session0 :: session where
  "session0 = new_session (new_readable (Some 0) 1 [106, 1, 1, 3])"

text \<open>A read that finds data, a read that does not, and the grant of a quota, as run steps.\<close>

lemma run_read:
  assumes "sess_reach s0 s" and "se_pc s = Ready" and "0 < n"
    and "Read n (se_sc s) (se_rd s) = (ReadReturns got e, sc, r, g)"
  shows "sess_reach s0 (s\<lparr>se_sc := sc, se_rd := r, se_got := se_got s @ got,
      se_grants := se_grants s @ (case g of None \<Rightarrow> [] | Some q \<Rightarrow> [q])\<rparr>)"
  using assms by (blast intro: sess_next ss_return)

lemma run_frame:
  assumes "sess_reach s0 s"
  shows "sess_reach s0 (s\<lparr>se_sc := applyStreamFrame cvti strFlag payload (se_sc s),
       se_fed := se_fed s @ (if strFlag = streamByteChunk then payload else []),
       se_pc := (if signals strFlag then wake (se_pc s) else se_pc s)\<rparr>)"
  using assms by (blast intro: sess_next ss_frame)

lemma Read_empty: "buf sc = [] \<Longrightarrow> serr sc = None \<Longrightarrow> 0 < n \<Longrightarrow> Read n sc r = (ReadWaits, sc, r, None)"
  by (simp add: Read_def bufRead_def Let_def)

lemma Read_data:
  "buf sc \<noteq> [] \<Longrightarrow> 0 < n \<Longrightarrow> q = wrap_int (rd_quotaRem r - int (length (take n (buf sc)))) \<Longrightarrow>
   Read n sc r = (ReadReturns (take n (buf sc)) None, sc\<lparr>buf := drop n (buf sc)\<rparr>, r\<lparr>rd_quotaRem := q\<rparr>,
     if below_threshold q (rd_quotaSize r) then Some (wrap_int (rd_quotaSize r - q)) else None)"
  by (auto simp: Read_def bufRead_def Let_def addRemQuota_def)

lemma addQuota_small:
  assumes "0 \<le> q" and "nat q \<le> maxCorrelation"
  shows "addQuota cvti r q =
    Some (rd_pref r @ be_bytes (nat q), r\<lparr>rd_quotaRem := wrap_int (rd_quotaRem r + q)\<rparr>)"
  using assms by (simp add: addQuota_def addRemQuota_def Let_def serializeInt_spec)

lemma run_grant:
  assumes "sess_reach s0 s" and "se_grants s = xs @ q # ys" and "0 \<le> q" and "nat q \<le> maxCorrelation"
  shows "sess_reach s0 (s\<lparr>se_rd := (se_rd s)\<lparr>rd_quotaRem := wrap_int (rd_quotaRem (se_rd s) + q)\<rparr>,
      se_grants := xs @ ys, se_granted := se_granted s + q\<rparr>)"
  by (rule sess_next [OF assms(1)], rule ss_grant, rule assms(2), rule addQuota_small) (rule assms(3,4))+

section \<open>Properties of the frames\<close>

text \<open>
  C18.  A frame built by either end for an open channel is applied to exactly that channel:
  chunks are appended to its buffer, a finish or an error sets its error, a quota is added.
\<close>

theorem stream_frames_delivered:
  assumes "corr_ok channel" and "getStreamChannel sm channel = Some a"
  shows "\<exists>pref. createStreamPrefix cvt channel strFlag = Some (typeStreamData # pref) \<and>
    (\<forall>payload. readStreamFrame cvt' cvti sm (pref @ payload) = Continue (sm\<lparr>sc_store :=
      (sc_store sm)(a := applyStreamFrame cvti strFlag payload (sc_store sm a))\<rparr>))"
proof -
  obtain pref where "createStreamPrefix cvt channel strFlag = Some (typeStreamData # pref)"
    and "\<forall>payload. readStreamHeader cvt' (pref @ payload) = Some (channel, strFlag, payload)"
    using header_roundtrip [OF assms(1), of cvt strFlag cvt'] by blast
  then show ?thesis
    using assms(2) by (simp add: readStreamFrame_def)
qed

theorem stream_frames_delivered_witness:
  "\<exists>pref. createStreamPrefix (\<lambda>_. 0) 2 streamByteChunk = Some (typeStreamData # pref) \<and>
    (\<forall>payload. readStreamFrame (\<lambda>_. 0) (\<lambda>_. 0) two_streams (pref @ payload) = Continue (two_streams\<lparr>sc_store :=
      (sc_store two_streams)(1 := applyStreamFrame (\<lambda>_. 0) streamByteChunk payload (sc_store two_streams 1))\<rparr>))"
  by (rule stream_frames_delivered)
     (simp_all add: corr_ok_def maxCorrelation_def getStreamChannel_def two_streams_def)

section \<open>Properties of the readable end\<close>

text \<open>
  C8.  In every interleaving of reads, frames, errors and grants, the bytes the application
  has read followed by the bytes in the buffer are the bytes of the chunks received, in
  order; and a read returns an error only when everything received has been read.
\<close>

theorem reads_are_fifo:
  assumes "sess_reach (new_session (new_readable conn channel pref)) s"
  shows "se_got s @ buf (se_sc s) = se_fed s \<and>
    (0 < n \<longrightarrow> Read n (se_sc s) (se_rd s) = (ReadReturns got (Some e), sc, r, g) \<longrightarrow>
      got = [] \<and> se_got s = se_fed s)"
  using sess_reach_inv [OF assms new_session_inv] Read_returns(3) [of n "se_sc s" "se_rd s" got "Some e" sc r g]
  by (auto simp: sess_inv_def)

definition ended_session :: session where
  "ended_session = session0\<lparr>se_sc := \<lparr>buf = [], serr = Some io_EOF, quota = 0\<rparr>\<rparr>"

lemma ended_session_reach: "sess_reach session0 ended_session"
  using run_frame [OF sess_start [of session0], where strFlag = streamByteFinish and payload = "[]"]
  by (simp add: ended_session_def session0_def new_session_def new_channel_def applyStreamFrame_def
      signals_def wake_def wire)

theorem reads_are_fifo_witness:
  "se_got ended_session @ buf (se_sc ended_session) = se_fed ended_session \<and>
    se_got ended_session = se_fed ended_session"
proof -
  have "Read 1 (se_sc ended_session) (se_rd ended_session) =
      (ReadReturns [] (Some io_EOF), se_sc ended_session, se_rd ended_session, None)"
    by (simp add: Read_def bufRead_def Let_def ended_session_def)
  then show ?thesis
    using reads_are_fifo [OF ended_session_reach [unfolded session0_def], of 1 "[]" io_EOF] zero_less_one by blast
qed

text \<open>
  A wake-up can be lost: there is a run after which the reader waits for a signal
  although data is in its buffer, and it can do nothing more until another frame arrives.
\<close>

theorem wakeup_can_be_lost:
  "\<exists>s. sess_reach session0 s \<and> se_pc s = Parked \<and> buf (se_sc s) \<noteq> [] \<and>
    \<not> (\<exists>t. sess_step s LRead t) \<and> \<not> (\<exists>t. sess_step s LPark t)"
proof -
  let ?s1 = "session0\<lparr>se_pc := Parking\<rparr>"
  have "sess_step session0 LRead (session0\<lparr>se_sc := se_sc session0, se_rd := se_rd session0, se_pc := Parking\<rparr>)"
    by (rule ss_empty [where n = 1]) (simp_all add: session0_def new_session_def Read_empty new_channel_def)
  then have r1: "sess_reach session0 ?s1"
    by (auto intro: sess_next [OF sess_start])
  let ?s2 = "?s1\<lparr>se_sc := \<lparr>buf = [5], serr = None, quota = 0\<rparr>, se_fed := [5]\<rparr>"
  have r2: "sess_reach session0 ?s2"
    using run_frame [OF r1, where strFlag = streamByteChunk and payload = "[5]"]
    by (simp add: session0_def new_session_def new_channel_def applyStreamFrame_def signals_def wake_def)
  have "sess_step ?s2 LPark (?s2\<lparr>se_pc := Parked\<rparr>)" by (rule ss_park) simp
  then have "sess_reach session0 (?s2\<lparr>se_pc := Parked\<rparr>)" by (rule sess_next [OF r2])
  moreover have "\<not> (\<exists>t. sess_step (?s2\<lparr>se_pc := Parked\<rparr>) LRead t)"
    by (auto elim: parked_readE)
  moreover have "\<not> (\<exists>t. sess_step (?s2\<lparr>se_pc := Parked\<rparr>) LPark t)"
    by (auto elim: parked_parkE)
  ultimately show ?thesis
    by (intro exI [of _ "?s2\<lparr>se_pc := Parked\<rparr>"]) simp
qed

text \<open>
  The window can be exceeded: two reads below the threshold before the first grant runs
  are both granted in full, so the writer is allowed more than the quota size.
\<close>

theorem window_can_be_exceeded:
  "\<exists>s. sess_reach session0 s \<and> se_grants s = [] \<and> rd_quotaSize (se_rd s) < rd_quotaRem (se_rd s)"
proof -
  let ?r = "\<lambda>q. \<lparr>rd_conn = Some 0, rd_c = 1, rd_pref = [106, 1, 1, 3], rd_quotaRem = q, rd_quotaSize = 16384\<rparr>"
  let ?b = "\<lambda>n. replicate n (0 :: byte)"
  let ?s = "\<lambda>m q n gs gd. \<lparr>se_sc = \<lparr>buf = ?b m, serr = None, quota = 0\<rparr>, se_rd = ?r q, se_pc = Ready,
      se_got = ?b n, se_fed = ?b 6000, se_grants = gs, se_granted = gd\<rparr>"
  have "sess_reach session0 (?s 6000 16384 0 [] 0)"
    using run_frame [OF sess_start [of session0], where strFlag = streamByteChunk and payload = "?b 6000"]
    by (simp add: session0_def new_session_def new_readable_def new_channel_def applyStreamFrame_def
        signals_def wake_def defQuotaSizeBytes_def)
  from run_read [OF this, of 5600, simplified, OF Read_data]
  have "sess_reach session0 (?s 400 10784 5600 [5600] 0)"
    by (simp add: wrap_int_id below_threshold_def)
  from run_read [OF this, of 400, simplified, OF Read_data]
  have "sess_reach session0 (?s 0 10384 6000 [5600, 6000] 0)"
    by (simp add: wrap_int_id below_threshold_def replicate_add [symmetric])
  from run_grant [OF this, of "[]" 5600 "[6000]"]
  have "sess_reach session0 (?s 0 15984 6000 [6000] 5600)"
    by (simp add: maxCorrelation_def wrap_int_id)
  from run_grant [OF this, of "[]" 6000 "[]"]
  have "sess_reach session0 (?s 0 21984 6000 [] 11600)"
    by (simp add: maxCorrelation_def wrap_int_id)
  then show ?thesis by (intro exI [of _ "?s 0 21984 6000 [] 11600"]) simp
qed

text \<open>
  C25.  When every grant runs before the next read, the window of the reader stays between
  the threshold and the quota size, and after a grant it is the quota size.
\<close>

theorem reader_keeps_window:
  assumes "10814 \<le> rd_quotaRem r" and "rd_quotaRem r \<le> defQuotaSizeBytes"
    and "rd_quotaSize r = defQuotaSizeBytes" and "int (length (buf sc)) \<le> defQuotaSizeBytes"
    and "Read n sc r = (ReadReturns got e, sc', r', g)"
  shows "case g of
      None \<Rightarrow> 10814 \<le> rd_quotaRem r' \<and> rd_quotaRem r' \<le> defQuotaSizeBytes
    | Some q \<Rightarrow> \<exists>frame r''. addQuota cvti r' q = Some (frame, r'') \<and> rd_quotaRem r'' = defQuotaSizeBytes"
proof (cases "got = []")
  case True
  then show ?thesis using assms
    by (auto simp: Read_def bufRead_def Let_def addRemQuota_def split: if_splits)
next
  case False
  let ?q = "rd_quotaRem r - int (length got)"
  have "int (length got) \<le> defQuotaSizeBytes"
    using Read_returns(1) [OF assms(5)] assms(4) by (metis le_add1 length_append of_nat_mono order_trans)
  then have w: "wrap_int ?q = ?q" "wrap_int (defQuotaSizeBytes - ?q) = defQuotaSizeBytes - ?q"
      "0 \<le> defQuotaSizeBytes - ?q" "nat (defQuotaSizeBytes - ?q) \<le> maxCorrelation"
    using assms(1,2) by (auto simp: defQuotaSizeBytes_def maxCorrelation_def intro!: wrap_int_id)
  have "rd_quotaRem r' = ?q" "rd_quotaSize r' = defQuotaSizeBytes"
    "g = (if below_threshold ?q defQuotaSizeBytes then Some (defQuotaSizeBytes - ?q) else None)"
    using assms(3,5) False w
    by (auto simp: Read_def bufRead_def Let_def addRemQuota_def split: if_splits)
  then show ?thesis
    using assms(2) w(3,4) addQuota_small [OF w(3,4), of cvti r']
    by (auto simp: below_threshold_def defQuotaSizeBytes_def wrap_int_id split: if_splits)
qed

theorem reader_keeps_window_witness:
  "case Some (wrap_int (16384 - 10800)) of
      None \<Rightarrow> 10814 \<le> rd_quotaRem ((new_readable None 1 [])\<lparr>rd_quotaRem := 10800\<rparr>) \<and>
        rd_quotaRem ((new_readable None 1 [])\<lparr>rd_quotaRem := 10800\<rparr>) \<le> defQuotaSizeBytes
    | Some q \<Rightarrow> \<exists>frame r''. addQuota (\<lambda>_. 0) ((new_readable None 1 [])\<lparr>rd_quotaRem := 10800\<rparr>) q
        = Some (frame, r'') \<and> rd_quotaRem r'' = defQuotaSizeBytes"
proof (rule reader_keeps_window)
  let ?r = "(new_readable None 1 [])\<lparr>rd_quotaRem := 10820\<rparr>"
  let ?sc = "\<lparr>buf = replicate 20 5, serr = None, quota = 0\<rparr>"
  show "10814 \<le> rd_quotaRem ?r" "rd_quotaRem ?r \<le> defQuotaSizeBytes"
    "rd_quotaSize ?r = defQuotaSizeBytes" "int (length (buf ?sc)) \<le> defQuotaSizeBytes"
    by (simp_all add: defQuotaSizeBytes_def new_readable_def)
  have "below_threshold 10800 16384" "wrap_int 10800 = 10800" "wrap_int 5584 = 5584"
    by (simp_all add: below_threshold_def wrap_int_id)
  then show "Read 20 ?sc ?r = (ReadReturns (replicate 20 5) None, ?sc\<lparr>buf := []\<rparr>,
      (new_readable None 1 [])\<lparr>rd_quotaRem := 10800\<rparr>, Some (wrap_int (16384 - 10800)))"
    by (subst Read_data [where q = 10800]) (simp_all add: new_readable_def defQuotaSizeBytes_def)
qed

text \<open>
  The grant a reader sends is added, in full, to the quota of the writer's channel.
\<close>

theorem grant_reaches_writer:
  assumes "corr_ok channel" and "getStreamChannel sm channel = Some a"
    and "createStreamPrefix cvt channel streamByteQuota = Some (rd_pref r)"
    and "0 \<le> q" and "nat q \<le> maxCorrelation"
  shows "\<exists>frame r'. addQuota cvti r q = Some (typeStreamData # frame, r') \<and>
    readStreamFrame cvt' cvti' sm frame = Continue (sm\<lparr>sc_store := (sc_store sm)(a :=
      (sc_store sm a)\<lparr>quota := wrap_int (quota (sc_store sm a) + q)\<rparr>)\<rparr>)"
proof -
  obtain pref where pref: "rd_pref r = typeStreamData # pref"
    "\<And>payload. readStreamHeader cvt' (pref @ payload) = Some (channel, streamByteQuota, payload)"
    using header_roundtrip [OF assms(1), of cvt streamByteQuota cvt'] assms(3) by auto
  have "sliceToInt cvti' (be_bytes (nat q)) = q"
    using assms(4,5) by (simp add: sliceToInt_value length_be_bytes_max be_value_be_bytes)
  then show ?thesis
    using pref assms(2) addQuota_small [OF assms(4,5), of cvti r]
    by (simp add: readStreamFrame_def applyStreamFrame_def wire)
qed

theorem grant_reaches_writer_witness:
  "\<exists>frame r'. addQuota (\<lambda>_. 0) ((new_readable None 2 [])\<lparr>rd_pref := [typeStreamData, 1, 2, 3]\<rparr>) 6000
      = Some (typeStreamData # frame, r') \<and>
    readStreamFrame (\<lambda>_. 0) (\<lambda>_. 0) two_streams frame = Continue (two_streams\<lparr>sc_store :=
      (sc_store two_streams)(1 :=
        (sc_store two_streams 1)\<lparr>quota := wrap_int (quota (sc_store two_streams 1) + 6000)\<rparr>)\<rparr>)"
proof (rule grant_reaches_writer [where channel = 2 and cvt = "\<lambda>_. 0"])
  show "corr_ok 2" "(0 :: int) \<le> 6000" "nat 6000 \<le> maxCorrelation"
    by (simp_all add: corr_ok_def maxCorrelation_def)
  show "getStreamChannel two_streams 2 = Some 1" by (simp add: getStreamChannel_def two_streams_def)
  have "be_bytes 2 = [2]" by (simp add: be_bytes.simps)
  then show "createStreamPrefix (\<lambda>_. 0) 2 streamByteQuota =
      Some (rd_pref ((new_readable None 2 [])\<lparr>rd_pref := [typeStreamData, 1, 2, 3]\<rparr>))"
    using corr_ok_enc [of 2 "\<lambda>_. 0"]
    by (simp add: createStreamPrefix_def corr_ok_def maxCorrelation_def wire)
qed

section \<open>Properties of the writable end\<close>

text \<open>A run of writes on a working connection: its frames, or \<open>None\<close> once a write does not succeed.\<close>

fun write_all :: "bytes list \<Rightarrow> streamChannel \<Rightarrow> writable \<Rightarrow> (bytes list \<times> writable) option" where
  "write_all [] sc w = Some ([], w)"
| "write_all (p # ps) sc w =
     (case Write None p sc w of
        (WriteReturns n None, Some frame, w') \<Rightarrow>
          (case write_all ps sc w' of None \<Rightarrow> None | Some (fs, w'') \<Rightarrow> Some (frame # fs, w''))
      | _ \<Rightarrow> None)"

definition new_writable :: "conn option \<Rightarrow> nat \<Rightarrow> bytes \<Rightarrow> writable" where
  "new_writable conn a pref =
     \<lparr>wr_conn = conn, wr_pref = pref, wr_channel = a, wr_quotaRem = defQuotaSizeBytes\<rparr>"

lemma Write_ready:
  assumes "serr sc = None"
  shows "Write None p sc w = (let q = wrap_int (wr_quotaRem w + quota sc) in
    if q \<le> 0 then (WriteWaits, None, w\<lparr>wr_quotaRem := q\<rparr>)
    else (WriteReturns (length p) None, Some (wr_pref w @ p),
          w\<lparr>wr_quotaRem := wrap_int (q - int (length p))\<rparr>))"
  using assms by (simp add: Write_def sc_getErr_def Let_def)



text \<open>
  After one grant there is no window: the quota of the channel is added again at every
  write, so writes of at most the granted size all succeed, however many there are, while the
  reader grants nothing more.
\<close>

theorem writer_unlimited_after_grant:
  assumes "serr sc = None" and "0 < quota sc" and "0 \<le> wr_quotaRem w"
    and "\<forall>p \<in> set ps. int (length p) \<le> quota sc"
    and "wr_quotaRem w + int (length ps) * quota sc < 2 ^ 63"
  shows "\<exists>w'. write_all ps sc w = Some (map (\<lambda>p. wr_pref w @ p) ps, w')"
  using assms(3-5)
proof (induction ps arbitrary: w)
  case (Cons p ps)
  let ?q = "wr_quotaRem w + quota sc"
  have len: "int (length p) \<le> quota sc" using Cons.prems(2) by simp
  have nn: "0 \<le> int (length ps) * quota sc" using assms(2) by simp
  have q: "0 < ?q" "?q + int (length ps) * quota sc < 2 ^ 63"
    using Cons.prems(1,3) assms(2) by (simp_all add: algebra_simps)
  have small: "?q < 2 ^ 63" using q(2) nn by linarith
  have w: "wrap_int ?q = ?q" using q(1) small by (intro wrap_int_nonneg) simp_all
  have w': "wrap_int (?q - int (length p)) = ?q - int (length p)"
    using len small Cons.prems(1) by (intro wrap_int_nonneg) simp_all
  obtain w' where "write_all ps sc (w\<lparr>wr_quotaRem := ?q - int (length p)\<rparr>) =
      Some (map (\<lambda>p. wr_pref w @ p) ps, w')"
    using Cons.IH [of "w\<lparr>wr_quotaRem := ?q - int (length p)\<rparr>"] Cons.prems(1,2) len q(2) by auto
  then show ?case using assms(1) w w' q(1) by (simp add: Write_ready Let_def)
qed simp

theorem writer_unlimited_after_grant_witness:
  "\<exists>w'. write_all (replicate 100 (replicate 6000 0)) (new_channel\<lparr>quota := 6000\<rparr>) (new_writable None 0 [9])
    = Some (map (\<lambda>p. wr_pref (new_writable None 0 [9]) @ p) (replicate 100 (replicate 6000 0)), w')"
  by (rule writer_unlimited_after_grant)
     (simp_all add: new_channel_def new_writable_def defQuotaSizeBytes_def)

text \<open>
  Closing a writer rewrites its prefix, so what is written afterwards is reported as
  written but arrives as another end of the stream, and no byte of it reaches the reader.
\<close>

theorem write_after_close_is_lost:
  assumes "corr_ok channel" and "getStreamChannel sm channel = Some a"
    and "createStreamPrefix cvt channel streamByteChunk = Some (wr_pref w)"
    and "serr sc = None" and "0 < wrap_int (wr_quotaRem w + quota sc)"
  shows "\<exists>frame w'. Write None p sc (snd (Writable_Close w))
      = (WriteReturns (length p) None, Some (typeStreamData # frame), w') \<and>
    readStreamFrame cvt' cvti sm frame = Continue (sm\<lparr>sc_store := (sc_store sm)(a :=
      (sc_store sm a)\<lparr>serr := Some io_EOF\<rparr>)\<rparr>)"
proof -
  obtain pref where pref: "createStreamPrefix cvt channel streamByteFinish = Some (typeStreamData # pref)"
    "\<And>payload. readStreamHeader cvt' (pref @ payload) = Some (channel, streamByteFinish, payload)"
    using header_roundtrip [OF assms(1), of cvt streamByteFinish cvt'] by auto
  obtain c where "pref = of_nat (length c) # c @ [streamByteFinish]"
    "wr_pref w = typeStreamData # of_nat (length c) # c @ [streamByteChunk]"
    using assms(3) pref(1) by (auto simp: createStreamPrefix_def Let_def bind_eq_Some_conv)
  then have "butlast (wr_pref w) @ [streamByteFinish] = typeStreamData # pref"
    by (simp add: butlast_append)
  then show ?thesis
    using assms(2,4,5) pref(2)
    by (simp add: Write_ready Writable_Close_def Let_def readStreamFrame_def applyStreamFrame_def wire)
qed

theorem write_after_close_is_lost_witness:
  "\<exists>frame w'. Write None [5, 6] new_channel (snd (Writable_Close (new_writable None 0 [typeStreamData, 1, 2, 0])))
      = (WriteReturns (length [5 :: byte, 6]) None, Some (typeStreamData # frame), w') \<and>
    readStreamFrame (\<lambda>_. 0) (\<lambda>_. 0) two_streams frame = Continue (two_streams\<lparr>sc_store :=
      (sc_store two_streams)(1 := (sc_store two_streams 1)\<lparr>serr := Some io_EOF\<rparr>)\<rparr>)"
proof (rule write_after_close_is_lost [where channel = 2 and cvt = "\<lambda>_. 0"])
  show c: "corr_ok 2" by (simp add: corr_ok_def maxCorrelation_def)
  show "getStreamChannel two_streams 2 = Some 1" by (simp add: getStreamChannel_def two_streams_def)
  have "be_bytes 2 = [2]" by (simp add: be_bytes.simps)
  then show "createStreamPrefix (\<lambda>_. 0) 2 streamByteChunk =
      Some (wr_pref (new_writable None 0 [typeStreamData, 1, 2, 0]))"
    using corr_ok_enc [OF c, of "\<lambda>_. 0"] by (simp add: createStreamPrefix_def new_writable_def wire)
  show "serr new_channel = None" "0 < wrap_int (wr_quotaRem (new_writable None 0 [typeStreamData, 1, 2, 0]) + quota new_channel)"
    by (simp_all add: new_channel_def new_writable_def defQuotaSizeBytes_def wrap_int_id)
qed

end
