(* ===== verification/AddressScheme.thy ===== *)
theory AddressScheme
  imports StreamController
begin

text \<open>
  The table of addresses to reconnect to (addressScheme.go).  It is kept in two maps, from
  addresses to connections and back; the theory shows which way the two agree and which way
  they can come apart.
\<close>

section \<open>State\<close>

text \<open>Units and connections are pointers; \<open>None\<close> is nil.\<close>

type_synonym unitref = nat

record unitConn =
  uc_unit :: "unitref option"
  uc_conn :: "conn option"

record addressScheme =
  addresses :: "string \<Rightarrow> unitConn option"
  conns :: "conn option \<Rightarrow> string option"

section \<open>Operations\<close>

definition no_unitConn :: unitConn where
  "no_unitConn = \<lparr>uc_unit = None, uc_conn = None\<rparr>"

definition newAddressScheme :: addressScheme where
  "newAddressScheme = \<lparr>addresses = Map.empty, conns = Map.empty\<rparr>"

text \<open>A missing key gives the zero value and \<open>false\<close>.\<close>

definition loadByAddress :: "addressScheme \<Rightarrow> string \<Rightarrow> unitConn \<times> bool" where
  "loadByAddress ca address =
     (case addresses ca address of None \<Rightarrow> (no_unitConn, False) | Some u \<Rightarrow> (u, True))"

text \<open>\<open>store\<close> panics, with its mutex held, when only one of the pointers is nil.\<close>

definition store ::
    "addressScheme \<Rightarrow> string \<Rightarrow> conn option \<Rightarrow> unitref option \<Rightarrow> addressScheme option" where
  "store ca address conn u =
     (if conn \<noteq> None \<and> u \<noteq> None then
        Some (ca\<lparr>addresses := (addresses ca)(address \<mapsto> \<lparr>uc_unit = u, uc_conn = conn\<rparr>),
                 conns := (conns ca)(conn \<mapsto> address)\<rparr>)
      else if conn = None \<and> u = None then
        Some (ca\<lparr>addresses := (addresses ca)(address \<mapsto> no_unitConn)\<rparr>)
      else None)"

definition loadByConn :: "addressScheme \<Rightarrow> conn option \<Rightarrow> string option" where
  "loadByConn ca c = conns ca c"

definition unbindAddr :: "addressScheme \<Rightarrow> string \<Rightarrow> addressScheme" where
  "unbindAddr ca address =
     (case addresses ca address of
        None \<Rightarrow> ca
      | Some uc \<Rightarrow> ca\<lparr>addresses := (addresses ca)(address \<mapsto> no_unitConn),
                      conns := (conns ca)(uc_conn uc := None)\<rparr>)"

text \<open>One turn of the loop over the addresses; the loop visits them in some order.\<close>

definition deleteUnit_step :: "unitref \<Rightarrow> addressScheme \<Rightarrow> string \<Rightarrow> addressScheme" where
  "deleteUnit_step u ca addr =
     (case addresses ca addr of
        None \<Rightarrow> ca
      | Some uc \<Rightarrow>
          if uc_unit uc = Some u then
            ca\<lparr>addresses := (addresses ca)(addr := None), conns := (conns ca)(uc_conn uc := None)\<rparr>
          else ca)"

definition scheme_deleteUnit :: "string list \<Rightarrow> addressScheme \<Rightarrow> unitref \<Rightarrow> addressScheme" where
  "scheme_deleteUnit order ca u = foldl (deleteUnit_step u) ca order"

definition getUnitMap :: "addressScheme \<Rightarrow> string \<Rightarrow> unitref option" where
  "getUnitMap ca addr = (case addresses ca addr of None \<Rightarrow> None | Some uc \<Rightarrow> uc_unit uc)"

section \<open>Lemmas\<close>

definition bound_to :: "addressScheme \<Rightarrow> string \<Rightarrow> conn \<Rightarrow> bool" where
  "bound_to ca a c \<longleftrightarrow> (\<exists>uc. addresses ca a = Some uc \<and> uc_conn uc = Some c)"

definition scheme_inv :: "addressScheme \<Rightarrow> bool" where
  "scheme_inv ca \<longleftrightarrow> (\<forall>a c. bound_to ca a c \<longrightarrow> conns ca (Some c) = Some a) \<and>
     (\<forall>a uc. addresses ca a = Some uc \<longrightarrow> (uc_unit uc = None) = (uc_conn uc = None)) \<and>
     conns ca None = None"

lemma store_inv:
  assumes "scheme_inv ca" and "store ca address conn u = Some ca'"
    and "\<And>c a. conn = Some c \<Longrightarrow> \<not> bound_to ca a c"
  shows "scheme_inv ca'"
  using assms
  by (auto simp: scheme_inv_def store_def bound_to_def no_unitConn_def split: if_splits)

lemma scheme_invD:
  assumes "scheme_inv ca" and "addresses ca a = Some uc" and "uc_conn uc = Some c"
  shows "conns ca (Some c) = Some a"
  using assms by (auto simp: scheme_inv_def bound_to_def)

lemma scheme_invI:
  assumes "\<And>a uc c. addresses ca a = Some uc \<Longrightarrow> uc_conn uc = Some c \<Longrightarrow> conns ca (Some c) = Some a"
    and "\<And>a uc. addresses ca a = Some uc \<Longrightarrow> (uc_unit uc = None) = (uc_conn uc = None)"
    and "conns ca None = None"
  shows "scheme_inv ca"
  using assms by (auto simp: scheme_inv_def bound_to_def)

text \<open>Dropping or clearing one address together with the entry of its connection is safe.\<close>

lemma forget_inv:
  assumes "scheme_inv ca" and "addresses ca address = Some uc"
    and "new = None \<or> new = Some no_unitConn"
  shows "scheme_inv (ca\<lparr>addresses := (addresses ca)(address := new), conns := (conns ca)(uc_conn uc := None)\<rparr>)"
proof -
  have other: "uc_conn uc \<noteq> Some c"
    if "uc_conn uc' = Some c" "a \<noteq> address" "addresses ca a = Some uc'" for a uc' c
    using that scheme_invD [OF assms(1)] assms(2) by (metis not_None_eq option.inject)
  show ?thesis
  proof (rule scheme_invI)
    fix a uc' c
    assume "addresses (ca\<lparr>addresses := (addresses ca)(address := new), conns := (conns ca)(uc_conn uc := None)\<rparr>) a = Some uc'"
      and "uc_conn uc' = Some c"
    then show "conns (ca\<lparr>addresses := (addresses ca)(address := new), conns := (conns ca)(uc_conn uc := None)\<rparr>) (Some c) = Some a"
      using assms(3) scheme_invD [OF assms(1), of a uc' c] other [of uc' c a]
      by (cases "a = address") (auto simp: no_unitConn_def)
  next
    fix a uc'
    assume "addresses (ca\<lparr>addresses := (addresses ca)(address := new), conns := (conns ca)(uc_conn uc := None)\<rparr>) a = Some uc'"
    then show "(uc_unit uc' = None) = (uc_conn uc' = None)"
      using assms(1,3) by (cases "a = address") (auto simp: scheme_inv_def no_unitConn_def)
  qed (use assms(1) in \<open>simp add: scheme_inv_def\<close>)
qed

lemma unbindAddr_inv: "scheme_inv ca \<Longrightarrow> scheme_inv (unbindAddr ca address)"
  by (simp add: unbindAddr_def forget_inv split: option.split)

lemma deleteUnit_step_inv: "scheme_inv ca \<Longrightarrow> scheme_inv (deleteUnit_step u ca addr)"
  by (simp add: deleteUnit_step_def forget_inv split: option.split)

lemma scheme_deleteUnit_inv: "scheme_inv ca \<Longrightarrow> scheme_inv (scheme_deleteUnit order ca u)"
  by (induction order arbitrary: ca) (simp_all add: scheme_deleteUnit_def deleteUnit_step_inv)

lemma deleteUnit_addresses:
  "addresses (scheme_deleteUnit order ca u) a =
    (if a \<in> set order \<and> getUnitMap ca a = Some u then None else addresses ca a)"
proof (induction order arbitrary: ca)
  case (Cons b order)
  have "addresses (deleteUnit_step u ca b) a =
      (if a = b \<and> getUnitMap ca a = Some u then None else addresses ca a)"
    and "getUnitMap (deleteUnit_step u ca b) a =
      (if a = b \<and> getUnitMap ca a = Some u then None else getUnitMap ca a)"
    by (auto simp: deleteUnit_step_def getUnitMap_def split: option.splits)
  then show ?case using Cons.IH [of "deleteUnit_step u ca b"]
    by (auto simp: scheme_deleteUnit_def)
qed (simp add: scheme_deleteUnit_def)

section \<open>Reachable tables\<close>

text \<open>\<open>Connect\<close> stores a connection it has just made, so no address is bound to it yet.\<close>

inductive scheme_reach :: "addressScheme \<Rightarrow> bool" where
  scheme_new: "scheme_reach newAddressScheme"
| scheme_store: "scheme_reach ca \<Longrightarrow> (\<And>a c. conn = Some c \<Longrightarrow> \<not> bound_to ca a c) \<Longrightarrow>
    store ca address conn u = Some ca' \<Longrightarrow> scheme_reach ca'"
| scheme_unbind: "scheme_reach ca \<Longrightarrow> scheme_reach (unbindAddr ca address)"
| scheme_delete: "scheme_reach ca \<Longrightarrow> scheme_reach (scheme_deleteUnit order ca u)"

lemma scheme_reach_inv: "scheme_reach ca \<Longrightarrow> scheme_inv ca"
proof (induction rule: scheme_reach.induct)
  case scheme_new
  then show ?case by (simp add: scheme_inv_def newAddressScheme_def bound_to_def)
qed (auto intro: store_inv unbindAddr_inv scheme_deleteUnit_inv)

section \<open>Properties\<close>

text \<open>
  C31.  In every reachable table the connection an address is bound to leads back to that
  address, so its closing unbinds the address and starts the reconnection; and closing a
  unit removes exactly the addresses bound to it, whatever the order of iteration.
\<close>

theorem bound_address_is_found:
  assumes "scheme_reach ca" and "enumerates order (dom (addresses ca))"
  shows "(\<forall>a c. bound_to ca a c \<longrightarrow> loadByConn ca (Some c) = Some a \<and>
      loadByAddress (unbindAddr ca a) a = (no_unitConn, True) \<and>
      loadByConn (unbindAddr ca a) (Some c) = None) \<and>
    (\<forall>u a. addresses (scheme_deleteUnit order ca u) a =
      (if getUnitMap ca a = Some u then None else addresses ca a))"
proof -
  have "getUnitMap ca a = Some u \<Longrightarrow> a \<in> set order" for a u
    using assms(2) by (auto simp: getUnitMap_def enumerates_def split: option.splits)
  then show ?thesis
    using scheme_reach_inv [OF assms(1)]
    by (auto simp: scheme_inv_def bound_to_def loadByConn_def loadByAddress_def unbindAddr_def
        deleteUnit_addresses)
qed

definition one_address :: addressScheme where
  "one_address = \<lparr>addresses = [''a'' \<mapsto> \<lparr>uc_unit = Some 5, uc_conn = Some 1\<rparr>],
     conns = [Some 1 \<mapsto> ''a'']\<rparr>"

lemma one_address_reach: "scheme_reach one_address"
  by (rule scheme_store [OF scheme_new, of "Some 1" "''a''" "Some 5"])
     (simp_all add: bound_to_def newAddressScheme_def store_def one_address_def)

theorem bound_address_is_found_witness:
  "loadByConn one_address (Some 1) = Some ''a'' \<and>
    loadByAddress (unbindAddr one_address ''a'') ''a'' = (no_unitConn, True) \<and>
    (\<forall>u a. addresses (scheme_deleteUnit [''a''] one_address u) a =
      (if getUnitMap one_address a = Some u then None else addresses one_address a))"
proof -
  have "enumerates [''a''] (dom (addresses one_address))" "bound_to one_address ''a'' 1"
    by (simp_all add: one_address_def enumerates_def bound_to_def)
  then show ?thesis using bound_address_is_found [OF one_address_reach] by blast
qed

text \<open>
  Connecting again to an address leaves the entry of the old connection behind; when
  that connection closes, the address is unbound from the connection that is still open, and
  the closing of the latter is no longer noticed.
\<close>

theorem old_connection_unbinds_new:
  "\<exists>t1 t2 t3. store newAddressScheme a (Some 1) (Some 5) = Some t1 \<and> store t1 a None None = Some t2 \<and>
    store t2 a (Some 2) (Some 5) = Some t3 \<and> loadByConn t3 (Some 1) = Some a \<and> bound_to t3 a 2 \<and>
    (let t4 = unbindAddr t3 a in \<not> bound_to t4 a 2 \<and> loadByConn t4 (Some 2) = None \<and>
       loadByConn t4 (Some 1) = Some a)"
  by (simp add: store_def newAddressScheme_def bound_to_def loadByConn_def unbindAddr_def
      no_unitConn_def Let_def)

end
