(* ===== verification/Destination.thy ===== *)
theory Destination
  imports AddressScheme
begin

text \<open>
  Destinations (Destination.go, destination_internal.go): the units that serve a role, and
  the choice of the next one.  What the peer relies on when it enters and removes units is
  the locale \<open>membership\<close>.
\<close>

section \<open>The interface\<close>

locale membership =
  fixes add :: "'d \<Rightarrow> 'u \<Rightarrow> 'd" and remove :: "'d \<Rightarrow> 'u \<Rightarrow> 'd" and member :: "'d \<Rightarrow> 'u \<Rightarrow> bool"
  assumes member_add: "member (add d u) v \<longleftrightarrow> v = u \<or> member d v"
    and member_remove: "member (remove d u) v \<longleftrightarrow> v \<noteq> u \<and> member d v"
begin

definition update_member :: "'d \<Rightarrow> 'u \<Rightarrow> bool \<Rightarrow> 'd" where
  "update_member d u b = (if b then add d u else remove d u)"

lemma member_update: "member (update_member d u b) v \<longleftrightarrow> (if v = u then b else member d v)"
  by (auto simp: update_member_def member_add member_remove)

lemma member_add_all: "member (foldl add d us) v \<longleftrightarrow> v \<in> set us \<or> member d v"
  by (induction us arbitrary: d) (auto simp: member_add)

lemma update_idem: "member (update_member (update_member d u b) u b) v = member (update_member d u b) v"
  by (simp add: member_update)

end

section \<open>State\<close>

text \<open>Goroutines a call starts are recorded in the order they are started.\<close>

datatype dest_go = DestRunOnUnit unitref | DestRunOnClose

record destination =
  d_name :: string
  d_ready :: bool
  d_units :: "unitref set"
  d_index :: u32
  d_started :: "dest_go list"
  d_unitHandlers :: "nat list"
  d_closeHandlers :: "nat list"

section \<open>Operations\<close>

definition createDestination :: "string \<Rightarrow> destination" where
  "createDestination name =
     \<lparr>d_name = name, d_ready = False, d_units = {}, d_index = 0, d_started = [],
      d_unitHandlers = [], d_closeHandlers = []\<rparr>"

definition HasUnit :: "destination \<Rightarrow> unitref \<Rightarrow> bool" where
  "HasUnit dest unit \<longleftrightarrow> unit \<in> d_units dest"

definition dest_addUnit :: "destination \<Rightarrow> unitref \<Rightarrow> destination" where
  "dest_addUnit dest unit =
     (if HasUnit dest unit then dest
      else dest\<lparr>d_units := insert unit (d_units dest), d_ready := True,
                d_started := d_started dest @ [DestRunOnUnit unit]\<rparr>)"

definition dest_deleteUnit :: "destination \<Rightarrow> unitref \<Rightarrow> destination" where
  "dest_deleteUnit dest unit =
     (if HasUnit dest unit then
        let dest1 = dest\<lparr>d_units := d_units dest - {unit}\<rparr> in
        if card (d_units dest1) < 1 then
          dest1\<lparr>d_ready := False, d_started := d_started dest1 @ [DestRunOnClose]\<rparr>
        else dest1
      else dest)"

definition Destination_Ready :: "destination \<Rightarrow> bool" where
  "Destination_Ready dest = d_ready dest"

definition Destination_Name :: "destination \<Rightarrow> string" where
  "Destination_Name dest = d_name dest"

text \<open>\<open>Units\<close> copies the keys of the map, in the order of iteration.\<close>

definition Destination_Units :: "unitref list \<Rightarrow> destination \<Rightarrow> unitref list" where
  "Destination_Units order dest = filter (HasUnit dest) order"

definition nextUnit :: "unitref list \<Rightarrow> destination \<Rightarrow> (goerror + unitref) \<times> destination" where
  "nextUnit order dest =
     (let i = d_index dest + 1;
          dest1 = dest\<lparr>d_index := i\<rparr>;
          units = Destination_Units order dest1;
          l = length units
      in if l < 1 then
           (Inl (ErrorString (''No units connected to serve role '' @ d_name dest1)), dest1)
         else (Inr (units ! unat (i mod of_nat l)), dest1))"

text \<open>Handlers, named by numbers, and the calls the two goroutines make.\<close>

definition Destination_OnUnit :: "nat \<Rightarrow> destination \<Rightarrow> destination" where
  "Destination_OnUnit f dest = dest\<lparr>d_unitHandlers := d_unitHandlers dest @ [f]\<rparr>"

definition Destination_OnClose :: "nat \<Rightarrow> destination \<Rightarrow> destination" where
  "Destination_OnClose f dest = dest\<lparr>d_closeHandlers := d_closeHandlers dest @ [f]\<rparr>"

definition dest_runOnUnit :: "destination \<Rightarrow> unitref \<Rightarrow> (nat \<times> unitref) list" where
  "dest_runOnUnit dest unit = map (\<lambda>handler. (handler, unit)) (d_unitHandlers dest)"

definition dest_runOnClose :: "destination \<Rightarrow> nat list" where
  "dest_runOnClose dest = d_closeHandlers dest"

text \<open>Consecutive calls, each with the order of its iteration.\<close>

fun next_units :: "unitref list list \<Rightarrow> destination \<Rightarrow> (goerror + unitref) list" where
  "next_units [] dest = []"
| "next_units (order # orders) dest =
     (case nextUnit order dest of (u, dest1) \<Rightarrow> u # next_units orders dest1)"

section \<open>Lemmas\<close>

interpretation dest_members: membership dest_addUnit dest_deleteUnit HasUnit
  by unfold_locales (auto simp: HasUnit_def dest_addUnit_def dest_deleteUnit_def Let_def)

definition dest_inv :: "destination \<Rightarrow> bool" where
  "dest_inv d \<longleftrightarrow> finite (d_units d) \<and> (d_ready d \<longleftrightarrow> d_units d \<noteq> {})"

lemma createDestination_inv [simp]: "dest_inv (createDestination name)"
  by (simp add: dest_inv_def createDestination_def)

lemma dest_addUnit_inv [simp]: "dest_inv d \<Longrightarrow> dest_inv (dest_addUnit d u)"
  by (auto simp: dest_inv_def dest_addUnit_def)

lemma dest_deleteUnit_inv [simp]: "dest_inv d \<Longrightarrow> dest_inv (dest_deleteUnit d u)"
  by (auto simp: dest_inv_def dest_deleteUnit_def Let_def)

lemma nextUnit_inv [simp]: "dest_inv d \<Longrightarrow> dest_inv (snd (nextUnit order d))"
  by (auto simp: dest_inv_def nextUnit_def Let_def)

lemma Destination_Units_all:
  "enumerates order (d_units dest) \<Longrightarrow> Destination_Units order dest = order"
  by (auto simp: Destination_Units_def enumerates_def HasUnit_def filter_id_conv)

lemma nextUnit_choice:
  assumes "enumerates order (d_units d)" and "order \<noteq> []" and "length order < 2 ^ 32"
  shows "nextUnit order d =
    (Inr (order ! (unat (d_index d + 1) mod length order)), d\<lparr>d_index := d_index d + 1\<rparr>)"
proof -
  have "unat (of_nat (length order) :: u32) = length order"
    using assms(3) by (simp add: unat_of_nat)
  moreover have "Destination_Units order (d\<lparr>d_index := d_index d + 1\<rparr>) = order"
    using assms(1) by (simp add: Destination_Units_all)
  ultimately show ?thesis
    using assms(2) by (auto simp: nextUnit_def Let_def unat_mod_distrib Suc_le_eq)
qed

lemma next_units_choice:
  assumes "enumerates order (d_units d)" and "order \<noteq> []" and "length order < 2 ^ 32"
  shows "unat (d_index d) + n < 2 ^ 32 \<Longrightarrow> next_units (replicate n order) d =
    map (\<lambda>j. Inr (order ! ((unat (d_index d) + Suc j) mod length order))) [0..<n]"
  using assms
proof (induction n arbitrary: d)
  case (Suc n)
  have u: "unat (d_index d + 1) = Suc (unat (d_index d))"
    using Suc.prems(1) by (simp add: unat_plus_if')
  have "next_units (replicate n order) (d\<lparr>d_index := d_index d + 1\<rparr>) =
    map (\<lambda>j. Inr (order ! ((Suc (unat (d_index d)) + Suc j) mod length order))) [0..<n]"
    using Suc.IH [of "d\<lparr>d_index := d_index d + 1\<rparr>"] Suc.prems u by simp
  then show ?case
    using nextUnit_choice [OF Suc.prems(2-4)] u
    by (simp add: upt_conv_Cons map_Suc_upt [symmetric] comp_def del: upt_Suc)
qed simp

section \<open>Histories\<close>

datatype dest_op = AddUnit unitref | DeleteUnit unitref | NextUnit "unitref list"

fun dest_do :: "destination \<Rightarrow> dest_op \<Rightarrow> destination" where
  "dest_do d (AddUnit u) = dest_addUnit d u"
| "dest_do d (DeleteUnit u) = dest_deleteUnit d u"
| "dest_do d (NextUnit order) = snd (nextUnit order d)"

definition dest_run :: "string \<Rightarrow> dest_op list \<Rightarrow> destination" where
  "dest_run name ops = foldl dest_do (createDestination name) ops"

text \<open>The last operation on a unit is its entry.\<close>

fun last_is_add :: "unitref \<Rightarrow> dest_op list \<Rightarrow> bool" where
  "last_is_add u [] \<longleftrightarrow> False"
| "last_is_add u (AddUnit v # ops) \<longleftrightarrow> u = v \<or> last_is_add u ops"
| "last_is_add u (DeleteUnit v # ops) \<longleftrightarrow> u \<noteq> v \<and> last_is_add u ops"
| "last_is_add u (NextUnit _ # ops) \<longleftrightarrow> last_is_add u ops"

definition told_inv :: "destination \<Rightarrow> bool" where
  "told_inv d \<longleftrightarrow> (d_ready d \<longleftrightarrow> d_started d \<noteq> [] \<and> last (d_started d) \<noteq> DestRunOnClose)"

lemma dest_do_inv:
  "dest_inv d \<Longrightarrow> dest_inv (dest_do d op)"
  by (cases op) simp_all

lemma dest_do_told: "dest_inv d \<Longrightarrow> told_inv d \<Longrightarrow> told_inv (dest_do d op)"
  by (cases op)
     (auto simp: told_inv_def dest_inv_def dest_addUnit_def dest_deleteUnit_def nextUnit_def Let_def)

lemma HasUnit_next [simp]: "HasUnit (snd (nextUnit order d)) u \<longleftrightarrow> HasUnit d u"
  by (simp add: HasUnit_def nextUnit_def Let_def)

lemma dest_run_snoc: "dest_run name (ops @ [op]) = dest_do (dest_run name ops) op"
  by (simp add: dest_run_def)

lemma dest_run_inv: "dest_inv (dest_run name ops) \<and> told_inv (dest_run name ops)"
proof (induction ops rule: rev_induct)
  case Nil
  then show ?case by (simp add: dest_run_def told_inv_def createDestination_def dest_inv_def)
qed (simp add: dest_run_snoc dest_do_inv dest_do_told)

lemma dest_run_member: "HasUnit (dest_run name ops) u \<longleftrightarrow> last_is_add u (rev ops)"
proof (induction ops rule: rev_induct)
  case Nil
  then show ?case by (simp add: dest_run_def HasUnit_def createDestination_def)
next
  case (snoc op ops)
  then show ?case
    by (cases op) (simp_all add: dest_run_snoc dest_members.member_add dest_members.member_remove)
qed

section \<open>Properties\<close>

text \<open>
  C22.  After any sequence of operations a destination has exactly the units whose last
  operation was an entry, it is ready exactly when it has one, and the last goroutine it
  started tells its handlers so.
\<close>

theorem destination_ready_iff_units:
  "(\<forall>u. HasUnit (dest_run name ops) u \<longleftrightarrow> last_is_add u (rev ops)) \<and>
   (Destination_Ready (dest_run name ops) \<longleftrightarrow> (\<exists>u. HasUnit (dest_run name ops) u)) \<and>
   (Destination_Ready (dest_run name ops) \<longleftrightarrow>
     d_started (dest_run name ops) \<noteq> [] \<and> last (d_started (dest_run name ops)) \<noteq> DestRunOnClose)"
  using dest_run_inv [of name ops] dest_run_member [of name ops]
  by (auto simp: dest_inv_def told_inv_def Destination_Ready_def HasUnit_def)

text \<open>
  C23.  While the iteration over the units keeps one order and the index does not wrap, as
  many consecutive calls as there are units choose every unit exactly once, in that order.
\<close>

theorem round_robin:
  assumes "enumerates order (d_units d)" and "order \<noteq> []" and "length order < 2 ^ 32"
    and "unat (d_index d) + length order < 2 ^ 32"
  shows "next_units (replicate (length order) order) d = map Inr (rotate (Suc (unat (d_index d))) order)"
  using next_units_choice [OF assms(1-3) assms(4)]
  by (auto intro!: nth_equalityI simp: nth_rotate simp del: rotate_Suc)

definition three_units :: destination where
  "three_units = (createDestination ''r'')\<lparr>d_units := {4, 5, 6}, d_ready := True\<rparr>"

theorem round_robin_witness:
  "next_units (replicate (length [4 :: unitref, 5, 6]) [4, 5, 6]) three_units
     = map Inr (rotate (Suc (unat (d_index three_units))) [4, 5, 6])"
  by (rule round_robin) (auto simp: enumerates_def three_units_def createDestination_def)

lemma order_choosing:
  assumes "finite A" and "u \<in> A"
  shows "\<exists>order. enumerates order A \<and> order ! (k mod length order) = u"
proof -
  obtain xs where xs: "set xs = A" "distinct xs" using finite_distinct_list [OF assms(1)] by blast
  then obtain j where j: "j < length xs" "xs ! j = u" using assms(2) by (metis in_set_conv_nth)
  let ?l = "length xs" and ?m = "j + length xs - k mod length xs"
  have km: "k mod ?l < ?l" using j(1) by (intro mod_less_divisor) auto
  then have "rotate ?m xs ! (k mod ?l) = xs ! ((?m + k mod ?l) mod ?l)"
    by (rule nth_rotate)
  also have "(?m + k mod ?l) mod ?l = j" using j(1) km by simp
  finally show ?thesis using xs j(2) by (intro exI [of _ "rotate ?m xs"]) (simp add: enumerates_def)
qed

text \<open>
  Go fixes no order of iteration over a map, so nothing forces the balance: for every
  unit of a destination and every number of calls there are orders under which all of them
  choose that unit.
\<close>

theorem one_unit_may_get_everything:
  assumes "finite (d_units d)" and "u \<in> d_units d" and "card (d_units d) < 2 ^ 32"
  shows "\<exists>orders. length orders = n \<and> (\<forall>order \<in> set orders. enumerates order (d_units d)) \<and>
    next_units orders d = replicate n (Inr u)"
  using assms
proof (induction n arbitrary: d)
  case (Suc n)
  obtain order where order: "enumerates order (d_units d)" "order ! (unat (d_index d + 1) mod length order) = u"
    using order_choosing [OF Suc.prems(1,2)] by blast
  have "order \<noteq> []" "length order < 2 ^ 32"
    using order(1) Suc.prems(2,3) enumerates_length [OF order(1)] by (auto simp: enumerates_def)
  then have n: "nextUnit order d = (Inr u, d\<lparr>d_index := d_index d + 1\<rparr>)"
    using nextUnit_choice [OF order(1)] order(2) by simp
  obtain orders where "length orders = n" "\<forall>order \<in> set orders. enumerates order (d_units d)"
    "next_units orders (d\<lparr>d_index := d_index d + 1\<rparr>) = replicate n (Inr u)"
    using Suc.IH [of "d\<lparr>d_index := d_index d + 1\<rparr>"] Suc.prems by auto
  then show ?case
    using order(1) n by (intro exI [of _ "order # orders"]) simp
qed simp

theorem one_unit_may_get_everything_witness:
  "\<exists>orders. length orders = 7 \<and> (\<forall>order \<in> set orders. enumerates order (d_units three_units)) \<and>
    next_units orders three_units = replicate 7 (Inr 5)"
  by (rule one_unit_may_get_everything) (simp_all add: three_units_def createDestination_def)

end
