(* ===== verification/Auth.thy ===== *)
theory Auth
  imports DataTypes
begin

text \<open>
  Authentication of a connection (auth.go): the challenge and its proof, the handshake as a
  state machine over the messages read from the connection, and the check of the protocol
  version.  HMAC, JSON, error wrapping and the parsing of semantic versions are parameters.
\<close>

section \<open>Data\<close>

record presharedKey =
  pk_id :: string
  pk_key :: string

record challengeWithIds =
  ch_challenge :: string
  ch_ids :: "string list"

record proofWithID =
  pf_proof :: string
  pf_id :: string

record MetaInfo =
  mi_os :: string
  mi_runtime :: string
  mi_uptime :: int
  mi_time :: int
  mi_protocol :: string

record peerData =
  pd_id :: string
  pd_name :: string
  pd_roles :: "string list"
  pd_friendly :: bool
  pd_meta :: MetaInfo

definition no_peerData :: peerData where
  "no_peerData = \<lparr>pd_id = [], pd_name = [], pd_roles = [], pd_friendly = False,
     pd_meta = \<lparr>mi_os = [], mi_runtime = [], mi_uptime = 0, mi_time = 0, mi_protocol = []\<rparr>\<rparr>"

text \<open>What the handshake reads of the local peer; times are in nanoseconds.\<close>

record local_peer =
  lp_id :: string
  lp_name :: string
  lp_friendly :: bool
  lp_roles :: "string list"
  lp_keys :: "presharedKey list"
  lp_start :: int

text \<open>
  The libraries: the hex text of the HMAC of a challenge under a key; JSON encoders and
  decoders of the three messages (decoding a proof ignores the error, decoding peer data
  merges into the value there is); \<open>errors.Wrap\<close>; the operating system's name.
\<close>

record auth_lib =
  hmacHex :: "string \<Rightarrow> string \<Rightarrow> string"
  encChal :: "challengeWithIds \<Rightarrow> goerror + bytes"
  decChal :: "bytes \<Rightarrow> goerror + challengeWithIds"
  encProof :: "proofWithID \<Rightarrow> goerror + bytes"
  decProof :: "bytes \<Rightarrow> proofWithID"
  encPeer :: "peerData \<Rightarrow> goerror + bytes"
  decPeer :: "bytes \<Rightarrow> peerData \<Rightarrow> goerror + peerData"
  wrapErr :: "goerror \<Rightarrow> string \<Rightarrow> goerror"
  goos :: string

section \<open>Keys and proofs\<close>

definition AddKey :: "local_peer \<Rightarrow> string \<Rightarrow> string \<Rightarrow> local_peer" where
  "AddKey peer i key = peer\<lparr>lp_keys := lp_keys peer @ [\<lparr>pk_id = i, pk_key = key\<rparr>]\<rparr>"

definition hex_digit :: "nat \<Rightarrow> char" where
  "hex_digit d = char_of (if d < 10 then 48 + d else 87 + d)"

definition sprintf_x :: "bytes \<Rightarrow> string" where
  "sprintf_x b = concat (map (\<lambda>x. [hex_digit (unat x div 16), hex_digit (unat x mod 16)]) b)"

text \<open>\<open>b\<close> are the sixteen random bytes; the result is the message and the challenge.\<close>

definition generateChallengeWithIds ::
    "auth_lib \<Rightarrow> local_peer \<Rightarrow> bytes \<Rightarrow> goerror + (bytes \<times> string)" where
  "generateChallengeWithIds lib peer b =
     (let challenge = sprintf_x b;
          ids = map pk_id (lp_keys peer);
          chalWithIds = \<lparr>ch_challenge = challenge, ch_ids = ids\<rparr>
      in case encChal lib chalWithIds of
           Inl err \<Rightarrow> Inl err
         | Inr raw \<Rightarrow> Inr (raw, challenge))"

definition getProof :: "auth_lib \<Rightarrow> string \<Rightarrow> string \<Rightarrow> string" where
  "getProof lib challenge key = hmacHex lib key challenge"

text \<open>The two nested loops return at the first local key whose id is among those offered.\<close>

fun find_key :: "presharedKey list \<Rightarrow> string list \<Rightarrow> presharedKey option" where
  "find_key [] offered = None"
| "find_key (preshared # keys) offered =
     (if pk_id preshared \<in> set offered then Some preshared else find_key keys offered)"

definition processChallengeMsg :: "auth_lib \<Rightarrow> local_peer \<Rightarrow> bytes \<Rightarrow> goerror + bytes" where
  "processChallengeMsg lib peer raw =
     (case decChal lib raw of
        Inl err \<Rightarrow> Inl err
      | Inr chalWithIds \<Rightarrow>
          (case find_key (lp_keys peer) (ch_ids chalWithIds) of
             None \<Rightarrow> Inl (ErrorString ''Auth id mismatch'')
           | Some preshared \<Rightarrow>
               let prf = getProof lib (ch_challenge chalWithIds) (pk_key preshared) in
               (case encProof lib \<lparr>pf_proof = prf, pf_id = pk_id preshared\<rparr> of
                  Inl err \<Rightarrow> Inl err
                | Inr str \<Rightarrow> Inr ([byteAuthResponse] @ str))))"

fun verify_keys :: "auth_lib \<Rightarrow> string \<Rightarrow> proofWithID \<Rightarrow> presharedKey list \<Rightarrow> goerror option" where
  "verify_keys lib challenge p [] =
     Some (ErrorString (''Response with id '' @ pf_id p @ '' not found''))"
| "verify_keys lib challenge p (preshared # keys) =
     (if pk_id preshared = pf_id p then
        let computed = hmacHex lib (pk_key preshared) challenge in
        if computed \<noteq> pf_proof p then
          Some (ErrorString (''Hashes for proof with id '' @ pf_id p @ '' are not equal''))
        else None
      else verify_keys lib challenge p keys)"

definition verifyResponse :: "auth_lib \<Rightarrow> local_peer \<Rightarrow> string \<Rightarrow> bytes \<Rightarrow> goerror option" where
  "verifyResponse lib peer challenge raw =
     (let proofAndID = decProof lib raw in verify_keys lib challenge proofAndID (lp_keys peer))"

text \<open>
  The constant \<open>10e6\<close> is ten million, so the two times are in hundredths of a second; the
  quotients truncate.
\<close>

definition generatePeerData :: "auth_lib \<Rightarrow> local_peer \<Rightarrow> int \<Rightarrow> goerror + bytes" where
  "generatePeerData lib peer now =
     (let nowMs = (sgn now) * (\<bar>now\<bar> div 10000000);
          startMs = (sgn (lp_start peer)) * (\<bar>lp_start peer\<bar> div 10000000);
          meta = \<lparr>mi_os = goos lib, mi_runtime = ''GO'', mi_uptime = wrap_int (nowMs - startMs),
                  mi_time = nowMs, mi_protocol = protocolVersion\<rparr>
      in encPeer lib \<lparr>pd_id = lp_id peer, pd_name = lp_name peer, pd_roles = lp_roles peer,
           pd_friendly = lp_friendly peer, pd_meta = meta\<rparr>)"

section \<open>The handshake\<close>

record handshake =
  confirmedIn :: bool
  confirmedOut :: bool
  hs_challenge :: string
  hs_res :: peerData

datatype hs_status = Running handshake | Authenticated peerData | AuthFailed goerror | AuthPanics

text \<open>
  \<open>wr\<close> is the result of writing a frame to the connection.  Every step gives the frames
  written and the status.
\<close>

definition hs_start ::
    "auth_lib \<Rightarrow> (bytes \<Rightarrow> goerror option) \<Rightarrow> local_peer \<Rightarrow> bytes \<Rightarrow> int \<Rightarrow> bytes list \<times> hs_status" where
  "hs_start lib wr peer b now =
     (let st = \<lparr>confirmedIn = False, confirmedOut = False, hs_challenge = '''', hs_res = no_peerData\<rparr> in
      if length (lp_keys peer) > 0 then
        (case generateChallengeWithIds lib peer b of
           Inl err \<Rightarrow> ([], AuthFailed (wrapErr lib err ''Error while generating challenge for send''))
         | Inr (msg, challenge) \<Rightarrow>
             let chalPayload = [byteAuthChallenge] @ msg in
             (case wr chalPayload of
                Some err \<Rightarrow> ([], AuthFailed (wrapErr lib err ''Cannot send challenge to remote peer''))
              | None \<Rightarrow> ([chalPayload], Running (st\<lparr>hs_challenge := challenge\<rparr>))))
      else
        (case generatePeerData lib peer now of
           Inl err \<Rightarrow> ([], AuthFailed (wrapErr lib err ''Cannot generate peer data to confirm auth for remote peer''))
         | Inr pd \<Rightarrow>
             (case wr ([byteAuthConfirmed] @ pd) of
                Some err \<Rightarrow> ([], AuthFailed (wrapErr lib err ''Cannot send confirmation to remote peer''))
              | None \<Rightarrow> ([[byteAuthConfirmed] @ pd], Running (st\<lparr>confirmedIn := True\<rparr>)))))"

definition hs_step ::
    "auth_lib \<Rightarrow> (bytes \<Rightarrow> goerror option) \<Rightarrow> local_peer \<Rightarrow> int \<Rightarrow> handshake \<Rightarrow> goerror + bytes
     \<Rightarrow> bytes list \<times> hs_status" where
  "hs_step lib wr peer now st inp =
     (case inp of
        Inl err \<Rightarrow> ([], AuthFailed (wrapErr lib err ''connection closed''))
      | Inr [] \<Rightarrow> ([], AuthPanics)
      | Inr (b # raw) \<Rightarrow>
          if b = byteError then
            ([], AuthFailed (ErrorString (''remote peer sent error: '' @ string_of raw)))
          else if b = byteAuthConfirmed then
            (case decPeer lib raw (hs_res st) of
               Inl err \<Rightarrow> ([], AuthFailed (wrapErr lib err ''Error when parsing peer data: ''))
             | Inr res \<Rightarrow>
                 let st1 = st\<lparr>confirmedOut := True, hs_res := res\<rparr> in
                 if confirmedIn st1 \<and> confirmedOut st1 then ([], Authenticated res)
                 else ([], Running st1))
          else if b = byteAuthChallenge then
            (case processChallengeMsg lib peer raw of
               Inl err \<Rightarrow> ([], AuthFailed (wrapErr lib err ''Cannot process challenge message''))
             | Inr prf \<Rightarrow>
                 (case wr prf of
                    Some err \<Rightarrow> ([], AuthFailed (wrapErr lib err ''Cannot send generated proof''))
                  | None \<Rightarrow> ([prf], Running st)))
          else if b = byteAuthResponse then
            (case verifyResponse lib peer (hs_challenge st) raw of
               Some err \<Rightarrow> ([], AuthFailed (wrapErr lib err ''Response verification failed''))
             | None \<Rightarrow>
                 let st1 = st\<lparr>confirmedIn := True\<rparr> in
                 (case generatePeerData lib peer now of
                    Inl err \<Rightarrow> ([], AuthFailed (wrapErr lib err ''Cannot generate peer data to confirm auth for remote peer''))
                  | Inr pd \<Rightarrow>
                      (case wr ([byteAuthConfirmed] @ pd) of
                         Some err \<Rightarrow> ([], AuthFailed err)
                       | None \<Rightarrow>
                           if confirmedIn st1 \<and> confirmedOut st1
                           then ([[byteAuthConfirmed] @ pd], Authenticated (hs_res st1))
                           else ([[byteAuthConfirmed] @ pd], Running st1))))
          else ([], Running st))"

text \<open>The loop over the messages that arrive; a list that is used up means it still waits.\<close>

fun hs_loop ::
    "auth_lib \<Rightarrow> (bytes \<Rightarrow> goerror option) \<Rightarrow> local_peer \<Rightarrow> int \<Rightarrow> bytes list \<times> hs_status
     \<Rightarrow> (goerror + bytes) list \<Rightarrow> bytes list \<times> hs_status" where
  "hs_loop lib wr peer now (out, Running st) (inp # inps) =
     (case hs_step lib wr peer now st inp of
        (frames, status) \<Rightarrow> hs_loop lib wr peer now (out @ frames, status) inps)"
| "hs_loop lib wr peer now (out, status) inps = (out, status)"

definition startAuthWSHandshake ::
    "auth_lib \<Rightarrow> (bytes \<Rightarrow> goerror option) \<Rightarrow> local_peer \<Rightarrow> bytes \<Rightarrow> int \<Rightarrow> (goerror + bytes) list
     \<Rightarrow> bytes list \<times> hs_status" where
  "startAuthWSHandshake lib wr peer b now inps = hs_loop lib wr peer now (hs_start lib wr peer b now) inps"

text \<open>
  \<open>authenticateWS\<close>: the handshake runs in a goroutine and races with a timer.  \<open>None\<close> is the
  crash of the process by a panic in that goroutine.
\<close>

definition authenticateWS :: "string \<Rightarrow> bool \<Rightarrow> hs_status \<Rightarrow> (goerror + peerData) option" where
  "authenticateWS authTimeot timeout_first status =
     (if timeout_first then Some (Inl (ErrorString (''Auth timeout exceed: '' @ authTimeot)))
      else case status of
          Authenticated data \<Rightarrow> Some (Inr data)
        | AuthFailed err \<Rightarrow> Some (Inl err)
        | Running _ \<Rightarrow> Some (Inl (ErrorString (''Auth timeout exceed: '' @ authTimeot)))
        | AuthPanics \<Rightarrow> None)"

section \<open>Protocol versions\<close>

definition errRemoteVersionHigher :: string where
  "errRemoteVersionHigher = ''Remote major version of roletalk protocol is higher than local one and potentially backward-incompatible''"

definition errLocalVersionHigher :: string where
  "errLocalVersionHigher = ''Remote major version of roletalk protocol is higher than local one and potentially backward-incompatible''"

text \<open>\<open>parse\<close> is \<open>semver.Parse\<close>, of which the code uses the major version.\<close>

definition checkProtocolCompatibility ::
    "(goerror \<Rightarrow> string \<Rightarrow> goerror) \<Rightarrow> (string \<Rightarrow> goerror + u64) \<Rightarrow> string \<Rightarrow> string \<Rightarrow> goerror option" where
  "checkProtocolCompatibility wrap parse localVersion remoteVersion =
     (case parse localVersion of
        Inl err \<Rightarrow> Some (wrap err ''cannot parse local semver value'')
      | Inr locVer \<Rightarrow>
          (case parse remoteVersion of
             Inl err \<Rightarrow> Some (wrap err ''cannot parse remote semver value'')
           | Inr remVer \<Rightarrow>
               let d = sint (locVer - remVer) in
               if d = -1 then Some (ErrorString errRemoteVersionHigher)
               else if d = 1 then Some (ErrorString errLocalVersionHigher)
               else None))"

section \<open>Lemmas\<close>

lemma find_key_mem: "find_key keys offered = Some k \<Longrightarrow> k \<in> set keys \<and> pk_id k \<in> set offered"
  by (induction keys) (auto split: if_splits)

lemma find_key_exists: "k \<in> set keys \<Longrightarrow> pk_id k \<in> set offered \<Longrightarrow> \<exists>k'. find_key keys offered = Some k'"
  by (induction keys) auto

text \<open>Accepting a response means it carries the proof of a key of the peer.\<close>

definition proves :: "auth_lib \<Rightarrow> local_peer \<Rightarrow> string \<Rightarrow> bytes \<Rightarrow> bool" where
  "proves lib peer challenge raw \<longleftrightarrow> (\<exists>k \<in> set (lp_keys peer).
     pk_id k = pf_id (decProof lib raw) \<and> hmacHex lib (pk_key k) challenge = pf_proof (decProof lib raw))"

lemma verify_keys_None:
  "verify_keys lib c p keys = None \<Longrightarrow> \<exists>k \<in> set keys. pk_id k = pf_id p \<and> hmacHex lib (pk_key k) c = pf_proof p"
  by (induction keys) (auto simp: Let_def split: if_splits)

lemma verify_keys_ok:
  assumes "k \<in> set keys" and "\<forall>k' \<in> set keys. pk_id k' = pf_id p \<longrightarrow> hmacHex lib (pk_key k') c = pf_proof p"
    and "pk_id k = pf_id p"
  shows "verify_keys lib c p keys = None"
  using assms by (induction keys) (auto simp: Let_def)

lemma verifyResponse_proves: "verifyResponse lib peer c raw = None \<Longrightarrow> proves lib peer c raw"
  using verify_keys_None unfolding verifyResponse_def proves_def Let_def by blast

text \<open>What the state of the handshake says about the messages read so far.\<close>

definition confirmation :: "auth_lib \<Rightarrow> (goerror + bytes) list \<Rightarrow> peerData \<Rightarrow> bool" where
  "confirmation lib inps pd \<longleftrightarrow>
     (\<exists>raw old. Inr (byteAuthConfirmed # raw) \<in> set inps \<and> decPeer lib raw old = Inr pd)"

definition hs_justified ::
    "auth_lib \<Rightarrow> local_peer \<Rightarrow> string \<Rightarrow> (goerror + bytes) list \<Rightarrow> hs_status \<Rightarrow> bool" where
  "hs_justified lib peer c inps status \<longleftrightarrow>
     (let proven = lp_keys peer = [] \<or> (\<exists>raw. Inr (byteAuthResponse # raw) \<in> set inps \<and> proves lib peer c raw)
      in case status of
           Running st \<Rightarrow> hs_challenge st = c \<and> (confirmedIn st \<longrightarrow> proven) \<and>
             (confirmedOut st \<longrightarrow> confirmation lib inps (hs_res st))
         | Authenticated pd \<Rightarrow> proven \<and> confirmation lib inps pd
         | _ \<Rightarrow> True)"

lemma hs_justified_mono:
  "hs_justified lib peer c inps status \<Longrightarrow> hs_justified lib peer c (inps @ later) status"
  by (auto simp: hs_justified_def confirmation_def Let_def split: hs_status.splits)

lemma confirmation_last:
  "decPeer lib raw old = Inr pd \<Longrightarrow> confirmation lib (inps @ [Inr (byteAuthConfirmed # raw)]) pd"
  by (auto simp: confirmation_def)

lemma hs_step_justified:
  assumes "hs_justified lib peer c inps (Running st)"
  shows "hs_justified lib peer c (inps @ [inp]) (snd (hs_step lib wr peer now st inp))"
proof (cases inp)
  case (Inr p)
  have run: "hs_justified lib peer c (inps @ [inp]) (Running st)"
    using assms by (rule hs_justified_mono)
  show ?thesis
  proof (cases p)
    case (Cons b raw)
    consider "b = byteAuthConfirmed" | "b = byteAuthResponse" | "b \<noteq> byteAuthConfirmed" "b \<noteq> byteAuthResponse"
      by blast
    then show ?thesis
    proof cases
      case 1
      then show ?thesis
        using run Inr Cons confirmation_last [of lib raw "hs_res st" _ inps]
        by (auto simp: hs_step_def hs_justified_def Let_def wire split: sum.split)
    next
      case 2
      then show ?thesis
        using run Inr Cons verifyResponse_proves [of lib peer c raw]
        by (auto simp: hs_step_def hs_justified_def Let_def wire split: sum.split option.split)
    next
      case 3
      then show ?thesis
        using run Inr Cons
        by (auto simp: hs_step_def hs_justified_def [of _ _ _ _ "AuthFailed _"] split: sum.split option.split)
    qed
  qed (simp add: Inr hs_step_def hs_justified_def)
qed (simp add: hs_step_def hs_justified_def)

lemma hs_loop_justified:
  "hs_justified lib peer c inps status \<Longrightarrow>
   hs_justified lib peer c (inps @ later) (snd (hs_loop lib wr peer now (out, status) later))"
proof (induction later arbitrary: inps status out)
  case Nil
  then show ?case by (cases status) simp_all
next
  case (Cons inp later)
  show ?case
  proof (cases status)
    case (Running st)
    obtain frames status' where step: "hs_step lib wr peer now st inp = (frames, status')"
      by (cases "hs_step lib wr peer now st inp")
    have "hs_justified lib peer c (inps @ [inp]) status'"
      using hs_step_justified [of lib peer c inps st inp wr now] Cons.prems Running step by simp
    from Cons.IH [OF this, of "out @ frames"] show ?thesis
      using Running step by simp
  qed (use hs_justified_mono [OF Cons.prems] in simp_all)
qed

lemma hs_start_justified:
  "hs_justified lib peer (if lp_keys peer = [] then '''' else sprintf_x b) [] (snd (hs_start lib wr peer b now))"
  by (auto simp: hs_start_def hs_justified_def generateChallengeWithIds_def Let_def
      split: sum.split option.split prod.split)

text \<open>A plain library and two peers for concrete runs.\<close>

definition plain_lib :: auth_lib where
  "plain_lib = \<lparr>hmacHex = (\<lambda>key challenge. key @ challenge),
     encChal = (\<lambda>c. Inr (bytes_of (ch_challenge c))),
     decChal = (\<lambda>raw. Inr \<lparr>ch_challenge = string_of raw, ch_ids = [''k'']\<rparr>),
     encProof = (\<lambda>p. Inr (bytes_of (pf_proof p))),
     decProof = (\<lambda>raw. \<lparr>pf_proof = string_of raw, pf_id = ''k''\<rparr>),
     encPeer = (\<lambda>pd. Inr (bytes_of (pd_id pd))),
     decPeer = (\<lambda>raw old. Inr (old\<lparr>pd_id := string_of raw\<rparr>)),
     wrapErr = (\<lambda>e _. e), goos = ''linux''\<rparr>"

definition alice :: local_peer where
  "alice = \<lparr>lp_id = ''alice'', lp_name = ''a'', lp_friendly = True, lp_roles = [],
     lp_keys = [\<lparr>pk_id = ''k'', pk_key = ''secret''\<rparr>], lp_start = 0\<rparr>"

definition bob :: local_peer where
  "bob = alice\<lparr>lp_id := ''bob''\<rparr>"

section \<open>Properties\<close>

text \<open>
  C5.  A connection is only authenticated after the remote peer has confirmed with its peer
  data, which is the data returned, and, if the local peer has keys, after a response that
  carries the HMAC of this connection's challenge under one of these keys.
\<close>

theorem authenticated_only_with_proof:
  assumes "snd (startAuthWSHandshake lib wr peer b now inps) = Authenticated pd"
  shows "(\<exists>raw old. Inr (byteAuthConfirmed # raw) \<in> set inps \<and> decPeer lib raw old = Inr pd) \<and>
    (lp_keys peer \<noteq> [] \<longrightarrow> (\<exists>raw. Inr (byteAuthResponse # raw) \<in> set inps \<and>
       (\<exists>k \<in> set (lp_keys peer). pk_id k = pf_id (decProof lib raw) \<and>
          getProof lib (sprintf_x b) (pk_key k) = pf_proof (decProof lib raw))))"
proof -
  let ?s = "hs_start lib wr peer b now"
  have "hs_justified lib peer (if lp_keys peer = [] then '''' else sprintf_x b) ([] @ inps)
      (snd (hs_loop lib wr peer now (fst ?s, snd ?s) inps))"
    by (rule hs_loop_justified) (rule hs_start_justified)
  then show ?thesis
    using assms
    by (auto simp: startAuthWSHandshake_def hs_justified_def confirmation_def proves_def getProof_def Let_def
        split: if_splits)
qed

section \<open>Complete handshakes\<close>

definition chal_of :: "local_peer \<Rightarrow> bytes \<Rightarrow> challengeWithIds" where
  "chal_of peer b = \<lparr>ch_challenge = sprintf_x b, ch_ids = map pk_id (lp_keys peer)\<rparr>"

definition proof_of :: "auth_lib \<Rightarrow> bytes \<Rightarrow> presharedKey \<Rightarrow> proofWithID" where
  "proof_of lib b k = \<lparr>pf_proof = hmacHex lib (pk_key k) (sprintf_x b), pf_id = pk_id k\<rparr>"

text \<open>
  JSON decodes what it encoded, for the messages \<open>A\<close> and its correspondent \<open>B\<close> exchange.
\<close>

definition json_ok :: "auth_lib \<Rightarrow> local_peer \<Rightarrow> bytes \<Rightarrow> int \<Rightarrow> local_peer \<Rightarrow> bool" where
  "json_ok lib A b now B \<longleftrightarrow>
     (\<exists>m. encChal lib (chal_of A b) = Inr m \<and> decChal lib m = Inr (chal_of A b)) \<and>
     (\<forall>k \<in> set (lp_keys B). \<exists>q. encProof lib (proof_of lib b k) = Inr q \<and> decProof lib q = proof_of lib b k) \<and>
     (\<exists>p d. generatePeerData lib A now = Inr p \<and> decPeer lib p no_peerData = Inr d)"

definition same_keys :: "local_peer \<Rightarrow> local_peer \<Rightarrow> bool" where
  "same_keys A B \<longleftrightarrow>
     (\<exists>k \<in> set (lp_keys A). \<exists>k' \<in> set (lp_keys B). pk_id k = pk_id k') \<and>
     (\<forall>k \<in> set (lp_keys A). \<forall>k' \<in> set (lp_keys B). pk_id k = pk_id k' \<longrightarrow> pk_key k = pk_key k')"

lemma verify_proof_of:
  assumes "same_keys A B" and "k \<in> set (lp_keys B)" and "pk_id k \<in> set (map pk_id (lp_keys A))"
    and "decProof lib q = proof_of lib b k"
  shows "verifyResponse lib A (sprintf_x b) q = None"
proof -
  obtain k' where k': "k' \<in> set (lp_keys A)" "pk_id k' = pk_id k" using assms(3) by auto
  have "\<forall>k' \<in> set (lp_keys A). pk_id k' = pk_id k \<longrightarrow> pk_key k' = pk_key k"
    using assms(1,2) by (auto simp: same_keys_def)
  then show ?thesis
    using k' assms(4) by (simp add: verifyResponse_def Let_def proof_of_def verify_keys_ok [of k'])
qed

text \<open>
  The messages a peer expects: the challenge \<open>mB\<close> of the other side, a proof \<open>qB\<close> for its own
  challenge, and peer data \<open>pB\<close>; it sends \<open>mA\<close>, \<open>qA\<close> and \<open>pA\<close> in return.
\<close>

lemma handshake_run:
  assumes "lp_keys A \<noteq> []"
    and "encChal lib (chal_of A b) = Inr mA" and "decChal lib mB = Inr (chal_of B b')"
    and "find_key (lp_keys A) (map pk_id (lp_keys B)) = Some kA"
    and "encProof lib (proof_of lib b' kA) = Inr qA"
    and "verifyResponse lib A (sprintf_x b) qB = None"
    and "generatePeerData lib A now = Inr pA" and "decPeer lib pB no_peerData = Inr dB"
  shows "startAuthWSHandshake lib (\<lambda>_. None) A b now
      [Inr (byteAuthChallenge # mB), Inr (byteAuthResponse # qB), Inr (byteAuthConfirmed # pB)] =
    ([byteAuthChallenge # mA, byteAuthResponse # qA, byteAuthConfirmed # pA], Authenticated dB)"
proof -
  have start: "hs_start lib (\<lambda>_. None) A b now = ([byteAuthChallenge # mA],
      Running \<lparr>confirmedIn = False, confirmedOut = False, hs_challenge = sprintf_x b, hs_res = no_peerData\<rparr>)"
    using assms(1,2) by (simp add: hs_start_def generateChallengeWithIds_def Let_def chal_of_def)
  have chal: "processChallengeMsg lib A mB = Inr (byteAuthResponse # qA)"
    using assms(3,4,5) by (simp add: processChallengeMsg_def getProof_def Let_def chal_of_def proof_of_def)
  show ?thesis
    using assms(6-8) chal
    by (simp add: startAuthWSHandshake_def start hs_step_def wire Let_def)
qed

lemma sprintf_x_one: "sprintf_x [1] = ''01''"
  by code_simp

lemma alice_and_bob:
  "startAuthWSHandshake plain_lib (\<lambda>_. None) alice [1] 5
     [Inr (byteAuthChallenge # bytes_of ''02''), Inr (byteAuthResponse # bytes_of ''secret01''),
      Inr (byteAuthConfirmed # bytes_of ''bob'')] =
   ([byteAuthChallenge # bytes_of ''01'', byteAuthResponse # bytes_of ''secret02'',
     byteAuthConfirmed # bytes_of ''alice''], Authenticated (no_peerData\<lparr>pd_id := ''bob''\<rparr>))"
  by (simp add: startAuthWSHandshake_def hs_start_def hs_step_def generateChallengeWithIds_def
      processChallengeMsg_def verifyResponse_def generatePeerData_def getProof_def plain_lib_def alice_def
      sprintf_x_one Let_def wire)

theorem authenticated_only_with_proof_witness:
  "\<exists>raw. Inr (byteAuthResponse # raw) \<in> set [Inr (byteAuthChallenge # bytes_of ''02''),
        Inr (byteAuthResponse # bytes_of ''secret01''), Inr (byteAuthConfirmed # bytes_of ''bob'') :: goerror + bytes] \<and>
     (\<exists>k \<in> set (lp_keys alice). pk_id k = pf_id (decProof plain_lib raw) \<and>
        getProof plain_lib (sprintf_x [1]) (pk_key k) = pf_proof (decProof plain_lib raw))"
proof -
  have "lp_keys alice \<noteq> []" by (simp add: alice_def)
  moreover have "snd (startAuthWSHandshake plain_lib (\<lambda>_. None) alice [1] 5
     [Inr (byteAuthChallenge # bytes_of ''02''), Inr (byteAuthResponse # bytes_of ''secret01''),
      Inr (byteAuthConfirmed # bytes_of ''bob'')]) = Authenticated (no_peerData\<lparr>pd_id := ''bob''\<rparr>)"
    by (simp only: alice_and_bob snd_conv)
  ultimately show ?thesis using authenticated_only_with_proof by blast
qed


lemma plain_json_ok: "lp_keys A = lp_keys alice \<Longrightarrow> lp_keys B = lp_keys alice \<Longrightarrow> json_ok plain_lib A b now B"
  by (simp add: json_ok_def plain_lib_def alice_def chal_of_def proof_of_def generatePeerData_def Let_def)


text \<open>
  C34.  A remote peer without any key is authenticated by a peer that has one: it sends back
  every message it receives.  The challenge is answered by the peer that issued it.
\<close>

theorem echo_is_authenticated:
  assumes "lp_keys A \<noteq> []" and "same_keys A A" and "json_ok lib A b now A"
  shows "\<exists>out d. startAuthWSHandshake lib (\<lambda>_. None) A b now (map Inr out) = (out, Authenticated d)"
proof -
  obtain k where k: "k \<in> set (lp_keys A)" using assms(1) by (cases "lp_keys A") auto
  then obtain kA where kA: "find_key (lp_keys A) (map pk_id (lp_keys A)) = Some kA"
    using find_key_exists [OF k, of "map pk_id (lp_keys A)"] by auto
  obtain m q p d where a: "encChal lib (chal_of A b) = Inr m" "decChal lib m = Inr (chal_of A b)"
    "encProof lib (proof_of lib b kA) = Inr q" "decProof lib q = proof_of lib b kA"
    "generatePeerData lib A now = Inr p" "decPeer lib p no_peerData = Inr d"
    using assms(3) find_key_mem [OF kA] unfolding json_ok_def by metis
  have "verifyResponse lib A (sprintf_x b) q = None"
    using verify_proof_of [OF assms(2) _ _ a(4)] find_key_mem [OF kA] by auto
  then show ?thesis
    using handshake_run [of A lib b m m A b kA q q now p p d] a kA assms(1)
    by (intro exI [of _ "[byteAuthChallenge # m, byteAuthResponse # q, byteAuthConfirmed # p]"] exI [of _ d]) simp
qed

theorem echo_is_authenticated_witness:
  "\<exists>out d. startAuthWSHandshake plain_lib (\<lambda>_. None) alice [1] 5 (map Inr out) = (out, Authenticated d)"
  by (rule echo_is_authenticated) (simp_all add: plain_json_ok same_keys_def alice_def [THEN arg_cong [of _ _ lp_keys]])

text \<open>
  An empty message during the handshake ends the process: reading its first byte panics
  in a goroutine nobody recovers.
\<close>

theorem empty_message_ends_process:
  assumes "snd (hs_start lib wr peer b now) = Running st"
  shows "authenticateWS t False (snd (startAuthWSHandshake lib wr peer b now (Inr [] # inps))) = None"
proof -
  obtain out where "hs_start lib wr peer b now = (out, Running st)"
    using assms by (cases "hs_start lib wr peer b now") auto
  then show ?thesis
    by (simp add: startAuthWSHandshake_def hs_step_def authenticateWS_def)
qed

theorem empty_message_ends_process_witness:
  "authenticateWS ''8s'' False (snd (startAuthWSHandshake plain_lib (\<lambda>_. None) alice [1] 5 (Inr [] # []))) = None"
  by (rule empty_message_ends_process)
     (simp add: hs_start_def generateChallengeWithIds_def plain_lib_def alice_def Let_def)

text \<open>
  Of two versions that parse, a remote one is refused exactly when its major number is
  one more or one less than the local one, with the same text in both cases; a difference of
  two is accepted.
\<close>

theorem only_neighbouring_majors_refused:
  assumes "parse localVersion = Inr l" and "parse remoteVersion = Inr r"
  shows "(checkProtocolCompatibility wrap parse localVersion remoteVersion = None \<longleftrightarrow> l \<noteq> r + 1 \<and> r \<noteq> l + 1) \<and>
    (checkProtocolCompatibility wrap parse localVersion remoteVersion
       \<in> {None, Some (ErrorString errRemoteVersionHigher)})"
proof -
  have "sint (l - r) = - 1 \<longleftrightarrow> l - r = - 1"
    using signed_word_eqI [of "l - r" "- 1"] by auto
  moreover have "sint (l - r) = 1 \<longleftrightarrow> l - r = 1"
    using signed_word_eqI [of "l - r" 1] by auto
  moreover have "l - r = - 1 \<longleftrightarrow> r = l + 1"
  proof
    assume "l - r = - 1"
    then have "l - (l - r) = l - (- 1)" by (rule arg_cong)
    then show "r = l + 1" by simp
  qed simp
  moreover have "l - r = 1 \<longleftrightarrow> l = r + 1"
    by (simp only: diff_eq_eq add.commute)
  ultimately show ?thesis
    using assms by (auto simp: checkProtocolCompatibility_def Let_def errRemoteVersionHigher_def errLocalVersionHigher_def)
qed

theorem only_neighbouring_majors_refused_witness:
  "(checkProtocolCompatibility (\<lambda>e _. e) (\<lambda>s. Inr (of_nat (length s))) protocolVersion ''1234567'' = None
      \<longleftrightarrow> (5 :: u64) \<noteq> 7 + 1 \<and> (7 :: u64) \<noteq> 5 + 1) \<and>
    (checkProtocolCompatibility (\<lambda>e _. e) (\<lambda>s. Inr (of_nat (length s))) protocolVersion ''1234567''
       \<in> {None, Some (ErrorString errRemoteVersionHigher)})"
  by (rule only_neighbouring_majors_refused) (simp_all add: protocolVersion_def)

end
