(* ===== verification/PeerState.thy ===== *)
theory PeerState
  imports Middleware Streams Destination Auth
begin

text \<open>
  The state of a peer: its units, roles, destinations and addresses (Peer.go, Unit.go, Role.go)
  and the contexts of incoming messages (Contexts.go).  Pointers to units are numbers; roles
  and destinations are found by their names and only there.  Goroutines a call starts, handlers
  of the application it runs and frames it writes are recorded in the order they happen.
\<close>

section \<open>Contexts\<close>

text \<open>Functions the application registers are named by numbers.\<close>

type_synonym handler = nat

record message_ctx =
  mc_conn :: conn
  mc_unit :: unitref
  mc_role :: string
  mc_event :: string
  mc_Data :: goval
  mc_T :: byte
  mc_origin :: bytes
  mc_w :: byte
  mc_raw :: slice
  mc_channel :: correlation

record request_ctx =
  rq_msg :: message_ctx
  rq_Res :: goval
  rq_Err :: "goerror option"
  rq_corr :: correlation
  rq_r :: bool
  rq_cbs :: "handler list"

text \<open>
  \<open>ReaderRequestContext\<close> and \<open>WriterRequestContext\<close> embed a \<open>RequestContext\<close> and have a field
  \<open>cbs\<close> of their own, which hides the one of the embedded context.
\<close>

record stream_ctx =
  sx_req :: request_ctx
  sx_cbs :: "handler list"

text \<open>What a handler can read from its context.\<close>

definition ctx_Role :: "message_ctx \<Rightarrow> string" where
  "ctx_Role ctx = mc_role ctx"

definition ctx_Event :: "message_ctx \<Rightarrow> string" where
  "ctx_Event ctx = mc_event ctx"

definition ctx_Unit :: "message_ctx \<Rightarrow> unitref" where
  "ctx_Unit ctx = mc_unit ctx"

definition ctx_Conn :: "message_ctx \<Rightarrow> conn" where
  "ctx_Conn ctx = mc_conn ctx"

definition ctx_String :: "message_ctx \<Rightarrow> string" where
  "ctx_String ctx = string_of (mc_origin ctx)"

definition ctx_OriginData :: "message_ctx \<Rightarrow> byte \<times> bytes" where
  "ctx_OriginData ctx = (mc_T ctx, mc_origin ctx)"

section \<open>Roles and units\<close>

record role =
  r_name :: string
  r_active :: bool
  r_mwMessage :: "string \<Rightarrow> handler list option"
  r_mwRequest :: "string \<Rightarrow> handler list option"
  r_mwReader :: "string \<Rightarrow> handler list option"
  r_mwWriter :: "string \<Rightarrow> handler list option"
  r_statusHandlers :: "handler list"

record unit_state =
  u_id :: string
  u_name :: string
  u_friendly :: bool
  u_meta :: MetaInfo
  u_roles :: "string set"
  u_conns :: "conn set"
  u_streamCtr :: streamController
  u_callbackCtr :: "message_ctx reqCallbackController"
  u_closeHandlers :: "handler list"
  u_lastRoleSession :: int

section \<open>The peer\<close>

text \<open>
  What one call of \<open>writeMsgToSomeConnection\<close> meets: the order in which maps are visited, the
  connections that look locked, the connections whose writing fails, and the clock.
\<close>

record net_env =
  ne_order :: "conn list"
  ne_locked :: "conn \<Rightarrow> bool"
  ne_fail :: "conn \<Rightarrow> goerror option"
  ne_rnd :: nat
  ne_roles :: "unitref \<Rightarrow> string list"
  ne_chans :: "conn \<Rightarrow> correlation list"

datatype go =
    GoRunOnClose unitref "goerror option"
  | GoReconn string bool
  | GoReadConn unitref conn
  | GoHeartBeat unitref conn
  | GoBroadcastRoles
  | GoRunOnRole string
  | GoIntroduce unitref string
  | GoAcquaint unitref
  | GoCloseConn conn nat string
  | GoCloseUnit unitref nat string
  | GoOnNewUnitRoles unitref
  | GoConnect string
  | GoRespond unitref correlation "message_ctx callback"
  | GoEmitMsg string message_ctx
  | GoEmitRequest string request_ctx
  | GoEmitReader string stream_ctx
  | GoEmitWriter string stream_ctx

datatype ran =
    RanUnit handler unitref
  | RanRole handler string
  | RanStatus handler string
  | RanClose handler unitref "goerror option"

record peer =
  p_id :: string
  p_name :: string
  p_friendly :: bool
  p_units :: "string \<Rightarrow> unitref option"
  p_store :: "unitref \<Rightarrow> unit_state"
  p_next :: unitref
  p_roles :: "string \<Rightarrow> role option"
  p_destinations :: "string \<Rightarrow> destination option"
  p_addrUnits :: addressScheme
  p_unitHandlers :: "handler list"
  p_roleHandlers :: "handler list"
  p_lastRolesChange :: int
  p_net :: "nat \<Rightarrow> net_env"
  p_calls :: nat
  p_msgs :: "(unitref \<times> bytes) list"
  p_frames :: "(conn \<times> bytes) list"
  p_closes :: "(conn \<times> nat \<times> string) list"
  p_go :: "go list"
  p_ran :: "ran list"

definition spawn :: "go \<Rightarrow> peer \<Rightarrow> peer" where
  "spawn g p = p\<lparr>p_go := p_go p @ [g]\<rparr>"

definition set_unit :: "unitref \<Rightarrow> unit_state \<Rightarrow> peer \<Rightarrow> peer" where
  "set_unit u s p = p\<lparr>p_store := (p_store p)(u := s)\<rparr>"

definition closeConnWithCode :: "conn \<Rightarrow> nat \<Rightarrow> string \<Rightarrow> peer \<Rightarrow> peer" where
  "closeConnWithCode c code message p = p\<lparr>p_closes := p_closes p @ [(c, code, message)]\<rparr>"

definition no_unit :: unit_state where
  "no_unit = \<lparr>u_id = [], u_name = [], u_friendly = False, u_meta = pd_meta no_peerData, u_roles = {},
     u_conns = {}, u_streamCtr = createStreamController, u_callbackCtr = createCallbackController,
     u_closeHandlers = [], u_lastRoleSession = 0\<rparr>"

definition NewPeer :: "string \<Rightarrow> string \<Rightarrow> bool \<Rightarrow> (nat \<Rightarrow> net_env) \<Rightarrow> peer" where
  "NewPeer i name friendly net =
     \<lparr>p_id = i, p_name = name, p_friendly = friendly, p_units = Map.empty, p_store = (\<lambda>_. no_unit),
      p_next = 0, p_roles = Map.empty, p_destinations = Map.empty, p_addrUnits = newAddressScheme,
      p_unitHandlers = [], p_roleHandlers = [], p_lastRolesChange = 0, p_net = net, p_calls = 0,
      p_msgs = [], p_frames = [], p_closes = [], p_go = [], p_ran = []\<rparr>"

lemma spawn_simps [simp]:
  "p_units (spawn g p) = p_units p" "p_store (spawn g p) = p_store p" "p_next (spawn g p) = p_next p"
  "p_roles (spawn g p) = p_roles p" "p_destinations (spawn g p) = p_destinations p"
  "p_addrUnits (spawn g p) = p_addrUnits p" "p_net (spawn g p) = p_net p" "p_calls (spawn g p) = p_calls p"
  "p_msgs (spawn g p) = p_msgs p" "p_frames (spawn g p) = p_frames p" "p_closes (spawn g p) = p_closes p"
  "p_go (spawn g p) = p_go p @ [g]" "p_ran (spawn g p) = p_ran p" "p_id (spawn g p) = p_id p"
  "p_friendly (spawn g p) = p_friendly p"
  by (simp_all add: spawn_def)

lemma set_unit_simps [simp]:
  "p_units (set_unit u s p) = p_units p" "p_store (set_unit u s p) = (p_store p)(u := s)"
  "p_next (set_unit u s p) = p_next p" "p_roles (set_unit u s p) = p_roles p"
  "p_destinations (set_unit u s p) = p_destinations p" "p_addrUnits (set_unit u s p) = p_addrUnits p"
  "p_net (set_unit u s p) = p_net p" "p_calls (set_unit u s p) = p_calls p"
  "p_msgs (set_unit u s p) = p_msgs p" "p_frames (set_unit u s p) = p_frames p"
  "p_closes (set_unit u s p) = p_closes p" "p_go (set_unit u s p) = p_go p" "p_ran (set_unit u s p) = p_ran p"
  "p_id (set_unit u s p) = p_id p" "p_friendly (set_unit u s p) = p_friendly p"
  by (simp_all add: set_unit_def)

end
