(* ===== verification/Connections.thy ===== *)
theory Connections
  imports PeerState
begin

text \<open>
  The connections of a unit (unit_internal.go): their deletion with everything that follows
  for the peer (peer_internal.go), and the choice of a connection to write a message to.
\<close>

section \<open>Deleting units and connections\<close>

text \<open>
  The loop over the roles of the unit stops at the first role without destination.
  \<open>order\<close> is the order of iteration over the map of roles.
\<close>

fun delete_from_dests ::
    "string list \<Rightarrow> unitref \<Rightarrow> (string \<Rightarrow> destination option) \<Rightarrow> (string \<Rightarrow> destination option)" where
  "delete_from_dests [] u dests = dests"
| "delete_from_dests (r # order) u dests =
     (case dests r of
        None \<Rightarrow> dests
      | Some dest \<Rightarrow> delete_from_dests order u (dests(r \<mapsto> dest_deleteUnit dest u)))"

definition peer_deleteUnit :: "string list \<Rightarrow> unitref \<Rightarrow> goerror option \<Rightarrow> peer \<Rightarrow> peer" where
  "peer_deleteUnit order u err p =
     spawn (GoRunOnClose u err)
       (p\<lparr>p_units := (p_units p)(u_id (p_store p u) := None),
          p_destinations := delete_from_dests order u (p_destinations p)\<rparr>)"

text \<open>\<open>wrap\<close> is \<open>errors.Wrap\<close>; \<open>env\<close> gives the orders of iteration.\<close>

definition deleteConnection ::
    "(goerror \<Rightarrow> string \<Rightarrow> goerror) \<Rightarrow> net_env \<Rightarrow> unitref \<Rightarrow> conn \<Rightarrow> goerror option \<Rightarrow> peer \<Rightarrow> peer" where
  "deleteConnection wrap env u c err p =
     (let s = p_store p u;
          s1 = s\<lparr>u_streamCtr := onConnClosed wrap (ne_chans env c) (u_streamCtr s) (Some c) err\<rparr>;
          s2 = s1\<lparr>u_conns := u_conns s1 - {c}\<rparr>;
          p1 = set_unit u s2 p;
          p2 = (if card (u_conns s2) < 1 then peer_deleteUnit (ne_roles env u) u err p1 else p1)
      in case loadByConn (p_addrUnits p2) (Some c) of
           None \<Rightarrow> p2
         | Some addr \<Rightarrow>
             spawn (GoReconn addr False) (p2\<lparr>p_addrUnits := unbindAddr (p_addrUnits p2) addr\<rparr>))"

section \<open>Writing\<close>

definition writeToConn ::
    "(goerror \<Rightarrow> string \<Rightarrow> goerror) \<Rightarrow> net_env \<Rightarrow> unitref \<Rightarrow> conn \<Rightarrow> bytes \<Rightarrow> peer \<Rightarrow> goerror option \<times> peer" where
  "writeToConn wrap env u c msg p =
     (case ne_fail env c of
        Some err \<Rightarrow> (Some err, deleteConnection wrap env u c (Some err) p)
      | None \<Rightarrow> (None, p\<lparr>p_frames := p_frames p @ [(c, msg)]\<rparr>))"

text \<open>The range over the connections: the connection written to, the omitted ones, the count.\<close>

fun range_conns ::
    "(goerror \<Rightarrow> string \<Rightarrow> goerror) \<Rightarrow> net_env \<Rightarrow> unitref \<Rightarrow> bytes \<Rightarrow> conn list \<Rightarrow> conn list \<Rightarrow> nat \<Rightarrow> peer
     \<Rightarrow> conn option \<times> conn list \<times> nat \<times> peer" where
  "range_conns wrap env u msg [] omitted n p = (None, omitted, n, p)"
| "range_conns wrap env u msg (c # cs) omitted n p =
     (if ne_locked env c then range_conns wrap env u msg cs (omitted @ [c]) (n + 1) p
      else case writeToConn wrap env u c msg p of
          (None, p1) \<Rightarrow> (Some c, omitted, n + 1, p1)
        | (Some _, p1) \<Rightarrow> range_conns wrap env u msg cs omitted (n + 1) p1)"

text \<open>The loop over the omitted connections, from the turn \<open>i\<close> on.\<close>

fun try_omitted ::
    "(goerror \<Rightarrow> string \<Rightarrow> goerror) \<Rightarrow> net_env \<Rightarrow> unitref \<Rightarrow> bytes \<Rightarrow> conn list \<Rightarrow> peer \<Rightarrow> conn option \<times> peer" where
  "try_omitted wrap env u msg [] p = (None, p)"
| "try_omitted wrap env u msg (c # cs) p =
     (if c \<notin> u_conns (p_store p u) then (None, p)
      else case writeToConn wrap env u c msg p of
          (None, p1) \<Rightarrow> (Some c, p1)
        | (Some _, p1) \<Rightarrow> try_omitted wrap env u msg cs p1)"

definition no_conns_err :: "nat \<Rightarrow> string \<Rightarrow> goerror" where
  "no_conns_err n i = ErrorString (''No available connections to send data. Tried connections: '' @
     show_nat n @ '', unit: '' @ i)"

definition write_some ::
    "(goerror \<Rightarrow> string \<Rightarrow> goerror) \<Rightarrow> net_env \<Rightarrow> unitref \<Rightarrow> bytes \<Rightarrow> peer \<Rightarrow> (goerror + conn) \<times> peer" where
  "write_some wrap env u msg p =
     (case range_conns wrap env u msg (filter (\<lambda>c. c \<in> u_conns (p_store p u)) (ne_order env)) [] 0 p of
        (Some sent, _, _, p1) \<Rightarrow> (Inr sent, p1)
      | (None, omittedConns, n, p1) \<Rightarrow>
          let N = length omittedConns;
              turns = map (\<lambda>i. omittedConns ! ((i + ne_rnd env) mod N)) [0..<N]
          in case try_omitted wrap env u msg turns p1 of
               (Some c, p2) \<Rightarrow> (Inr c, p2)
             | (None, p2) \<Rightarrow> (Inl (no_conns_err n (u_id (p_store p u))), p2))"

text \<open>One call, in the environment that this call meets.\<close>

definition writeMsgToSomeConnection ::
    "(goerror \<Rightarrow> string \<Rightarrow> goerror) \<Rightarrow> unitref \<Rightarrow> bytes \<Rightarrow> peer \<Rightarrow> (goerror + conn) \<times> peer" where
  "writeMsgToSomeConnection wrap u msg p =
     write_some wrap (p_net p (p_calls p)) u msg
       (p\<lparr>p_calls := p_calls p + 1, p_msgs := p_msgs p @ [(u, msg)]\<rparr>)"


section \<open>Lemmas\<close>

lemma peer_deleteUnit_simps [simp]:
  "p_store (peer_deleteUnit order u err p) = p_store p"
  "p_units (peer_deleteUnit order u err p) = (p_units p)(u_id (p_store p u) := None)"
  "p_frames (peer_deleteUnit order u err p) = p_frames p"
  "p_msgs (peer_deleteUnit order u err p) = p_msgs p"
  "p_addrUnits (peer_deleteUnit order u err p) = p_addrUnits p"
  "p_net (peer_deleteUnit order u err p) = p_net p"
  "p_calls (peer_deleteUnit order u err p) = p_calls p"
  "p_roles (peer_deleteUnit order u err p) = p_roles p"
  "p_closes (peer_deleteUnit order u err p) = p_closes p"
  by (simp_all add: peer_deleteUnit_def)

lemma deleteConnection_simps [simp]:
  "p_frames (deleteConnection wrap env u c err p) = p_frames p"
  "p_msgs (deleteConnection wrap env u c err p) = p_msgs p"
  "p_net (deleteConnection wrap env u c err p) = p_net p"
  "p_calls (deleteConnection wrap env u c err p) = p_calls p"
  "p_roles (deleteConnection wrap env u c err p) = p_roles p"
  by (simp_all add: deleteConnection_def Let_def split: option.split)

lemma deleteConnection_store:
  "p_store (deleteConnection wrap env u c err p) = (p_store p)(u := (p_store p u)\<lparr>
     u_streamCtr := onConnClosed wrap (ne_chans env c) (u_streamCtr (p_store p u)) (Some c) err,
     u_conns := u_conns (p_store p u) - {c}\<rparr>)"
  by (simp add: deleteConnection_def Let_def split: option.split)

lemma deleteConnection_units:
  "p_units (deleteConnection wrap env u c err p) =
    (if card (u_conns (p_store p u) - {c}) < 1 then (p_units p)(u_id (p_store p u) := None) else p_units p)"
  by (simp add: deleteConnection_def Let_def split: option.split)

text \<open>A unit without connections is not a unit of the peer.\<close>

definition gone :: "unitref \<Rightarrow> peer \<Rightarrow> bool" where
  "gone u p \<longleftrightarrow> (u_conns (p_store p u) = {} \<longrightarrow> p_units p (u_id (p_store p u)) = None)"

lemma writeToConn_ok:
  "ne_fail env c = None \<Longrightarrow> writeToConn wrap env u c msg p = (None, p\<lparr>p_frames := p_frames p @ [(c, msg)]\<rparr>)"
  by (simp add: writeToConn_def)

lemma writeToConn_fail:
  "ne_fail env c = Some e \<Longrightarrow> writeToConn wrap env u c msg p = (Some e, deleteConnection wrap env u c (Some e) p)"
  by (simp add: writeToConn_def)

text \<open>The outcome of the two loops, in the form the caller needs.\<close>

definition tried ::
    "net_env \<Rightarrow> unitref \<Rightarrow> bytes \<Rightarrow> conn set \<Rightarrow> peer \<Rightarrow> conn option \<Rightarrow> peer \<Rightarrow> bool" where
  "tried env u msg cs p res p' \<longleftrightarrow> u_id (p_store p' u) = u_id (p_store p u) \<and>
     p_msgs p' = p_msgs p \<and>
     (case res of
        Some c \<Rightarrow> c \<in> cs \<and> ne_fail env c = None \<and> p_frames p' = p_frames p @ [(c, msg)]
      | None \<Rightarrow> p_frames p' = p_frames p \<and> (\<forall>c \<in> cs. ne_fail env c \<noteq> None) \<and>
          u_conns (p_store p' u) = u_conns (p_store p u) - cs \<and>
          (finite (u_conns (p_store p u)) \<longrightarrow> cs \<noteq> {} \<or> gone u p \<longrightarrow> gone u p'))"

lemma tried_nothing: "tried env u msg {} p None p"
  by (simp add: tried_def)

lemma tried_sent:
  "ne_fail env c = None \<Longrightarrow> c \<in> cs \<Longrightarrow> tried env u msg cs p (Some c) (p\<lparr>p_frames := p_frames p @ [(c, msg)]\<rparr>)"
  by (simp add: tried_def)

lemma tried_failed:
  assumes "ne_fail env c = Some e"
    and "tried env u msg cs (deleteConnection wrap env u c (Some e) p) res p'"
  shows "tried env u msg (insert c cs) p res p'"
proof -
  let ?q = "deleteConnection wrap env u c (Some e) p"
  have "finite (u_conns (p_store p u)) \<Longrightarrow> gone u ?q"
    by (auto simp: gone_def deleteConnection_store deleteConnection_units)
  moreover have "u_conns (p_store ?q u) = u_conns (p_store p u) - {c}"
    "u_id (p_store ?q u) = u_id (p_store p u)"
    by (simp_all add: deleteConnection_store)
  ultimately show ?thesis
    using assms by (auto simp: tried_def split: option.splits)
qed

lemma range_conns_tried:
  "range_conns wrap env u msg cs om n p = (res, om', n', p') \<Longrightarrow>
   tried env u msg (set (filter (\<lambda>c. \<not> ne_locked env c) cs)) p res p' \<and>
   (res = None \<longrightarrow> om' = om @ filter (ne_locked env) cs \<and> n' = n + length cs)"
proof (induction cs arbitrary: om n p)
  case Nil
  then show ?case by (auto simp: tried_nothing)
next
  case (Cons c cs)
  show ?case
  proof (cases "ne_locked env c")
    case True
    then show ?thesis using Cons.IH [of "om @ [c]" "n + 1" p] Cons.prems by simp
  next
    case False
    show ?thesis
    proof (cases "ne_fail env c")
      case None
      then show ?thesis using Cons.prems False by (auto simp: writeToConn_ok intro: tried_sent)
    next
      case (Some e)
      have "range_conns wrap env u msg cs om (n + 1) (deleteConnection wrap env u c (Some e) p) = (res, om', n', p')"
        using Cons.prems False Some by (simp add: writeToConn_fail)
      from Cons.IH [OF this] show ?thesis
        using False tried_failed [OF Some] by auto
    qed
  qed
qed

lemma try_omitted_tried:
  "try_omitted wrap env u msg cs p = (res, p') \<Longrightarrow> distinct cs \<Longrightarrow> set cs \<subseteq> u_conns (p_store p u) \<Longrightarrow>
   tried env u msg (set cs) p res p'"
proof (induction cs arbitrary: p)
  case Nil
  then show ?case by (simp add: tried_nothing)
next
  case (Cons c cs)
  show ?case
  proof (cases "ne_fail env c")
    case None
    then show ?thesis using Cons.prems by (auto simp: writeToConn_ok intro: tried_sent)
  next
    case (Some e)
    have "try_omitted wrap env u msg cs (deleteConnection wrap env u c (Some e) p) = (res, p')"
      using Cons.prems Some by (simp add: writeToConn_fail)
    moreover have "set cs \<subseteq> u_conns (p_store (deleteConnection wrap env u c (Some e) p) u)"
      using Cons.prems(2,3) by (auto simp: deleteConnection_store)
    ultimately have "tried env u msg (set cs) (deleteConnection wrap env u c (Some e) p) res p'"
      using Cons.IH Cons.prems(2) by simp
    then show ?thesis using tried_failed [OF Some] by simp
  qed
qed

lemma tried_twice:
  assumes "tried env u msg A p None q" and "tried env u msg B q res p'"
  shows "tried env u msg (A \<union> B) p res p'"
  using assms by (auto simp: tried_def split: option.splits)

lemma turns_rotate: "map (\<lambda>i. xs ! ((i + r) mod length xs)) [0..<length xs] = rotate r xs"
  by (rule nth_equalityI) (simp_all add: nth_rotate add.commute)

lemma write_some_tried:
  assumes "enumerates (ne_order env) (u_conns (p_store p u))"
  shows "\<exists>res p'. tried env u msg (u_conns (p_store p u)) p res p' \<and>
    write_some wrap env u msg p =
      (case res of Some c \<Rightarrow> Inr c | None \<Rightarrow> Inl (no_conns_err (length (ne_order env)) (u_id (p_store p u))), p')"
proof -
  let ?cs = "ne_order env"
  have cs: "set ?cs = u_conns (p_store p u)" "distinct ?cs" using assms by (simp_all add: enumerates_def)
  have f: "filter (\<lambda>c. c \<in> u_conns (p_store p u)) ?cs = ?cs" using cs by (auto intro: filter_True)
  obtain res om n p1 where r: "range_conns wrap env u msg ?cs [] 0 p = (res, om, n, p1)"
    by (metis prod_cases4)
  note r1 = range_conns_tried [OF r]
  let ?free = "set (filter (\<lambda>c. \<not> ne_locked env c) ?cs)" and ?busy = "filter (ne_locked env) ?cs"
  show ?thesis
  proof (cases res)
    case (Some c)
    then have "tried env u msg (u_conns (p_store p u)) p (Some c) p1"
      using r1 cs by (auto simp: tried_def)
    then show ?thesis using Some by (intro exI [of _ "Some c"] exI [of _ p1]) (simp add: write_some_def f r)
  next
    case None
    with r1 have om: "om = ?busy" "n = length ?cs" and t1: "tried env u msg ?free p None p1" by simp_all
    obtain res2 p2 where t: "try_omitted wrap env u msg (rotate (ne_rnd env) ?busy) p1 = (res2, p2)"
      by (metis surj_pair)
    have "u_conns (p_store p1 u) = u_conns (p_store p u) - ?free" using t1 by (simp add: tried_def)
    then have "tried env u msg (set ?busy) p1 res2 p2"
      using try_omitted_tried [OF t] cs by auto
    from tried_twice [OF t1 this] have "tried env u msg (u_conns (p_store p u)) p res2 p2"
      using cs(1) by (auto simp: Un_def Collect_disj_eq [symmetric] intro: back_subst [of "\<lambda>A. tried env u msg A p res2 p2"])
    then show ?thesis
      using None om t
      by (intro exI [of _ res2] exI [of _ p2])
         (simp add: write_some_def f r Let_def turns_rotate split: option.split)
  qed
qed

section \<open>What writing keeps\<close>

text \<open>
  Writing a message deletes connections and writes frames, nothing else; a relation between
  the peer before and after that both steps keep is kept by the whole call.
\<close>

locale write_steps =
  fixes Q :: "unitref \<Rightarrow> peer \<Rightarrow> peer \<Rightarrow> bool"
  assumes step_refl: "Q u p p"
    and step_trans: "Q u p q \<Longrightarrow> Q u q r \<Longrightarrow> Q u p r"
    and step_delete: "Q u p (deleteConnection wrap env u c err p)"
    and step_frame: "Q u p (p\<lparr>p_frames := p_frames p @ [(c, msg)]\<rparr>)"
begin

lemma writeToConn_keeps: "Q u p (snd (writeToConn wrap env u c msg p))"
  by (simp add: writeToConn_def step_delete step_frame split: option.split)

lemma range_conns_keeps:
  "range_conns wrap env u msg cs om n p = (res, om', n', p') \<Longrightarrow> Q u p p'"
proof (induction cs arbitrary: om n p)
  case (Cons c cs)
  then show ?case using writeToConn_keeps [of u p wrap env c msg]
    by (auto split: if_splits prod.splits option.splits intro: step_trans)
qed (simp add: step_refl)

lemma try_omitted_keeps: "try_omitted wrap env u msg cs p = (res, p') \<Longrightarrow> Q u p p'"
proof (induction cs arbitrary: p)
  case (Cons c cs)
  then show ?case using writeToConn_keeps [of u p wrap env c msg]
    by (auto simp: step_refl split: if_splits prod.splits option.splits intro: step_trans)
qed (simp add: step_refl)

lemma write_keeps:
  assumes "writeMsgToSomeConnection wrap u msg p = (res, p')"
  shows "Q u (p\<lparr>p_calls := p_calls p + 1, p_msgs := p_msgs p @ [(u, msg)]\<rparr>) p'"
proof -
  let ?p = "p\<lparr>p_calls := p_calls p + 1, p_msgs := p_msgs p @ [(u, msg)]\<rparr>" and ?env = "p_net p (p_calls p)"
  obtain r om n p1 where range:
    "range_conns wrap ?env u msg (filter (\<lambda>c. c \<in> u_conns (p_store ?p u)) (ne_order ?env)) [] 0 ?p = (r, om, n, p1)"
    by (metis prod_cases4)
  then have "Q u ?p p1" by (rule range_conns_keeps)
  moreover have "p' = p1 \<or> (\<exists>turns res2. try_omitted wrap ?env u msg turns p1 = (res2, p'))"
    using assms range
    by (cases r) (auto simp: writeMsgToSomeConnection_def write_some_def Let_def split: prod.splits option.splits)
  ultimately show ?thesis using try_omitted_keeps step_trans by blast
qed

end

text \<open>What no part of writing changes: everything of the other units, and most of this one.\<close>

definition write_frame :: "unitref \<Rightarrow> peer \<Rightarrow> peer \<Rightarrow> bool" where
  "write_frame u p q \<longleftrightarrow>
     p_msgs q = p_msgs p \<and> p_ran q = p_ran p \<and> p_roles q = p_roles p \<and> p_next q = p_next p \<and>
     p_id q = p_id p \<and> p_closes q = p_closes p \<and> (\<forall>v. v \<noteq> u \<longrightarrow> p_store q v = p_store p v) \<and>
     u_id (p_store q u) = u_id (p_store p u) \<and> u_roles (p_store q u) = u_roles (p_store p u) \<and>
     u_callbackCtr (p_store q u) = u_callbackCtr (p_store p u) \<and>
     u_lastRoleSession (p_store q u) = u_lastRoleSession (p_store p u) \<and>
     sc_map (u_streamCtr (p_store q u)) = sc_map (u_streamCtr (p_store p u)) \<and>
     sc_next (u_streamCtr (p_store q u)) = sc_next (u_streamCtr (p_store p u)) \<and>
     (\<forall>i. i \<noteq> u_id (p_store p u) \<longrightarrow> p_units q i = p_units p i)"

interpretation write_frame: write_steps write_frame
proof
  fix u p wrap env c err
  show "write_frame u p (deleteConnection wrap env u c err p)"
    by (simp add: write_frame_def deleteConnection_store deleteConnection_units)
       (simp add: deleteConnection_def peer_deleteUnit_def Let_def set_unit_def split: option.split)
qed (auto simp: write_frame_def)

lemma write_frameD:
  assumes "writeMsgToSomeConnection wrap u msg p = (res, p')"
  shows "p_msgs p' = p_msgs p @ [(u, msg)]" and "p_ran p' = p_ran p" and "p_roles p' = p_roles p"
    and "p_id p' = p_id p" and "p_closes p' = p_closes p" and "p_next p' = p_next p"
    and "v \<noteq> u \<Longrightarrow> p_store p' v = p_store p v"
    and "u_callbackCtr (p_store p' v) = u_callbackCtr (p_store p v)"
    and "sc_map (u_streamCtr (p_store p' v)) = sc_map (u_streamCtr (p_store p v))"
    and "sc_next (u_streamCtr (p_store p' v)) = sc_next (u_streamCtr (p_store p v))"
    and "u_id (p_store p' v) = u_id (p_store p v)"
    and "u_roles (p_store p' v) = u_roles (p_store p v)"
    and "u_lastRoleSession (p_store p' v) = u_lastRoleSession (p_store p v)"
    and "i \<noteq> u_id (p_store p u) \<Longrightarrow> p_units p' i = p_units p i"
  using write_frame.write_keeps [OF assms]
  by (cases "v = u"; auto simp: write_frame_def)+

lemma write_outcome:
  assumes "enumerates (ne_order (p_net p (p_calls p))) (u_conns (p_store p u))"
    and "writeMsgToSomeConnection wrap u msg p = (res, p')"
  shows "if \<exists>c \<in> u_conns (p_store p u). ne_fail (p_net p (p_calls p)) c = None
    then \<exists>c \<in> u_conns (p_store p u). res = Inr c \<and> ne_fail (p_net p (p_calls p)) c = None \<and>
      p_frames p' = p_frames p @ [(c, msg)]
    else res = Inl (no_conns_err (card (u_conns (p_store p u))) (u_id (p_store p u))) \<and>
      p_frames p' = p_frames p \<and> u_conns (p_store p' u) = {} \<and>
      (u_conns (p_store p u) \<noteq> {} \<longrightarrow> p_units p' (u_id (p_store p u)) = None)"
proof -
  let ?env = "p_net p (p_calls p)" and ?p = "p\<lparr>p_calls := p_calls p + 1, p_msgs := p_msgs p @ [(u, msg)]\<rparr>"
  have s: "p_store ?p = p_store p" by simp
  have fin: "finite (u_conns (p_store p u))" using assms(1) by (rule enumerates_finite)
  obtain r q where t: "tried ?env u msg (u_conns (p_store p u)) ?p r q"
    and w: "write_some wrap ?env u msg ?p =
      (case r of Some c \<Rightarrow> Inr c | None \<Rightarrow> Inl (no_conns_err (length (ne_order ?env)) (u_id (p_store p u))), q)"
    using write_some_tried [of ?env ?p u msg wrap, unfolded s] assms(1) by blast
  have "res = (case r of Some c \<Rightarrow> Inr c | None \<Rightarrow> Inl (no_conns_err (card (u_conns (p_store p u))) (u_id (p_store p u))))"
    "p' = q"
    using assms(2) w enumerates_length [OF assms(1)]
    by (simp_all add: writeMsgToSomeConnection_def split: option.split)
  then show ?thesis
    using t fin by (auto simp: tried_def gone_def split: option.splits)
qed

section \<open>Properties\<close>

text \<open>
  C6.  A message is written once to one connection of the unit if writing to any of its
  connections works, whatever looks locked and in whatever order they are visited.  Otherwise
  it is written nowhere, every connection is deleted and so is the unit.
\<close>

theorem message_reaches_one_connection:
  assumes "enumerates (ne_order (p_net p (p_calls p))) (u_conns (p_store p u))"
    and "writeMsgToSomeConnection wrap u msg p = (res, p')"
  shows "if \<exists>c \<in> u_conns (p_store p u). ne_fail (p_net p (p_calls p)) c = None
    then \<exists>c \<in> u_conns (p_store p u). res = Inr c \<and> ne_fail (p_net p (p_calls p)) c = None \<and>
      p_frames p' = p_frames p @ [(c, msg)]
    else res = Inl (no_conns_err (card (u_conns (p_store p u))) (u_id (p_store p u))) \<and>
      p_frames p' = p_frames p \<and> u_conns (p_store p' u) = {} \<and>
      (u_conns (p_store p u) \<noteq> {} \<longrightarrow> p_units p' (u_id (p_store p u)) = None)"
  using assms by (rule write_outcome)

text \<open>A peer with one unit on two connections, of which the first fails.\<close>

definition two_conns_env :: net_env where
  "two_conns_env = \<lparr>ne_order = [1, 2], ne_locked = (\<lambda>c. c = 2),
     ne_fail = (\<lambda>c. if c = 1 then Some (ErrorString ''broken'') else None), ne_rnd = 7,
     ne_roles = (\<lambda>_. []), ne_chans = (\<lambda>_. [])\<rparr>"

definition two_conns_peer :: peer where
  "two_conns_peer = (NewPeer ''me'' ''n'' True (\<lambda>_. two_conns_env))\<lparr>p_units := [''x'' \<mapsto> 0],
     p_store := (\<lambda>_. no_unit\<lparr>u_id := ''x'', u_conns := {1, 2}\<rparr>), p_next := 1\<rparr>"

theorem message_reaches_one_connection_witness:
  "\<exists>res p'. writeMsgToSomeConnection (\<lambda>e _. e) 0 [9] two_conns_peer = (res, p') \<and>
    (if \<exists>c \<in> u_conns (p_store two_conns_peer 0). ne_fail (p_net two_conns_peer (p_calls two_conns_peer)) c = None
    then \<exists>c \<in> u_conns (p_store two_conns_peer 0). res = Inr c \<and>
      ne_fail (p_net two_conns_peer (p_calls two_conns_peer)) c = None \<and>
      p_frames p' = p_frames two_conns_peer @ [(c, [9])]
    else res = Inl (no_conns_err (card (u_conns (p_store two_conns_peer 0))) (u_id (p_store two_conns_peer 0))) \<and>
      p_frames p' = p_frames two_conns_peer \<and> u_conns (p_store p' 0) = {} \<and>
      (u_conns (p_store two_conns_peer 0) \<noteq> {} \<longrightarrow> p_units p' (u_id (p_store two_conns_peer 0)) = None))"
proof -
  obtain res p' where w: "writeMsgToSomeConnection (\<lambda>e _. e) 0 [9] two_conns_peer = (res, p')"
    by (metis surj_pair)
  have "enumerates (ne_order (p_net two_conns_peer (p_calls two_conns_peer))) (u_conns (p_store two_conns_peer 0))"
    by (auto simp: enumerates_def two_conns_peer_def two_conns_env_def NewPeer_def)
  from message_reaches_one_connection [OF this w] w show ?thesis by blast
qed

end
