(* ===== verification/Peer.thy ===== *)
theory Peer
  imports Connections
begin

text \<open>
  The operations of a peer on its units, roles and destinations (Peer.go, peer_internal.go,
  Role.go, Unit.go, service_messaging.go).  Dialling, the handshake and JSON are parameters of
  the operations that use them, and so is the order of every iteration over a map.
  The libraries used: \<open>errors.Wrap\<close>, the JSON encoders of the two service messages, the parser of
  semantic versions, the environment variable that turns heartbeats off, the error of
  \<open>json.Marshal\<close> on a value it refuses, and the conversion of out-of-range floats.
\<close>

record peer_lib =
  pl_wrap :: "goerror \<Rightarrow> string \<Rightarrow> goerror"
  pl_encRoles :: "int \<Rightarrow> string list \<Rightarrow> goerror + bytes"
  pl_encAcquaint :: "string \<Rightarrow> string \<Rightarrow> string list \<Rightarrow> goerror + bytes"
  pl_semver :: "string \<Rightarrow> goerror + u64"
  pl_debug :: bool
  pl_marshalErr :: "goval \<Rightarrow> goerror"
  pl_cvt :: "nat \<Rightarrow> u64"

section \<open>Roles\<close>

definition getRole :: "peer \<Rightarrow> string \<Rightarrow> role option" where
  "getRole p name = p_roles p name"

definition createRole :: "string \<Rightarrow> role" where
  "createRole name =
     \<lparr>r_name = name, r_active = True, r_mwMessage = createMiddlewareMessageMap,
      r_mwRequest = createMiddlewareRequestMap, r_mwReader = createMiddlewareReaderMap,
      r_mwWriter = createMiddlewareWriterMap, r_statusHandlers = []\<rparr>"

definition Peer_Role :: "string \<Rightarrow> peer \<Rightarrow> role \<times> peer" where
  "Peer_Role name p =
     (case getRole p name of
        Some role \<Rightarrow> (role, p)
      | None \<Rightarrow>
          let role = createRole name in
          (role, spawn GoBroadcastRoles (spawn (GoRunOnRole name)
                   (p\<lparr>p_roles := (p_roles p)(name \<mapsto> role)\<rparr>))))"

definition Role_Active :: "role \<Rightarrow> bool" where
  "Role_Active role = r_active role"

definition Role_Name :: "role \<Rightarrow> string" where
  "Role_Name role = r_name role"

text \<open>Setting the state of a role; handlers and the broadcast only run when it changes.\<close>

definition Role_Enable :: "string \<Rightarrow> peer \<Rightarrow> peer" where
  "Role_Enable name p =
     (case p_roles p name of
        None \<Rightarrow> p
      | Some role \<Rightarrow>
          let prev = r_active role;
              p1 = p\<lparr>p_roles := (p_roles p)(name \<mapsto> role\<lparr>r_active := True\<rparr>)\<rparr>
          in if prev = False then
               spawn GoBroadcastRoles (p1\<lparr>p_ran := p_ran p1 @ map (\<lambda>h. RanStatus h name) (r_statusHandlers role)\<rparr>)
             else p1)"

definition Role_Disable :: "string \<Rightarrow> peer \<Rightarrow> peer" where
  "Role_Disable name p =
     (case p_roles p name of
        None \<Rightarrow> p
      | Some role \<Rightarrow>
          let prev = r_active role;
              p1 = p\<lparr>p_roles := (p_roles p)(name \<mapsto> role\<lparr>r_active := False\<rparr>)\<rparr>
          in if prev = True then
               spawn GoBroadcastRoles (p1\<lparr>p_ran := p_ran p1 @ map (\<lambda>h. RanStatus h name) (r_statusHandlers role)\<rparr>)
             else p1)"

definition Role_OnMessage :: "string \<Rightarrow> handler \<Rightarrow> role \<Rightarrow> role" where
  "Role_OnMessage event h role = role\<lparr>r_mwMessage := mwMessage_set (r_mwMessage role) event h\<rparr>"

definition Role_OnRequest :: "string \<Rightarrow> handler \<Rightarrow> role \<Rightarrow> role" where
  "Role_OnRequest event h role = role\<lparr>r_mwRequest := mwRequest_set (r_mwRequest role) event h\<rparr>"

definition Role_OnReader :: "string \<Rightarrow> handler \<Rightarrow> role \<Rightarrow> role" where
  "Role_OnReader event h role = role\<lparr>r_mwReader := mwReader_set (r_mwReader role) event h\<rparr>"

definition Role_OnWriter :: "string \<Rightarrow> handler \<Rightarrow> role \<Rightarrow> role" where
  "Role_OnWriter event h role = role\<lparr>r_mwWriter := mwWriter_set (r_mwWriter role) event h\<rparr>"

definition Role_OnStatusChange :: "handler \<Rightarrow> role \<Rightarrow> role" where
  "Role_OnStatusChange h role = role\<lparr>r_statusHandlers := r_statusHandlers role @ [h]\<rparr>"

definition ListRoles :: "string list \<Rightarrow> peer \<Rightarrow> string list" where
  "ListRoles order p =
     filter (\<lambda>key. case p_roles p key of None \<Rightarrow> False | Some role \<Rightarrow> Role_Active role) order"

definition runOnRole :: "string \<Rightarrow> peer \<Rightarrow> peer" where
  "runOnRole name p = p\<lparr>p_ran := p_ran p @ map (\<lambda>h. RanRole h name) (p_roleHandlers p)\<rparr>"

definition Peer_OnRole :: "handler \<Rightarrow> peer \<Rightarrow> peer" where
  "Peer_OnRole f p = p\<lparr>p_roleHandlers := p_roleHandlers p @ [f]\<rparr>"

section \<open>Telling units about roles\<close>

definition incRolesBroadcastSession :: "peer \<Rightarrow> int \<times> peer" where
  "incRolesBroadcastSession p =
     (let i = wrap_int (p_lastRolesChange p + 1) in (i, p\<lparr>p_lastRolesChange := i\<rparr>))"

definition sendRoles :: "peer_lib \<Rightarrow> unitref \<Rightarrow> int \<Rightarrow> string list \<Rightarrow> peer \<Rightarrow> goerror option \<times> peer" where
  "sendRoles lib u i roles p =
     (case pl_encRoles lib i roles of
        Inl err \<Rightarrow> (Some err, p)
      | Inr str \<Rightarrow>
          (case writeMsgToSomeConnection (pl_wrap lib) u (serializeString typeRoles (string_of str)) p of
             (Inl err, p1) \<Rightarrow> (Some err, p1)
           | (Inr _, p1) \<Rightarrow> (None, p1)))"

section \<open>Units\<close>

definition createUnit :: "peerData \<Rightarrow> unit_state" where
  "createUnit res =
     \<lparr>u_id = pd_id res, u_name = pd_name res, u_friendly = pd_friendly res, u_meta = pd_meta res,
      u_roles = set (pd_roles res), u_conns = {}, u_streamCtr = createStreamController,
      u_callbackCtr = createCallbackController, u_closeHandlers = [], u_lastRoleSession = 0\<rparr>"

definition getUnit :: "peer \<Rightarrow> string \<Rightarrow> unitref option" where
  "getUnit p i = p_units p i"

definition peer_addUnit :: "unit_state \<Rightarrow> peer \<Rightarrow> peer" where
  "peer_addUnit s p =
     (let u = p_next p in
      p\<lparr>p_next := Suc u, p_store := (p_store p)(u := s), p_units := (p_units p)(u_id s \<mapsto> u)\<rparr>)"

definition runOnUnit :: "unitref \<Rightarrow> peer \<Rightarrow> peer" where
  "runOnUnit u p = p\<lparr>p_ran := p_ran p @ map (\<lambda>h. RanUnit h u) (p_unitHandlers p)\<rparr>"

definition runOnClose :: "unitref \<Rightarrow> goerror option \<Rightarrow> peer \<Rightarrow> peer" where
  "runOnClose u err p =
     p\<lparr>p_ran := p_ran p @ map (\<lambda>h. RanClose h u err) (u_closeHandlers (p_store p u))\<rparr>"

definition Peer_OnUnit :: "handler \<Rightarrow> peer \<Rightarrow> peer" where
  "Peer_OnUnit f p = p\<lparr>p_unitHandlers := p_unitHandlers p @ [f]\<rparr>"

definition Unit_OnClose :: "unitref \<Rightarrow> handler \<Rightarrow> peer \<Rightarrow> peer" where
  "Unit_OnClose u f p = set_unit u ((p_store p u)\<lparr>u_closeHandlers := u_closeHandlers (p_store p u) @ [f]\<rparr>) p"

text \<open>Lists of the keys of a map, in the order of iteration.\<close>

definition Peer_Units :: "string list \<Rightarrow> peer \<Rightarrow> unitref list" where
  "Peer_Units order p = List.map_filter (p_units p) order"

definition GetRoles :: "string list \<Rightarrow> peer \<Rightarrow> unitref \<Rightarrow> string list" where
  "GetRoles order p u = filter (\<lambda>r. r \<in> u_roles (p_store p u)) order"

definition ListDestinations :: "string list \<Rightarrow> peer \<Rightarrow> string list" where
  "ListDestinations order p = filter (\<lambda>name. p_destinations p name \<noteq> None) order"

text \<open>What the application can read from a unit, and the id of the peer.\<close>

definition Unit_Name :: "peer \<Rightarrow> unitref \<Rightarrow> string" where
  "Unit_Name p u = u_name (p_store p u)"

definition Unit_ID :: "peer \<Rightarrow> unitref \<Rightarrow> string" where
  "Unit_ID p u = u_id (p_store p u)"

definition Unit_Friendly :: "peer \<Rightarrow> unitref \<Rightarrow> bool" where
  "Unit_Friendly p u = u_friendly (p_store p u)"

definition Unit_Meta :: "peer \<Rightarrow> unitref \<Rightarrow> MetaInfo" where
  "Unit_Meta p u = u_meta (p_store p u)"

definition Peer_ID :: "peer \<Rightarrow> string" where
  "Peer_ID p = p_id p"

definition Peer_Unit :: "peer \<Rightarrow> string \<Rightarrow> unitref option" where
  "Peer_Unit p i = p_units p i"

definition HasRole :: "peer \<Rightarrow> unitref \<Rightarrow> string \<Rightarrow> bool" where
  "HasRole p u name \<longleftrightarrow> name \<in> u_roles (p_store p u)"

definition Unit_Connected :: "peer \<Rightarrow> unitref \<Rightarrow> bool" where
  "Unit_Connected p u \<longleftrightarrow> p_units p (u_id (p_store p u)) = Some u"

definition broadcastRoles :: "peer_lib \<Rightarrow> string list \<Rightarrow> string list \<Rightarrow> peer \<Rightarrow> peer" where
  "broadcastRoles lib rorder uorder p =
     (let roles = ListRoles rorder p in
      foldl (\<lambda>p unit. case incRolesBroadcastSession p of (i, p1) \<Rightarrow> snd (sendRoles lib unit i roles p1))
          p (Peer_Units uorder p))"

text \<open>The session of the last roles message, and the roles of a unit set by one.\<close>

definition setLastRoleSession :: "unitref \<Rightarrow> int \<Rightarrow> peer \<Rightarrow> peer" where
  "setLastRoleSession u i p = set_unit u ((p_store p u)\<lparr>u_lastRoleSession := i\<rparr>) p"

definition getLastRoleSession :: "peer \<Rightarrow> unitref \<Rightarrow> int" where
  "getLastRoleSession p u = u_lastRoleSession (p_store p u)"

definition setRoles :: "unitref \<Rightarrow> string list \<Rightarrow> peer \<Rightarrow> peer" where
  "setRoles u roles p = set_unit u ((p_store p u)\<lparr>u_roles := set roles\<rparr>) p"

text \<open>Every destination is entered or left according to the roles of the unit.\<close>

definition onNewUnitRoles :: "unitref \<Rightarrow> peer \<Rightarrow> peer" where
  "onNewUnitRoles u p =
     p\<lparr>p_destinations := (\<lambda>name. case p_destinations p name of
         None \<Rightarrow> None
       | Some dest \<Rightarrow> Some (if HasRole p u name then dest_addUnit dest u else dest_deleteUnit dest u))\<rparr>"

text \<open>\<open>units\<close> is the order of iteration over the units of the peer.\<close>

definition Peer_Destination :: "unitref list \<Rightarrow> string \<Rightarrow> peer \<Rightarrow> peer" where
  "Peer_Destination units name p =
     (case p_destinations p name of
        Some _ \<Rightarrow> p
      | None \<Rightarrow>
          let dest = foldl dest_addUnit (createDestination name) (filter (\<lambda>u. HasRole p u name) units)
          in p\<lparr>p_destinations := (p_destinations p)(name \<mapsto> dest)\<rparr>)"

definition peer_bindConn :: "peer_lib \<Rightarrow> unitref \<Rightarrow> conn \<Rightarrow> peer \<Rightarrow> peer" where
  "peer_bindConn lib u c p =
     (let s = p_store p u in
      if c \<in> u_conns s then p
      else
        let p1 = spawn (GoReadConn u c) (set_unit u (s\<lparr>u_conns := insert c (u_conns s)\<rparr>) p)
        in if \<not> pl_debug lib then spawn (GoHeartBeat u c) p1 else p1)"

text \<open>\<open>auth\<close> is the result of \<open>authenticateWS\<close>.\<close>

definition addConn ::
    "peer_lib \<Rightarrow> conn \<Rightarrow> goerror + peerData \<Rightarrow> peer \<Rightarrow> (goerror + unitref) \<times> peer" where
  "addConn lib c auth p =
     (case auth of
        Inl err \<Rightarrow> (Inl err, closeConnWithCode c errAuthRejected ''auth rejected'' p)
      | Inr res \<Rightarrow>
          (case checkProtocolCompatibility (pl_wrap lib) (pl_semver lib) protocolVersion (mi_protocol (pd_meta res)) of
             Some err \<Rightarrow> (Inl err, closeConnWithCode c errIncompatibleProtocolVersion (error_text err) p)
           | None \<Rightarrow>
               let unitExists = getUnit p (pd_id res) \<noteq> None;
                   p1 = (if \<not> unitExists then peer_addUnit (createUnit res) p else p);
                   u = the (getUnit p1 (pd_id res));
                   p2 = (if \<not> unitExists then runOnUnit u p1 else p1);
                   p3 = onNewUnitRoles u p2
               in (Inr u, peer_bindConn lib u c p3)))"

section \<open>Connecting\<close>

record connect_options =
  DoNotReconnect :: bool
  DoNotAcquaint :: bool

text \<open>\<open>dial\<close> and \<open>auth\<close> are what dialling and the handshake give.\<close>

definition Connect ::
    "peer_lib \<Rightarrow> string \<Rightarrow> connect_options \<Rightarrow> goerror + conn \<Rightarrow> goerror + peerData \<Rightarrow> peer
     \<Rightarrow> (goerror + unitref) \<times> peer" where
  "Connect lib urlStr options dial auth p =
     (let p1 = (if \<not> DoNotReconnect options
                then p\<lparr>p_addrUnits := the (store (p_addrUnits p) urlStr None None)\<rparr> else p);
          errCase = (\<lambda>err p. (Inl err,
            if \<not> DoNotReconnect options then spawn (GoReconn urlStr True) p else p))
      in case dial of
           Inl err \<Rightarrow> errCase (pl_wrap lib err ''Cannot dial to remote peer'') p1
         | Inr c \<Rightarrow>
             (case addConn lib c auth p1 of
                (Inl err, p2) \<Rightarrow> errCase (pl_wrap lib err ''Cannot use connection to communicate'') p2
              | (Inr u, p2) \<Rightarrow>
                  let p3 = (if \<not> DoNotReconnect options
                            then p2\<lparr>p_addrUnits := the (store (p_addrUnits p2) urlStr (Some c) (Some u))\<rparr> else p2);
                      p4 = (if \<not> DoNotAcquaint options
                            then spawn (GoAcquaint u) (spawn (GoIntroduce u urlStr) p3) else p3)
                  in (Inr u, p4)))"

definition startReconnCycle ::
    "peer_lib \<Rightarrow> string \<Rightarrow> goerror + conn \<Rightarrow> goerror + peerData \<Rightarrow> peer \<Rightarrow> peer" where
  "startReconnCycle lib addr dial auth p =
     (case loadByAddress (p_addrUnits p) addr of
        (uc, ok) \<Rightarrow>
          if uc_conn uc \<noteq> None \<or> ok = False then p
          else snd (Connect lib addr \<lparr>DoNotReconnect = False, DoNotAcquaint = False\<rparr> dial auth p))"

section \<open>Acquaintance\<close>

definition generateAcquaintMsg :: "peer_lib \<Rightarrow> peer \<Rightarrow> string list \<Rightarrow> unitref \<Rightarrow> string \<Rightarrow> goerror + bytes" where
  "generateAcquaintMsg lib p rorder u addr = pl_encAcquaint lib addr (u_id (p_store p u)) (GetRoles rorder p u)"

definition introduceUnitToOthers ::
    "peer_lib \<Rightarrow> string list \<Rightarrow> string list \<Rightarrow> unitref \<Rightarrow> string \<Rightarrow> peer \<Rightarrow> peer" where
  "introduceUnitToOthers lib rorder uorder u addr p =
     (if u_friendly (p_store p u) = False then p
      else case generateAcquaintMsg lib p rorder u addr of
          Inl err \<Rightarrow> p
        | Inr bin \<Rightarrow>
            foldl (\<lambda>p v. if u_friendly (p_store p v) = False \<or> v = u then p
                else snd (writeMsgToSomeConnection (pl_wrap lib) v ([typeAcquaint] @ bin) p)) p (Peer_Units uorder p))"

definition acquaintWithOthers ::
    "peer_lib \<Rightarrow> (unitref \<Rightarrow> string list) \<Rightarrow> string list \<Rightarrow> unitref \<Rightarrow> peer \<Rightarrow> peer" where
  "acquaintWithOthers lib rorder addrs u p =
     (if u_friendly (p_store p u) \<noteq> True then p
      else let m = getUnitMap (p_addrUnits p) in
        foldl (\<lambda>p addr. case m addr of
            None \<Rightarrow> p
          | Some v \<Rightarrow>
              if u = v then p
              else case generateAcquaintMsg lib p (rorder v) v addr of
                  Inl err \<Rightarrow> p
                | Inr b \<Rightarrow> snd (writeMsgToSomeConnection (pl_wrap lib) u ([typeAcquaint] @ b) p)) p addrs)"

section \<open>Closing a unit\<close>

definition rangeConnForCloseFunc :: "conn \<Rightarrow> peer \<Rightarrow> peer" where
  "rangeConnForCloseFunc c p = spawn (GoCloseConn c errManualClose ''auth rejected'') p"

definition closeWithCode :: "conn list \<Rightarrow> unitref \<Rightarrow> nat \<Rightarrow> string \<Rightarrow> peer \<Rightarrow> peer" where
  "closeWithCode cs u code msg p =
     (let p1 = foldl (\<lambda>p c. closeConnWithCode c code msg p) p
                 (filter (\<lambda>c. c \<in> u_conns (p_store p u)) cs)
      in p1\<lparr>p_destinations := (\<lambda>name. map_option (\<lambda>dest. dest_deleteUnit dest u) (p_destinations p1 name))\<rparr>)"

definition Unit_Close ::
    "string list \<Rightarrow> correlation list \<Rightarrow> conn list \<Rightarrow> unitref \<Rightarrow> peer \<Rightarrow> peer exec" where
  "Unit_Close addrs corrs cs u p =
     (let p1 = p\<lparr>p_addrUnits := scheme_deleteUnit addrs (p_addrUnits p) u\<rparr> in
      case onClose corrs (u_callbackCtr (p_store p1 u)) of
        Done ctr \<Rightarrow> Done (closeWithCode cs u errManualClose ''closed by demand''
          (set_unit u ((p_store p1 u)\<lparr>u_callbackCtr := ctr\<rparr>) p1))
      | Blocked \<Rightarrow> Blocked
      | Crashed \<Rightarrow> Crashed)"

text \<open>Plain libraries for concrete runs.\<close>

definition plain_peer_lib :: peer_lib where
  "plain_peer_lib = \<lparr>pl_wrap = (\<lambda>e _. e), pl_encRoles = (\<lambda>_ _. Inr []), pl_encAcquaint = (\<lambda>_ _ _. Inr []),
     pl_semver = (\<lambda>_. Inr 2), pl_debug = False,
     pl_marshalErr = (\<lambda>_. ErrorString ''json''), pl_cvt = (\<lambda>_. 0)\<rparr>"

end
