(* ===== verification/Contexts.thy ===== *)
theory Contexts
  imports Peer
begin

text \<open>
  Answering incoming requests (Contexts.go) and running the handlers of a role for them
  (role_internal.go).  What the functions of the application do is the parameter \<open>app\<close>; they get
  the context and the peer and give both back, and \<open>None\<close> means that a call does not return.
\<close>

section \<open>The application\<close>

record app =
  a_msg :: "handler \<Rightarrow> message_ctx \<times> peer \<Rightarrow> (message_ctx \<times> peer) option"
  a_req :: "handler \<Rightarrow> request_ctx \<times> peer \<Rightarrow> (request_ctx \<times> peer) option"
  a_reader :: "handler \<Rightarrow> stream_ctx \<times> peer \<Rightarrow> (stream_ctx \<times> peer) option"
  a_writer :: "handler \<Rightarrow> stream_ctx \<times> peer \<Rightarrow> (stream_ctx \<times> peer) option"

section \<open>Requests\<close>

definition ctx_Then :: "handler \<Rightarrow> request_ctx \<Rightarrow> request_ctx" where
  "ctx_Then cb ctx = ctx\<lparr>rq_cbs := rq_cbs ctx @ [cb]\<rparr>"

text \<open>The turns \<open>i - 1\<close> down to 0; every turn reads the list of callbacks anew.\<close>

fun callbacks_from :: "app \<Rightarrow> nat \<Rightarrow> request_ctx \<times> peer \<Rightarrow> (request_ctx \<times> peer) option" where
  "callbacks_from app 0 s = Some s"
| "callbacks_from app (Suc i) s =
     (if i < length (rq_cbs (fst s))
      then Option.bind (a_req app (rq_cbs (fst s) ! i) s) (callbacks_from app i)
      else None)"

definition runCallbacks :: "app \<Rightarrow> request_ctx \<times> peer \<Rightarrow> (request_ctx \<times> peer) option" where
  "runCallbacks app s = callbacks_from app (length (rq_cbs (fst s))) s"

text \<open>The value an answer carries, and how an answer is sent: the error, if any, and the peer.\<close>

definition answer_value :: "request_ctx \<Rightarrow> goval" where
  "answer_value ctx = (case rq_Err ctx of Some e \<Rightarrow> val_of_error e | None \<Rightarrow> rq_Res ctx)"

definition send_answer ::
    "peer_lib \<Rightarrow> byte \<Rightarrow> goval \<Rightarrow> request_ctx \<times> peer \<Rightarrow> (goerror option \<times> request_ctx \<times> peer) option" where
  "send_answer lib t d s =
     (case s of (ctx, p) \<Rightarrow>
       (case markDataType d of
          None \<Rightarrow> Some (Some (pl_marshalErr lib d), ctx, p)
        | Some b \<Rightarrow>
            (case serializeResponse (pl_cvt lib) t (rq_corr ctx) b of
               None \<Rightarrow> None
             | Some res \<Rightarrow>
                 (case writeMsgToSomeConnection (pl_wrap lib) (mc_unit (rq_msg ctx)) res p of
                    (Inl err, p1) \<Rightarrow> Some (Some err, ctx, p1)
                  | (Inr _, p1) \<Rightarrow> Some (None, ctx, p1)))))"

definition ctx_Reply ::
    "peer_lib \<Rightarrow> app \<Rightarrow> goval \<Rightarrow> request_ctx \<times> peer \<Rightarrow> (goerror option \<times> request_ctx \<times> peer) option" where
  "ctx_Reply lib app data s =
     (case s of (ctx, p) \<Rightarrow>
       let ctx1 = ctx\<lparr>rq_r := True\<rparr>;
           ctx2 = (if data \<noteq> VNil then ctx1\<lparr>rq_Res := data\<rparr> else ctx1)
       in Option.bind (runCallbacks app (ctx2, p)) (\<lambda>(ctx3, p3).
            case rq_Err ctx3 of
              Some e \<Rightarrow> send_answer lib typeReject (val_of_error e) (ctx3, p3)
            | None \<Rightarrow> send_answer lib typeResolve (rq_Res ctx3) (ctx3, p3)))"

text \<open>The argument of \<open>Reject\<close> by its dynamic type.\<close>

datatype reject_data = RejectError goerror | RejectString string | RejectNil | RejectOther

definition nil_or_error :: "goerror option \<Rightarrow> goval" where
  "nil_or_error e = (case e of None \<Rightarrow> VNil | Some e \<Rightarrow> val_of_error e)"

definition ctx_Reject ::
    "peer_lib \<Rightarrow> app \<Rightarrow> reject_data \<Rightarrow> request_ctx \<times> peer \<Rightarrow> (goerror option \<times> request_ctx \<times> peer) option" where
  "ctx_Reject lib app data s =
     (case s of (ctx, p) \<Rightarrow>
       let ctx1 = ctx\<lparr>rq_r := True\<rparr>;
           go_on = (\<lambda>ctx2. Option.bind (runCallbacks app (ctx2, p)) (\<lambda>(ctx3, p3).
             send_answer lib typeReject (nil_or_error (rq_Err ctx3)) (ctx3, p3)))
       in case data of
            RejectError d \<Rightarrow> go_on (ctx1\<lparr>rq_Err := Some d\<rparr>)
          | RejectString d \<Rightarrow> go_on (ctx1\<lparr>rq_Err := Some (ErrorString d)\<rparr>)
          | RejectNil \<Rightarrow> go_on ctx1
          | RejectOther \<Rightarrow>
              Some (Some (ErrorString ''data argument should be error, string or nil''), ctx1, p))"

section \<open>Requests for streams\<close>

text \<open>The callbacks of \<open>Then\<close> go to the field of the outer context.\<close>

definition Reader_Then :: "handler \<Rightarrow> stream_ctx \<Rightarrow> stream_ctx" where
  "Reader_Then cb ctx = ctx\<lparr>sx_cbs := sx_cbs ctx @ [cb]\<rparr>"

definition Writer_Then :: "handler \<Rightarrow> stream_ctx \<Rightarrow> stream_ctx" where
  "Writer_Then cb ctx = ctx\<lparr>sx_cbs := sx_cbs ctx @ [cb]\<rparr>"

text \<open>The methods promoted from the embedded context work on it alone.\<close>

definition on_request ::
    "(request_ctx \<times> peer \<Rightarrow> ('a \<times> request_ctx \<times> peer) option) \<Rightarrow> stream_ctx \<times> peer \<Rightarrow> ('a \<times> stream_ctx \<times> peer) option" where
  "on_request f s = map_option (\<lambda>(r, c, p). (r, (fst s)\<lparr>sx_req := c\<rparr>, p)) (f (sx_req (fst s), snd s))"

text \<open>
  The common text of the two \<open>Reply\<close> methods: a stream is created and its number sent with the
  answer, also when the answer is a rejection; a failed write deletes it.
\<close>

definition stream_answer ::
    "peer_lib \<Rightarrow> byte \<Rightarrow> goval \<Rightarrow> request_ctx \<times> peer
     \<Rightarrow> ((goerror + conn \<times> correlation \<times> nat) \<times> request_ctx \<times> peer) option" where
  "stream_answer lib t d s =
     (case s of (ctx, p) \<Rightarrow>
       (case markDataType d of
          None \<Rightarrow> Some (Inl (pl_marshalErr lib d), ctx, p)
        | Some b \<Rightarrow>
            let u = mc_unit (rq_msg ctx) in
            (case createStream (u_streamCtr (p_store p u)) of
               Blocked \<Rightarrow> None
             | Crashed \<Rightarrow> None
             | Done (channel, sc, ctr) \<Rightarrow>
                 let p1 = set_unit u ((p_store p u)\<lparr>u_streamCtr := ctr\<rparr>) p in
                 (case serializeStreamResponse (pl_cvt lib) t (rq_corr ctx) channel b of
                    None \<Rightarrow> None
                  | Some res \<Rightarrow>
                      (case writeMsgToSomeConnection (pl_wrap lib) u res p1 of
                         (Inl err, p2) \<Rightarrow> Some (Inl err, ctx, set_unit u ((p_store p2 u)\<lparr>
                           u_streamCtr := delete_stream (u_streamCtr (p_store p2 u)) channel\<rparr>) p2)
                       | (Inr c, p2) \<Rightarrow> Some (Inr (c, channel, sc), ctx, set_unit u ((p_store p2 u)\<lparr>
                           u_streamCtr := StreamController.bindConn (u_streamCtr (p_store p2 u)) (Some c) channel\<rparr>) p2))))))"

definition stream_reply ::
    "peer_lib \<Rightarrow> app \<Rightarrow> goval \<Rightarrow> request_ctx \<times> peer
     \<Rightarrow> ((goerror + conn \<times> correlation \<times> nat) \<times> request_ctx \<times> peer) option" where
  "stream_reply lib app data s =
     (case s of (ctx, p) \<Rightarrow>
       let ctx1 = ctx\<lparr>rq_r := True\<rparr>;
           ctx2 = (if data \<noteq> VNil then ctx1\<lparr>rq_Res := data\<rparr> else ctx1)
       in Option.bind (runCallbacks app (ctx2, p)) (\<lambda>(ctx3, p3).
            case rq_Err ctx3 of
              Some e \<Rightarrow> stream_answer lib typeStreamReject (val_of_error e) (ctx3, p3)
            | None \<Rightarrow> stream_answer lib typeStreamResolve (rq_Res ctx3) (ctx3, p3)))"

definition Reader_Reply ::
    "peer_lib \<Rightarrow> app \<Rightarrow> goval \<Rightarrow> stream_ctx \<times> peer \<Rightarrow> ((goerror + readable) \<times> stream_ctx \<times> peer) option" where
  "Reader_Reply lib app data s =
     Option.bind (on_request (stream_reply lib app data) s) (\<lambda>(r, ctx, p).
       case r of
         Inl err \<Rightarrow> Some (Inl err, ctx, p)
       | Inr (c, channel, _) \<Rightarrow>
           map_option (\<lambda>pref. (Inr (new_readable (Some c) channel pref), ctx, p))
             (createStreamPrefix (pl_cvt lib) channel streamByteQuota))"

definition Writer_Reply ::
    "peer_lib \<Rightarrow> app \<Rightarrow> goval \<Rightarrow> stream_ctx \<times> peer \<Rightarrow> ((goerror + writable) \<times> stream_ctx \<times> peer) option" where
  "Writer_Reply lib app data s =
     Option.bind (on_request (stream_reply lib app data) s) (\<lambda>(r, ctx, p).
       case r of
         Inl err \<Rightarrow> Some (Inl err, ctx, p)
       | Inr (c, channel, sc) \<Rightarrow>
           map_option (\<lambda>pref. (Inr (new_writable (Some c) sc pref), ctx, p))
             (createStreamPrefix (pl_cvt lib) channel streamByteChunk))"

section \<open>Running the handlers of a role\<close>

definition role_of :: "peer \<Rightarrow> string \<Rightarrow> role" where
  "role_of p name = (case p_roles p name of Some role \<Rightarrow> role | None \<Rightarrow> createRole name)"

text \<open>A loop over handlers that stops once the request is answered.\<close>

fun until_answered ::
    "('s \<Rightarrow> bool) \<Rightarrow> (handler \<Rightarrow> 's \<Rightarrow> 's option) \<Rightarrow> handler list \<Rightarrow> 's \<Rightarrow> 's option" where
  "until_answered stop run [] s = Some s"
| "until_answered stop run (mw # mws) s =
     (if stop s then Some s
      else Option.bind (run mw s) (until_answered stop run mws))"

definition not_handled :: "string \<Rightarrow> string \<Rightarrow> string" where
  "not_handled event i = ''Event ['' @ event @ ''] is not handled by the peer ['' @ i @ '']''"

text \<open>The answer to a request that no handler has answered.\<close>

definition default_answer ::
    "peer_lib \<Rightarrow> app \<Rightarrow> request_ctx \<times> peer \<Rightarrow> (goerror option \<times> request_ctx \<times> peer) option" where
  "default_answer lib app s =
     (case rq_Err (fst s) of
        Some e \<Rightarrow> ctx_Reject lib app (RejectError e) s
      | None \<Rightarrow>
          if rq_Res (fst s) \<noteq> VNil then ctx_Reply lib app (rq_Res (fst s)) s
          else ctx_Reject lib app
            (RejectString (not_handled (mc_event (rq_msg (fst s))) (p_id (snd s)))) s)"

definition emitRequest :: "peer_lib \<Rightarrow> app \<Rightarrow> string \<Rightarrow> request_ctx \<times> peer \<Rightarrow> (request_ctx \<times> peer) option" where
  "emitRequest lib app name s =
     do { s1 \<leftarrow> until_answered (\<lambda>s. rq_r (fst s)) (a_req app)
                  (mwRequest_get (r_mwRequest (role_of (snd s) name)) '''') s;
          s2 \<leftarrow> until_answered (\<lambda>s. rq_r (fst s)) (a_req app)
                  (mwRequest_get (r_mwRequest (role_of (snd s1) name)) (mc_event (rq_msg (fst s1)))) s1;
          if rq_r (fst s2) then Some s2
          else do { s3 \<leftarrow> runCallbacks app s2;
                    map_option snd (default_answer lib app s3) } }"

text \<open>The end of the two functions for streams, which only differ in their handlers.\<close>

definition emit_stream ::
    "peer_lib \<Rightarrow> app \<Rightarrow> (handler \<Rightarrow> stream_ctx \<times> peer \<Rightarrow> (stream_ctx \<times> peer) option)
     \<Rightarrow> (role \<Rightarrow> string \<Rightarrow> handler list)
     \<Rightarrow> (goval \<Rightarrow> stream_ctx \<times> peer \<Rightarrow> (stream_ctx \<times> peer) option)
     \<Rightarrow> string \<Rightarrow> stream_ctx \<times> peer \<Rightarrow> (stream_ctx \<times> peer) option" where
  "emit_stream lib app run handlers reply name s =
     do { s1 \<leftarrow> until_answered (\<lambda>s. rq_r (sx_req (fst s))) run
                  (handlers (role_of (snd s) name) '''') s;
          s2 \<leftarrow> until_answered (\<lambda>s. rq_r (sx_req (fst s))) run
                  (handlers (role_of (snd s1) name) (mc_event (rq_msg (sx_req (fst s1))))) s1;
          if rq_r (sx_req (fst s2)) then Some s2
          else do { s3 \<leftarrow> map_option snd (on_request (\<lambda>s. map_option (\<lambda>s. ((), s)) (runCallbacks app s)) s2);
                    case rq_Err (sx_req (fst s3)) of
                      Some e \<Rightarrow> map_option snd (on_request (ctx_Reject lib app (RejectError e)) s3)
                    | None \<Rightarrow>
                        if rq_Res (sx_req (fst s3)) \<noteq> VNil then reply (rq_Res (sx_req (fst s3))) s3
                        else map_option snd (on_request (ctx_Reject lib app
                          (RejectString (not_handled (mc_event (rq_msg (sx_req (fst s3)))) (p_id (snd s3))))) s3) } }"

definition emitReader :: "peer_lib \<Rightarrow> app \<Rightarrow> string \<Rightarrow> stream_ctx \<times> peer \<Rightarrow> (stream_ctx \<times> peer) option" where
  "emitReader lib app name s =
     emit_stream lib app (a_reader app) (\<lambda>role. mwReader_get (r_mwReader role))
       (\<lambda>d s. map_option snd (Reader_Reply lib app d s)) name s"

definition emitWriter :: "peer_lib \<Rightarrow> app \<Rightarrow> string \<Rightarrow> stream_ctx \<times> peer \<Rightarrow> (stream_ctx \<times> peer) option" where
  "emitWriter lib app name s =
     emit_stream lib app (a_writer app) (\<lambda>role. mwWriter_get (r_mwWriter role))
       (\<lambda>d s. map_option snd (Writer_Reply lib app d s)) name s"

fun run_all :: "('h \<Rightarrow> 's \<Rightarrow> 's option) \<Rightarrow> 'h list \<Rightarrow> 's \<Rightarrow> 's option" where
  "run_all run [] s = Some s"
| "run_all run (h # hs) s = Option.bind (run h s) (run_all run hs)"

definition emitMsg :: "app \<Rightarrow> string \<Rightarrow> message_ctx \<times> peer \<Rightarrow> (message_ctx \<times> peer) option" where
  "emitMsg app name s =
     do { s1 \<leftarrow> run_all (a_msg app) (mwMessage_get (r_mwMessage (role_of (snd s) name)) '''') s;
          run_all (a_msg app) (mwMessage_get (r_mwMessage (role_of (snd s1) name)) (mc_event (fst s1))) s1 }"

section \<open>Lemmas\<close>

lemmas write_msgs = write_frameD(1)

text \<open>One answer to a request: a single response with its correlation.\<close>

definition answered_once :: "peer_lib \<Rightarrow> correlation \<Rightarrow> unitref \<Rightarrow> peer \<Rightarrow> peer \<Rightarrow> bool" where
  "answered_once lib corr u p p' \<longleftrightarrow>
     (\<exists>t b res. t \<in> {typeResolve, typeReject} \<and> serializeResponse (pl_cvt lib) t corr b = Some res \<and>
        p_msgs p' = p_msgs p @ [(u, res)])"

lemma send_answer_once:
  assumes "send_answer lib t d (ctx, p) = Some (e, ctx', p')" and "t \<in> {typeResolve, typeReject}"
  shows "ctx' = ctx \<and>
    (if markDataType d = None then p' = p else answered_once lib (rq_corr ctx) (mc_unit (rq_msg ctx)) p p')"
  using assms write_msgs
  by (fastforce simp: send_answer_def answered_once_def split: option.splits prod.splits sum.splits)

text \<open>Functions that neither answer nor send anything; callbacks are meant to be such.\<close>

definition quiet :: "app \<Rightarrow> handler \<Rightarrow> bool" where
  "quiet app h \<longleftrightarrow> (\<forall>ctx p ctx' p'. a_req app h (ctx, p) = Some (ctx', p') \<longrightarrow>
     rq_r ctx' = rq_r ctx \<and> rq_corr ctx' = rq_corr ctx \<and> mc_unit (rq_msg ctx') = mc_unit (rq_msg ctx) \<and>
     rq_cbs ctx' = rq_cbs ctx \<and> p_msgs p' = p_msgs p)"

lemma callbacks_from_quiet:
  "callbacks_from app i (ctx, p) = Some (ctx', p') \<Longrightarrow> \<forall>h \<in> set (rq_cbs ctx). quiet app h \<Longrightarrow>
   rq_r ctx' = rq_r ctx \<and> rq_corr ctx' = rq_corr ctx \<and> mc_unit (rq_msg ctx') = mc_unit (rq_msg ctx) \<and>
   rq_cbs ctx' = rq_cbs ctx \<and> p_msgs p' = p_msgs p"
proof (induction i arbitrary: ctx p)
  case (Suc i)
  then obtain ctx1 p1 where i: "i < length (rq_cbs ctx)" "a_req app (rq_cbs ctx ! i) (ctx, p) = Some (ctx1, p1)"
    "callbacks_from app i (ctx1, p1) = Some (ctx', p')"
    by (auto split: if_splits simp: bind_eq_Some_conv)
  then have "quiet app (rq_cbs ctx ! i)" using Suc.prems(2) by simp
  with i(2) have "rq_r ctx1 = rq_r ctx \<and> rq_corr ctx1 = rq_corr ctx \<and>
      mc_unit (rq_msg ctx1) = mc_unit (rq_msg ctx) \<and> rq_cbs ctx1 = rq_cbs ctx \<and> p_msgs p1 = p_msgs p"
    unfolding quiet_def by blast
  then show ?case using Suc.IH [OF i(3)] Suc.prems(2) by simp
qed simp

lemmas runCallbacks_quiet = callbacks_from_quiet [where i = "length (rq_cbs ctx)" and ctx = ctx for ctx]

text \<open>
  What a handler may do to a request that is not answered yet: answer it once, with a value that
  can be marshalled, or send nothing.
\<close>

definition progressed ::
    "peer_lib \<Rightarrow> app \<Rightarrow> request_ctx \<times> peer \<Rightarrow> request_ctx \<times> peer \<Rightarrow> bool" where
  "progressed lib app s s' \<longleftrightarrow> (case (s, s') of ((ctx, p), (ctx', p')) \<Rightarrow>
     (\<forall>h \<in> set (rq_cbs ctx'). quiet app h) \<and> rq_corr ctx' = rq_corr ctx \<and>
     mc_unit (rq_msg ctx') = mc_unit (rq_msg ctx) \<and>
     (if rq_r ctx' \<and> markDataType (answer_value ctx') \<noteq> None
      then answered_once lib (rq_corr ctx) (mc_unit (rq_msg ctx)) p p'
      else p_msgs p' = p_msgs p))"

definition well_behaved :: "peer_lib \<Rightarrow> app \<Rightarrow> bool" where
  "well_behaved lib app \<longleftrightarrow> (\<forall>h ctx p s'. \<not> rq_r ctx \<longrightarrow> (\<forall>h \<in> set (rq_cbs ctx). quiet app h) \<longrightarrow>
     a_req app h (ctx, p) = Some s' \<longrightarrow> progressed lib app (ctx, p) s')"

lemma until_answered_progressed:
  assumes "well_behaved lib app"
  shows "until_answered (\<lambda>s. rq_r (fst s)) (a_req app) mws s = Some s' \<Longrightarrow>
    progressed lib app s0 s \<Longrightarrow> progressed lib app s0 s'"
proof (induction mws arbitrary: s)
  case (Cons mw mws)
  obtain ctx0 p0 ctx p where s: "s0 = (ctx0, p0)" "s = (ctx, p)" by fastforce
  show ?case
  proof (cases "rq_r ctx")
    case True
    then show ?thesis using Cons.prems s by simp
  next
    case False
    then obtain ctx1 p1 where s1: "a_req app mw (ctx, p) = Some (ctx1, p1)"
      "until_answered (\<lambda>s. rq_r (fst s)) (a_req app) mws (ctx1, p1) = Some s'"
      using Cons.prems(1) s by (auto simp: bind_eq_Some_conv)
    have old: "\<forall>h \<in> set (rq_cbs ctx). quiet app h" "rq_corr ctx = rq_corr ctx0"
      "mc_unit (rq_msg ctx) = mc_unit (rq_msg ctx0)" "p_msgs p = p_msgs p0"
      using Cons.prems(2) False s by (simp_all add: progressed_def)
    have "progressed lib app (ctx, p) (ctx1, p1)"
      using assms False old(1) s1(1) unfolding well_behaved_def by blast
    then have "progressed lib app s0 (ctx1, p1)"
      using old(2-4) s(1) by (simp add: progressed_def answered_once_def split: if_splits)
    then show ?thesis using Cons.IH [OF s1(2)] by simp
  qed
qed simp

lemma finish_once:
  assumes "map_option snd r = Some (ctx', p')"
    and "r = Option.bind (runCallbacks app (ctx, p)) (\<lambda>(ctx3, p3). send_answer lib (t ctx3) (d ctx3) (ctx3, p3))"
    and "\<And>c. t c \<in> {typeResolve, typeReject}" and "\<forall>h \<in> set (rq_cbs ctx). quiet app h"
    and "markDataType (d ctx') \<noteq> None"
  shows "answered_once lib (rq_corr ctx) (mc_unit (rq_msg ctx)) p p' \<and> rq_r ctx' = rq_r ctx"
proof -
  obtain ctx3 p3 e where c: "runCallbacks app (ctx, p) = Some (ctx3, p3)"
    "send_answer lib (t ctx3) (d ctx3) (ctx3, p3) = Some (e, ctx', p')"
    using assms(1,2) by (auto simp: bind_eq_Some_conv)
  note q = callbacks_from_quiet [OF c(1) [unfolded runCallbacks_def] assms(4)]
  show ?thesis
    using send_answer_once [OF c(2)] q assms(3,5) by (simp add: answered_once_def split: if_splits)
qed

lemma ctx_Reply_once:
  assumes "map_option snd (ctx_Reply lib app data (ctx, p)) = Some (ctx', p')"
    and "\<forall>h \<in> set (rq_cbs ctx). quiet app h" and "markDataType (answer_value ctx') \<noteq> None"
  shows "answered_once lib (rq_corr ctx) (mc_unit (rq_msg ctx)) p p' \<and> rq_r ctx'"
proof -
  let ?ctx = "if data \<noteq> VNil then ctx\<lparr>rq_r := True, rq_Res := data\<rparr> else ctx\<lparr>rq_r := True\<rparr>"
  let ?t = "\<lambda>c. case rq_Err c of Some _ \<Rightarrow> typeReject | None \<Rightarrow> typeResolve"
  have "ctx_Reply lib app data (ctx, p) = Option.bind (runCallbacks app (?ctx, p))
      (\<lambda>(ctx3, p3). send_answer lib (?t ctx3) (answer_value ctx3) (ctx3, p3))"
    by (cases "runCallbacks app (?ctx, p)")
       (auto simp: ctx_Reply_def answer_value_def Let_def split: option.split)
  from finish_once [OF assms(1) this] show ?thesis
    using assms(2,3) by (auto split: option.splits if_splits)
qed

lemma ctx_Reject_once:
  assumes "map_option snd (ctx_Reject lib app data (ctx, p)) = Some (ctx', p')" and "data \<noteq> RejectOther"
    and "\<forall>h \<in> set (rq_cbs ctx). quiet app h" and "markDataType (answer_value ctx') \<noteq> None"
  shows "answered_once lib (rq_corr ctx) (mc_unit (rq_msg ctx)) p p' \<and> rq_r ctx'"
proof -
  let ?ctx = "case data of RejectError d \<Rightarrow> ctx\<lparr>rq_r := True, rq_Err := Some d\<rparr>
    | RejectString d \<Rightarrow> ctx\<lparr>rq_r := True, rq_Err := Some (ErrorString d)\<rparr> | _ \<Rightarrow> ctx\<lparr>rq_r := True\<rparr>"
  have "ctx_Reject lib app data (ctx, p) = Option.bind (runCallbacks app (?ctx, p))
      (\<lambda>(ctx3, p3). send_answer lib typeReject (nil_or_error (rq_Err ctx3)) (ctx3, p3))"
    using assms(2) by (cases data) (simp_all add: ctx_Reject_def Let_def)
  moreover have "markDataType (nil_or_error (rq_Err ctx')) \<noteq> None"
    using assms(4) by (simp add: nil_or_error_def answer_value_def split: option.splits)
  ultimately show ?thesis
    using finish_once [OF assms(1), of app ?ctx p lib "\<lambda>_. typeReject" "\<lambda>c. nil_or_error (rq_Err c)"] assms(3)
    by (auto split: reject_data.splits)
qed

section \<open>Properties\<close>


text \<open>An application whose function 0 replies with a text and whose other functions do nothing.\<close>

definition idle_app :: app where
  "idle_app = \<lparr>a_msg = (\<lambda>_ s. Some s), a_req = (\<lambda>_ s. Some s), a_reader = (\<lambda>_ s. Some s), a_writer = (\<lambda>_ s. Some s)\<rparr>"

definition replying_app :: app where
  "replying_app = idle_app\<lparr>a_req := (\<lambda>h s. if h = 0 then map_option snd (ctx_Reply plain_peer_lib idle_app (VString ''ok'') s)
     else Some s)\<rparr>"

lemma idle_callbacks: "i \<le> length (rq_cbs (fst s)) \<Longrightarrow> callbacks_from idle_app i s = Some s"
  by (induction i) (simp_all add: idle_app_def)

lemma idle_Reply:
  "ctx_Reply plain_peer_lib idle_app (VString ''ok'') (ctx, p) =
    (let c = ctx\<lparr>rq_r := True, rq_Res := VString ''ok''\<rparr> in
     case rq_Err ctx of Some e \<Rightarrow> send_answer plain_peer_lib typeReject (val_of_error e) (c, p)
     | None \<Rightarrow> send_answer plain_peer_lib typeResolve (VString ''ok'') (c, p))"
  by (simp add: ctx_Reply_def runCallbacks_def idle_callbacks Let_def split: option.split)

definition request0 :: request_ctx where
  "request0 = \<lparr>rq_msg = \<lparr>mc_conn = 1, mc_unit = 0, mc_role = ''r'', mc_event = ''e'', mc_Data = VNil, mc_T = 1,
     mc_origin = [], mc_w = typeRequest, mc_raw = slice_of [], mc_channel = 0\<rparr>,
     rq_Res = VNil, rq_Err = None, rq_corr = 7, rq_r = False, rq_cbs = []\<rparr>"

definition serving_peer :: peer where
  "serving_peer = two_conns_peer\<lparr>p_roles := [''r'' \<mapsto> Role_OnRequest ''e'' 0 (createRole ''r'')]\<rparr>"

lemma send_answer_defined:
  assumes "corr_ok (rq_corr ctx)"
  shows "\<exists>e p'. send_answer lib t d (ctx, p) = Some (e, ctx, p')"
  using corr_ok_enc [OF assms, of "pl_cvt lib"]
  by (cases "markDataType d"; cases "writeMsgToSomeConnection (pl_wrap lib) (mc_unit (rq_msg ctx))
        ([t] @ [of_nat (length (be_bytes (unat (rq_corr ctx))))] @ be_bytes (unat (rq_corr ctx)) @ the (markDataType d)) p")
     (auto simp: send_answer_def serializeResponse_def split: sum.split)

lemma replying_app_well_behaved: "well_behaved plain_peer_lib replying_app"
  unfolding well_behaved_def
proof (intro allI impI)
  fix h ctx p s'
  assume r: "\<not> rq_r ctx" and q: "\<forall>h \<in> set (rq_cbs ctx). quiet replying_app h"
    and run: "a_req replying_app h (ctx, p) = Some s'"
  show "progressed plain_peer_lib replying_app (ctx, p) s'"
  proof (cases "h = 0")
    case False
    then show ?thesis using run r q by (auto simp: replying_app_def idle_app_def progressed_def)
  next
    case True
    let ?c = "ctx\<lparr>rq_r := True, rq_Res := VString ''ok''\<rparr>"
    obtain ctx' p' where s': "s' = (ctx', p')" by fastforce
    have reply: "map_option snd (ctx_Reply plain_peer_lib idle_app (VString ''ok'') (ctx, p)) = Some (ctx', p')"
      using run True s' by (simp add: replying_app_def)
    then obtain t e where t: "t \<in> {typeResolve, typeReject}"
      "send_answer plain_peer_lib t (answer_value ?c) (?c, p) = Some (e, ctx', p')"
      by (auto simp: idle_Reply Let_def answer_value_def split: option.splits)
    from send_answer_once [OF t(2,1)] show ?thesis
      using q s' r by (simp add: progressed_def split: if_splits)
  qed
qed


text \<open>
  An application for traces: the function \<open>2 k\<close> registers the callback \<open>2 k + 1\<close>, which records
  that it has run.
\<close>

definition trace :: "handler \<Rightarrow> ran" where
  "trace h = RanStatus h ''''"

definition tracing_app :: app where
  "tracing_app = idle_app\<lparr>a_req := (\<lambda>h (ctx, p).
     if even h then Some (ctx_Then (Suc h) ctx, p) else Some (ctx, p\<lparr>p_ran := p_ran p @ [trace h]\<rparr>))\<rparr>"

lemma tracing_req:
  "a_req tracing_app h (ctx, p) =
    (if even h then Some (ctx_Then (Suc h) ctx, p) else Some (ctx, p\<lparr>p_ran := p_ran p @ [trace h]\<rparr>))"
  by (simp add: tracing_app_def)

lemma tracing_callbacks:
  "i \<le> length (rq_cbs ctx) \<Longrightarrow> \<forall>h \<in> set (rq_cbs ctx). odd h \<Longrightarrow> callbacks_from tracing_app i (ctx, p) =
    Some (ctx, p\<lparr>p_ran := p_ran p @ map trace (rev (take i (rq_cbs ctx)))\<rparr>)"
  by (induction i arbitrary: p) (simp_all add: tracing_req take_Suc_conv_app_nth)

lemma tracing_runCallbacks:
  "\<forall>h \<in> set (rq_cbs ctx). odd h \<Longrightarrow>
   runCallbacks tracing_app (ctx, p) = Some (ctx, p\<lparr>p_ran := p_ran p @ map trace (rev (rq_cbs ctx))\<rparr>)"
  by (simp add: runCallbacks_def tracing_callbacks)

lemma tracing_handlers:
  "\<forall>h \<in> set hs. even h \<Longrightarrow> \<not> rq_r ctx \<Longrightarrow>
   until_answered (\<lambda>s. rq_r (fst s)) (a_req tracing_app) hs (ctx, p) =
    Some (ctx\<lparr>rq_cbs := rq_cbs ctx @ map Suc hs\<rparr>, p)"
  by (induction hs arbitrary: ctx) (simp_all add: tracing_req ctx_Then_def)

lemma send_answer_ran:
  assumes "corr_ok (rq_corr ctx)"
  shows "\<exists>e p'. send_answer lib t d (ctx, p) = Some (e, ctx, p') \<and> p_ran p' = p_ran p"
proof -
  obtain e p' where s: "send_answer lib t d (ctx, p) = Some (e, ctx, p')"
    using send_answer_defined [OF assms] by blast
  then have "p' = p \<or> (\<exists>m. p' = snd (writeMsgToSomeConnection (pl_wrap lib) (mc_unit (rq_msg ctx)) m p))"
    by (auto simp: send_answer_def split: option.splits prod.splits sum.splits) (metis snd_conv)+
  then show ?thesis using s by (metis write_frameD(2) surjective_pairing)
qed

lemma tracing_finish:
  assumes "corr_ok (rq_corr ctx)" and "\<forall>h \<in> set (rq_cbs ctx). odd h"
  shows "\<exists>e c' p'. ctx_Reply lib tracing_app d (ctx, p) = Some (e, c', p') \<and>
      p_ran p' = p_ran p @ map trace (rev (rq_cbs ctx))"
    and "\<exists>e c' p'. ctx_Reject lib tracing_app (RejectError x) (ctx, p) = Some (e, c', p') \<and>
      p_ran p' = p_ran p @ map trace (rev (rq_cbs ctx))"
    and "\<exists>e c' p'. ctx_Reject lib tracing_app (RejectString y) (ctx, p) = Some (e, c', p') \<and>
      p_ran p' = p_ran p @ map trace (rev (rq_cbs ctx))"
proof -
  let ?q = "p\<lparr>p_ran := p_ran p @ map trace (rev (rq_cbs ctx))\<rparr>"
  have run: "runCallbacks tracing_app (c, p) = Some (c, ?q)" if "rq_cbs c = rq_cbs ctx" for c
    using tracing_runCallbacks [of c p] assms(2) that by simp
  have answer: "\<exists>e p'. send_answer lib t v (c, ?q) = Some (e, c, p') \<and> p_ran p' = p_ran ?q"
    if "rq_corr c = rq_corr ctx" for t v c
    using send_answer_ran [of c lib t v ?q] assms(1) that by simp
  show "\<exists>e c' p'. ctx_Reject lib tracing_app (RejectError x) (ctx, p) = Some (e, c', p') \<and>
      p_ran p' = p_ran p @ map trace (rev (rq_cbs ctx))"
    using answer [of "ctx\<lparr>rq_r := True, rq_Err := Some x\<rparr>"] by (fastforce simp: ctx_Reject_def run)
  show "\<exists>e c' p'. ctx_Reject lib tracing_app (RejectString y) (ctx, p) = Some (e, c', p') \<and>
      p_ran p' = p_ran p @ map trace (rev (rq_cbs ctx))"
    using answer [of "ctx\<lparr>rq_r := True, rq_Err := Some (ErrorString y)\<rparr>"] by (fastforce simp: ctx_Reject_def run)
  let ?c = "if d \<noteq> VNil then ctx\<lparr>rq_r := True, rq_Res := d\<rparr> else ctx\<lparr>rq_r := True\<rparr>"
  have "ctx_Reply lib tracing_app d (ctx, p) =
      (case rq_Err ctx of Some e \<Rightarrow> send_answer lib typeReject (val_of_error e) (?c, ?q)
       | None \<Rightarrow> send_answer lib typeResolve (rq_Res ?c) (?c, ?q))"
    by (simp add: ctx_Reply_def run Let_def split: option.split)
  moreover have "rq_corr ?c = rq_corr ctx" by simp
  ultimately show "\<exists>e c' p'. ctx_Reply lib tracing_app d (ctx, p) = Some (e, c', p') \<and>
      p_ran p' = p_ran p @ map trace (rev (rq_cbs ctx))"
    using answer [of ?c] by (cases "rq_Err ctx") fastforce+
qed

lemma tracing_default:
  assumes "corr_ok (rq_corr ctx)" and "\<forall>h \<in> set (rq_cbs ctx). odd h"
  shows "\<exists>e c' p'. default_answer lib tracing_app (ctx, p) = Some (e, c', p') \<and>
      p_ran p' = p_ran p @ map trace (rev (rq_cbs ctx))"
  using tracing_finish [OF assms, where p = p and lib = lib]
  by (simp add: default_answer_def split: option.split)

text \<open>
  C40.  Callbacks registered with \<open>Then\<close> run in LIFO order, but when no handler answers
  the request all of them run twice: once before the default answer and once within it.
\<close>

theorem callbacks_run_twice:
  assumes "mwRequest_get (r_mwRequest (role_of p name)) '''' = []"
    and "mwRequest_get (r_mwRequest (role_of p name)) (mc_event (rq_msg ctx)) = hs"
    and "\<forall>h \<in> set hs. even h" and "rq_cbs ctx = []" and "\<not> rq_r ctx" and "corr_ok (rq_corr ctx)"
  shows "\<exists>ctx' p'. emitRequest lib tracing_app name (ctx, p) = Some (ctx', p') \<and>
    p_ran p' = p_ran p @ map (\<lambda>h. trace (Suc h)) (rev hs @ rev hs)"
proof -
  let ?c = "ctx\<lparr>rq_cbs := map Suc hs\<rparr>" and ?p = "p\<lparr>p_ran := p_ran p @ map trace (rev (map Suc hs))\<rparr>"
  have odd: "\<forall>h \<in> set (rq_cbs ?c). odd h" using assms(3) by auto
  have chain: "until_answered (\<lambda>s. rq_r (fst s)) (a_req tracing_app) hs (ctx, p) = Some (?c, p)"
    using tracing_handlers [OF assms(3,5)] assms(4) by simp
  have run: "runCallbacks tracing_app (?c, p) = Some (?c, ?p)"
    using tracing_runCallbacks [OF odd] by simp
  have ok: "corr_ok (rq_corr ?c)" using assms(6) by simp
  obtain e ctx' p' where fin: "default_answer lib tracing_app (?c, ?p) = Some (e, ctx', p')"
    "p_ran p' = p_ran ?p @ map trace (rev (rq_cbs ?c))"
    using tracing_default [OF ok odd, of lib ?p] by blast
  have "emitRequest lib tracing_app name (ctx, p) = Some (ctx', p')"
    using assms(1,2,5) chain run fin(1) by (simp add: emitRequest_def)
  then show ?thesis using fin(2) by (simp add: rev_map comp_def)
qed

theorem callbacks_run_twice_witness:
  "\<exists>ctx' p'. emitRequest plain_peer_lib tracing_app ''r'' (request0, serving_peer) = Some (ctx', p') \<and>
    p_ran p' = p_ran serving_peer @ map (\<lambda>h. trace (Suc h)) (rev [0] @ rev [0])"
  by (rule callbacks_run_twice)
     (simp_all add: serving_peer_def role_of_def Role_OnRequest_def createRole_def mwq.get_set mwq.get_create
       request0_def corr_ok_def maxCorrelation_def)

lemma sx_commute: "ctx\<lparr>sx_cbs := a, sx_req := b\<rparr> = ctx\<lparr>sx_req := b, sx_cbs := a\<rparr>"
  by simp

text \<open>
  The callbacks registered with \<open>Then\<close> on the context of a stream request are never run:
  answering gives the same result whatever they are.
\<close>

theorem stream_callbacks_never_run:
  "Reader_Reply lib app data (ctx\<lparr>sx_cbs := cbs\<rparr>, p) =
     map_option (\<lambda>(r, c, q). (r, c\<lparr>sx_cbs := cbs\<rparr>, q)) (Reader_Reply lib app data (ctx, p)) \<and>
   Writer_Reply lib app data (ctx\<lparr>sx_cbs := cbs\<rparr>, p) =
     map_option (\<lambda>(r, c, q). (r, c\<lparr>sx_cbs := cbs\<rparr>, q)) (Writer_Reply lib app data (ctx, p))"
  by (cases "stream_reply lib app data (sx_req ctx, p)")
     (auto simp: Reader_Reply_def Writer_Reply_def on_request_def option.map_comp comp_def sx_commute
       split: sum.split prod.split)

text \<open>
  The text of a rejection is lost: whatever string a handler rejects with, the response is the
  same, and its payload is an empty JSON object.
\<close>

theorem reject_text_is_lost:
  assumes "rq_cbs ctx = []" and "corr_ok (rq_corr ctx)"
  shows "\<exists>res. serializeResponse (pl_cvt lib) typeReject (rq_corr ctx) (DatatypeJSON # bytes_of ''{}'') = Some res \<and>
    (\<forall>words. map_option (\<lambda>(_, _, q). p_msgs q) (ctx_Reject lib app (RejectString words) (ctx, p)) =
       Some (p_msgs p @ [(mc_unit (rq_msg ctx), res)]))"
proof -
  obtain res where res: "serializeResponse (pl_cvt lib) typeReject (rq_corr ctx) (DatatypeJSON # bytes_of ''{}'') = Some res"
    using corr_ok_enc [OF assms(2)] by (simp add: serializeResponse_def)
  have "map_option (\<lambda>(_, _, q). p_msgs q) (ctx_Reject lib app (RejectString words) (ctx, p)) =
       Some (p_msgs p @ [(mc_unit (rq_msg ctx), res)])" for words
    using assms(1) res
    by (auto simp: ctx_Reject_def runCallbacks_def send_answer_def nil_or_error_def DatatypeJSON_def
        dest: write_msgs split: prod.split sum.split)
  then show ?thesis using res by blast
qed

theorem reject_text_is_lost_witness:
  "\<exists>res. serializeResponse (pl_cvt plain_peer_lib) typeReject (rq_corr request0) (DatatypeJSON # bytes_of ''{}'') = Some res \<and>
    (\<forall>words. map_option (\<lambda>(_, _, q). p_msgs q) (ctx_Reject plain_peer_lib idle_app (RejectString words) (request0, serving_peer)) =
       Some (p_msgs serving_peer @ [(mc_unit (rq_msg request0), res)]))"
  by (rule reject_text_is_lost) (simp_all add: request0_def corr_ok_def maxCorrelation_def)

end
