(* ===== verification/Requests.thy ===== *)
theory Requests
  imports Contexts
begin

text \<open>
  Sending messages, requests and requests for streams to a unit (unit_internal.go) and to the
  next unit of a destination (Destination.go).  A call that waits for its response is split at
  the receive on its channel: the first part gives the channel, the second part is what it
  returns once a callback is there.
\<close>

section \<open>Messages\<close>

record emitStruct =
  es_role :: string
  es_event :: string
  es_ignoreUnitClose :: bool
  es_data :: goval

definition unit_send :: "peer_lib \<Rightarrow> unitref \<Rightarrow> emitStruct \<Rightarrow> peer \<Rightarrow> goerror option \<times> peer" where
  "unit_send lib u headers p =
     (case markDataType (es_data headers) of
        None \<Rightarrow> (Some (pl_marshalErr lib (es_data headers)), p)
      | Some marked \<Rightarrow>
          (case writeMsgToSomeConnection (pl_wrap lib) u (serializeOneway (es_role headers) (es_event headers) marked) p of
             (Inl err, p1) \<Rightarrow> (Some err, p1)
           | (Inr _, p1) \<Rightarrow> (None, p1)))"

section \<open>Requests\<close>

definition set_callbacks :: "unitref \<Rightarrow> message_ctx reqCallbackController \<Rightarrow> peer \<Rightarrow> peer" where
  "set_callbacks u ctr p = set_unit u ((p_store p u)\<lparr>u_callbackCtr := ctr\<rparr>) p"

definition set_streams :: "unitref \<Rightarrow> streamController \<Rightarrow> peer \<Rightarrow> peer" where
  "set_streams u ctr p = set_unit u ((p_store p u)\<lparr>u_streamCtr := ctr\<rparr>) p"

text \<open>Completing the request with an error when its message could not be written.\<close>

definition fail_request :: "unitref \<Rightarrow> correlation \<Rightarrow> goerror \<Rightarrow> peer \<Rightarrow> peer exec" where
  "fail_request u corr err p =
     (case respond (u_callbackCtr (p_store p u)) corr \<lparr>cb_ctx = None, cb_err = Some err\<rparr> of
        Done ctr \<Rightarrow> Done (set_callbacks u ctr p)
      | Blocked \<Rightarrow> Blocked
      | Crashed \<Rightarrow> Crashed)"

definition unit_request ::
    "peer_lib \<Rightarrow> unitref \<Rightarrow> emitStruct \<Rightarrow> peer \<Rightarrow> ((goerror + nat) \<times> peer) exec" where
  "unit_request lib u headers p =
     (case markDataType (es_data headers) of
        None \<Rightarrow> Done (Inl (pl_marshalErr lib (es_data headers)), p)
      | Some marked \<Rightarrow>
          (case prepare (u_callbackCtr (p_store p u)) (es_ignoreUnitClose headers) of
             Blocked \<Rightarrow> Blocked
           | Crashed \<Rightarrow> Crashed
           | Done (corr, ch, ctr) \<Rightarrow>
               let p1 = set_callbacks u ctr p in
               (case serializeRequest (pl_cvt lib) (es_role headers) (es_event headers) corr marked of
                  None \<Rightarrow> Blocked
                | Some msg \<Rightarrow>
                    (case writeMsgToSomeConnection (pl_wrap lib) u msg p1 of
                       (Inr _, p2) \<Rightarrow> Done (Inr ch, p2)
                     | (Inl err, p2) \<Rightarrow>
                         (case fail_request u corr err p2 of
                            Done p3 \<Rightarrow> Done (Inr ch, p3)
                          | Blocked \<Rightarrow> Blocked
                          | Crashed \<Rightarrow> Crashed)))))"

text \<open>
  After \<open>cb := <-ch\<close>: the context of the response gets the role and the event of the request.
  \<open>None\<close> means that the call still waits.
\<close>

definition name_response :: "emitStruct \<Rightarrow> message_ctx option \<Rightarrow> message_ctx option" where
  "name_response headers res =
     map_option (\<lambda>c. c\<lparr>mc_role := es_role headers, mc_event := es_event headers\<rparr>) res"

definition unit_request_result ::
    "unitref \<Rightarrow> emitStruct \<Rightarrow> nat \<Rightarrow> peer \<Rightarrow> (message_ctx option \<times> goerror option) option" where
  "unit_request_result u headers ch p =
     (case chan_buf (u_callbackCtr (p_store p u)) ch of
        [] \<Rightarrow> None
      | cb # _ \<Rightarrow> Some (name_response headers (cb_ctx cb), cb_err cb))"

section \<open>Requests for streams\<close>

text \<open>
  The common part of \<open>newReader\<close> and \<open>newWriter\<close>.  The result names the callback channel, the
  number and the address of the new stream, and the connection, which is nil if writing failed.
\<close>

definition stream_request ::
    "peer_lib \<Rightarrow> byte \<Rightarrow> unitref \<Rightarrow> emitStruct \<Rightarrow> peer
     \<Rightarrow> ((goerror + nat \<times> correlation \<times> nat \<times> conn option) \<times> peer) exec" where
  "stream_request lib t u headers p =
     (case markDataType (es_data headers) of
        None \<Rightarrow> Done (Inl (pl_marshalErr lib (es_data headers)), p)
      | Some marked \<Rightarrow>
          (case prepare (u_callbackCtr (p_store p u)) (es_ignoreUnitClose headers) of
             Blocked \<Rightarrow> Blocked
           | Crashed \<Rightarrow> Crashed
           | Done (corr, ch, ctr) \<Rightarrow>
               let p1 = set_callbacks u ctr p in
               (case createStream (u_streamCtr (p_store p1 u)) of
                  Blocked \<Rightarrow> Blocked
                | Crashed \<Rightarrow> Crashed
                | Done (channel, sc, sctr) \<Rightarrow>
                    let p2 = set_streams u sctr p1 in
                    (case serializeStreamRequest (pl_cvt lib) t (es_role headers) (es_event headers) corr channel marked of
                       None \<Rightarrow> Blocked
                     | Some msg \<Rightarrow>
                         (case writeMsgToSomeConnection (pl_wrap lib) u msg p2 of
                            (Inr c, p3) \<Rightarrow> Done (Inr (ch, channel, sc, Some c), p3)
                          | (Inl err, p3) \<Rightarrow>
                              (case fail_request u corr err p3 of
                                 Done p4 \<Rightarrow> Done (Inr (ch, channel, sc, None), p4)
                               | Blocked \<Rightarrow> Blocked
                               | Crashed \<Rightarrow> Crashed))))))"

definition newReader ::
    "peer_lib \<Rightarrow> unitref \<Rightarrow> emitStruct \<Rightarrow> peer
     \<Rightarrow> ((goerror + nat \<times> correlation \<times> nat \<times> conn option) \<times> peer) exec" where
  "newReader lib u headers p = stream_request lib typeReader u headers p"

definition newWriter ::
    "peer_lib \<Rightarrow> unitref \<Rightarrow> emitStruct \<Rightarrow> peer
     \<Rightarrow> ((goerror + nat \<times> correlation \<times> nat \<times> conn option) \<times> peer) exec" where
  "newWriter lib u headers p = stream_request lib typeWriter u headers p"

text \<open>
  The second parts: whatever the response, the end of the stream is made and the stream bound
  to the connection.  \<open>None\<close> means that the call still waits.
\<close>

definition newReader_result ::
    "peer_lib \<Rightarrow> unitref \<Rightarrow> emitStruct \<Rightarrow> nat \<times> correlation \<times> nat \<times> conn option \<Rightarrow> peer
     \<Rightarrow> ((message_ctx option \<times> readable \<times> goerror option) \<times> peer) option" where
  "newReader_result lib u headers r p =
     (case r of (ch, channel, _, conn) \<Rightarrow>
       do { (ctx, err) \<leftarrow> unit_request_result u headers ch p;
            pref \<leftarrow> createStreamPrefix (pl_cvt lib) channel streamByteQuota;
            Some ((ctx, new_readable conn channel pref, err),
              set_streams u (StreamController.bindConn (u_streamCtr (p_store p u)) conn channel) p) })"

definition newWriter_result ::
    "peer_lib \<Rightarrow> unitref \<Rightarrow> emitStruct \<Rightarrow> nat \<times> correlation \<times> nat \<times> conn option \<Rightarrow> peer
     \<Rightarrow> ((message_ctx option \<times> writable \<times> goerror option) \<times> peer) option" where
  "newWriter_result lib u headers r p =
     (case r of (ch, channel, sc, conn) \<Rightarrow>
       do { (ctx, err) \<leftarrow> unit_request_result u headers ch p;
            pref \<leftarrow> createStreamPrefix (pl_cvt lib) channel streamByteChunk;
            Some ((ctx, new_writable conn sc pref, err),
              set_streams u (StreamController.bindConn (u_streamCtr (p_store p u)) conn channel) p) })"

section \<open>Destinations\<close>

record emitOptions =
  eo_Data :: goval
  eo_Unit :: "unitref option"
  eo_IgnoreUnitClose :: bool

text \<open>The unit of the options or else the next one; \<open>order\<close> is the order of the iteration.\<close>

definition choose_unit ::
    "unitref list \<Rightarrow> string \<Rightarrow> emitOptions \<Rightarrow> peer \<Rightarrow> (goerror + unitref) \<times> peer" where
  "choose_unit order name opts p =
     (case eo_Unit opts of
        Some u \<Rightarrow> (Inr u, p)
      | None \<Rightarrow>
          (case p_destinations p name of
             None \<Rightarrow> (Inl (ErrorString ''''), p)
           | Some dest \<Rightarrow>
               (case nextUnit order dest of (r, dest1) \<Rightarrow>
                  (r, p\<lparr>p_destinations := (p_destinations p)(name \<mapsto> dest1)\<rparr>))))"

definition headers_of :: "string \<Rightarrow> string \<Rightarrow> emitOptions \<Rightarrow> emitStruct" where
  "headers_of name event opts =
     \<lparr>es_role = name, es_event = event, es_ignoreUnitClose = eo_IgnoreUnitClose opts, es_data = eo_Data opts\<rparr>"

definition Destination_Send ::
    "peer_lib \<Rightarrow> unitref list \<Rightarrow> string \<Rightarrow> string \<Rightarrow> emitOptions \<Rightarrow> peer \<Rightarrow> goerror option \<times> peer" where
  "Destination_Send lib order name event opts p =
     (case choose_unit order name opts p of
        (Inl err, p1) \<Rightarrow> (Some err, p1)
      | (Inr u, p1) \<Rightarrow> unit_send lib u ((headers_of name event opts)\<lparr>es_ignoreUnitClose := False\<rparr>) p1)"

definition Destination_Request ::
    "peer_lib \<Rightarrow> unitref list \<Rightarrow> string \<Rightarrow> string \<Rightarrow> emitOptions \<Rightarrow> peer
     \<Rightarrow> ((goerror + unitref \<times> nat) \<times> peer) exec" where
  "Destination_Request lib order name event opts p =
     (case choose_unit order name opts p of
        (Inl err, p1) \<Rightarrow> Done (Inl err, p1)
      | (Inr u, p1) \<Rightarrow>
          (case unit_request lib u (headers_of name event opts) p1 of
             Done (Inl err, p2) \<Rightarrow> Done (Inl err, p2)
           | Done (Inr ch, p2) \<Rightarrow> Done (Inr (u, ch), p2)
           | Blocked \<Rightarrow> Blocked
           | Crashed \<Rightarrow> Crashed))"

definition Destination_NewReader ::
    "peer_lib \<Rightarrow> unitref list \<Rightarrow> string \<Rightarrow> string \<Rightarrow> emitOptions \<Rightarrow> peer
     \<Rightarrow> ((goerror + unitref \<times> nat \<times> correlation \<times> nat \<times> conn option) \<times> peer) exec" where
  "Destination_NewReader lib order name event opts p =
     (case choose_unit order name opts p of
        (Inl err, p1) \<Rightarrow> Done (Inl err, p1)
      | (Inr u, p1) \<Rightarrow>
          (case newReader lib u (headers_of name event opts) p1 of
             Done (Inl err, p2) \<Rightarrow> Done (Inl err, p2)
           | Done (Inr r, p2) \<Rightarrow> Done (Inr (u, r), p2)
           | Blocked \<Rightarrow> Blocked
           | Crashed \<Rightarrow> Crashed))"

definition Destination_NewWriter ::
    "peer_lib \<Rightarrow> unitref list \<Rightarrow> string \<Rightarrow> string \<Rightarrow> emitOptions \<Rightarrow> peer
     \<Rightarrow> ((goerror + unitref \<times> nat \<times> correlation \<times> nat \<times> conn option) \<times> peer) exec" where
  "Destination_NewWriter lib order name event opts p =
     (case choose_unit order name opts p of
        (Inl err, p1) \<Rightarrow> Done (Inl err, p1)
      | (Inr u, p1) \<Rightarrow>
          (case newWriter lib u (headers_of name event opts) p1 of
             Done (Inl err, p2) \<Rightarrow> Done (Inl err, p2)
           | Done (Inr r, p2) \<Rightarrow> Done (Inr (u, r), p2)
           | Blocked \<Rightarrow> Blocked
           | Crashed \<Rightarrow> Crashed))"

section \<open>Lemmas\<close>

lemma set_callbacks_simps [simp]:
  "u_callbackCtr (p_store (set_callbacks u ctr p) v) = (if v = u then ctr else u_callbackCtr (p_store p v))"
  "p_msgs (set_callbacks u ctr p) = p_msgs p" "p_frames (set_callbacks u ctr p) = p_frames p"
  "p_roles (set_callbacks u ctr p) = p_roles p" "p_go (set_callbacks u ctr p) = p_go p"
  "u_id (p_store (set_callbacks u ctr p) v) = u_id (p_store p v)"
  "u_conns (p_store (set_callbacks u ctr p) v) = u_conns (p_store p v)"
  "u_streamCtr (p_store (set_callbacks u ctr p) v) = u_streamCtr (p_store p v)"
  "p_net (set_callbacks u ctr p) = p_net p" "p_calls (set_callbacks u ctr p) = p_calls p"
  "v \<noteq> u \<Longrightarrow> p_store (set_callbacks u ctr p) v = p_store p v"
  by (simp_all add: set_callbacks_def)

text \<open>What \<open>prepare\<close> gives: a waiter under the next correlation, on an empty channel.\<close>

lemma prepared:
  assumes "cb_inv s" and "next_chan s < 2 ^ 53"
  shows "\<exists>t. prepare s ign = Done (ids (next_chan s), next_chan s, t) \<and> cb_inv t \<and>
    waiters t (ids (next_chan s)) = Some \<lparr>waiter_ch = next_chan s, ignUnitClose = ign\<rparr> \<and>
    chan_buf t = chan_buf s \<and> chan_buf s (next_chan s) = [] \<and> next_chan t = Suc (next_chan s)"
proof -
  let ?t = "s\<lparr>next_chan := Suc (next_chan s), last_corr := ids (next_chan s),
     timers := insert (next_chan s) (timers s),
     waiters := (waiters s)(ids (next_chan s) \<mapsto> \<lparr>waiter_ch = next_chan s, ignUnitClose = ign\<rparr>)\<rparr>"
  have p: "prepare s ign = Done (ids (next_chan s), next_chan s, ?t)" by (rule prepare_ids [OF assms(1)])
  moreover have "cb_inv ?t" by (rule cb_inv_prepare [OF assms p])
  moreover have "chan_buf s (next_chan s) = []" using assms(1) by (simp add: cb_inv_def untouched_def)
  ultimately show ?thesis by (intro exI [of _ ?t]) simp
qed

lemma failed:
  assumes "cb_inv (u_callbackCtr (p_store p u))"
    and "waiters (u_callbackCtr (p_store p u)) corr = Some cw"
  shows "\<exists>t. fail_request u corr err p = Done (set_callbacks u t p) \<and>
    chan_buf t (waiter_ch cw) = [\<lparr>cb_ctx = None, cb_err = Some err\<rparr>] \<and> waiters t corr = None"
  using complete_inv [OF assms, of "\<lparr>cb_ctx = None, cb_err = Some err\<rparr>"] assms(2)
  by (auto simp: fail_request_def respond_def)

lemma unit_request_outcome:
  assumes "cb_reach (u_callbackCtr (p_store p u))" and "next_chan (u_callbackCtr (p_store p u)) < 2 ^ 53"
    and "markDataType (es_data headers) = Some m"
    and "enumerates (ne_order (p_net p (p_calls p))) (u_conns (p_store p u))"
  shows "\<exists>ch corr msg p'. unit_request lib u headers p = Done (Inr ch, p') \<and> corr_ok corr \<and>
    waiters (u_callbackCtr (p_store p u)) corr = None \<and>
    serializeRequest (pl_cvt lib) (es_role headers) (es_event headers) corr m = Some msg \<and>
    p_msgs p' = p_msgs p @ [(u, msg)] \<and>
    (if \<exists>c \<in> u_conns (p_store p u). ne_fail (p_net p (p_calls p)) c = None
     then unit_request_result u headers ch p' = None \<and>
       (\<exists>c \<in> u_conns (p_store p u). p_frames p' = p_frames p @ [(c, msg)]) \<and>
       waiters (u_callbackCtr (p_store p' u)) corr =
         Some \<lparr>waiter_ch = ch, ignUnitClose = es_ignoreUnitClose headers\<rparr>
     else unit_request_result u headers ch p' =
         Some (None, Some (no_conns_err (card (u_conns (p_store p u))) (u_id (p_store p u)))) \<and>
       p_frames p' = p_frames p \<and> waiters (u_callbackCtr (p_store p' u)) corr = None)"
proof -
  let ?s = "u_callbackCtr (p_store p u)"
  let ?ch = "next_chan ?s"
  let ?corr = "ids ?ch"
  have inv: "cb_inv ?s" using assms(1,2) by (simp add: cb_reach_inv)
  obtain t where t: "prepare ?s (es_ignoreUnitClose headers) = Done (?corr, ?ch, t)" "cb_inv t"
      "waiters t ?corr = Some \<lparr>waiter_ch = ?ch, ignUnitClose = es_ignoreUnitClose headers\<rparr>"
      "chan_buf t ?ch = []"
    using prepared [OF inv assms(2), of "es_ignoreUnitClose headers"] by auto
  have ok: "corr_ok ?corr" by (rule corr_ok_ids)
  then obtain msg where msg: "serializeRequest (pl_cvt lib) (es_role headers) (es_event headers) ?corr m = Some msg"
    by (auto simp: serializeRequest_def corr_ok_enc Let_def)
  obtain res p2 where w: "writeMsgToSomeConnection (pl_wrap lib) u msg (set_callbacks u t p) = (res, p2)"
    by (metis surj_pair)
  note out = write_outcome [OF _ w, simplified, OF assms(4)]
  note frame = write_frameD [OF w, simplified]
  have none: "waiters ?s ?corr = None" by (rule prepare_fresh [OF inv assms(2)])
  show ?thesis
  proof (cases res)
    case (Inr c)
    then have "unit_request lib u headers p = Done (Inr ?ch, p2)"
      using t(1) msg w assms(3) by (simp add: unit_request_def)
    then show ?thesis
      using out ok none msg frame t Inr
      by (intro exI [of _ ?ch] exI [of _ ?corr] exI [of _ msg] exI [of _ p2])
         (auto simp: unit_request_result_def split: if_splits)
  next
    case (Inl err)
    obtain t3 where t3: "fail_request u ?corr err p2 = Done (set_callbacks u t3 p2)"
        "chan_buf t3 ?ch = [\<lparr>cb_ctx = None, cb_err = Some err\<rparr>]" "waiters t3 ?corr = None"
      using failed [of p2 u ?corr _ err] frame(8) [of u] t(2,3) by auto
    then have "unit_request lib u headers p = Done (Inr ?ch, set_callbacks u t3 p2)"
      using t(1) msg w assms(3) Inl by (simp add: unit_request_def)
    then show ?thesis
      using out ok none msg frame t3 Inl
      by (intro exI [of _ ?ch] exI [of _ ?corr] exI [of _ msg] exI [of _ "set_callbacks u t3 p2"])
         (auto simp: unit_request_result_def name_response_def split: if_splits)
  qed
qed

text \<open>A request is a step of its controller, and at most one more if it fails.\<close>

lemma unit_request_reach:
  assumes "cb_reach (u_callbackCtr (p_store p u))" and "unit_request lib u headers p = Done (r, q)"
  shows "cb_reach (u_callbackCtr (p_store q u)) \<and>
    next_chan (u_callbackCtr (p_store q u)) \<le> Suc (next_chan (u_callbackCtr (p_store p u)))"
proof (cases "markDataType (es_data headers)")
  case None
  then show ?thesis using assms by (simp add: unit_request_def)
next
  case (Some m)
  then obtain corr ch t msg where t: "prepare (u_callbackCtr (p_store p u)) (es_ignoreUnitClose headers) = Done (corr, ch, t)"
      "serializeRequest (pl_cvt lib) (es_role headers) (es_event headers) corr m = Some msg"
    using assms(2) by (auto simp: unit_request_def Let_def split: exec.splits option.splits)
  have reach: "cb_reach t" "next_chan t = Suc (next_chan (u_callbackCtr (p_store p u)))"
    using cb_prepare [OF assms(1) t(1)] prepare_next [OF t(1)] by simp_all
  obtain res p2 where w: "writeMsgToSomeConnection (pl_wrap lib) u msg (set_callbacks u t p) = (res, p2)"
    by (metis surj_pair)
  have p2: "u_callbackCtr (p_store p2 u) = t" using write_frameD(8) [OF w, of u] by simp
  have "respond s corr cb = Done t' \<Longrightarrow> cb_reach s \<Longrightarrow> cb_reach t' \<and> next_chan t' = next_chan s"
    for s cb and t' :: "message_ctx reqCallbackController"
    using cb_respond respond_next by blast
  then show ?thesis
    using assms(2) Some t w p2 reach
    by (cases res) (fastforce simp: unit_request_def Let_def fail_request_def split: exec.splits)+
qed

section \<open>Properties\<close>

text \<open>
  C10.  A request always returns a channel, after one message with a fresh correlation.
  Either the message was written to a connection and the request waits, registered under that
  correlation, or no connection took it and the channel already holds that error.
\<close>

theorem request_waits_or_fails:
  assumes "cb_reach (u_callbackCtr (p_store p u))" and "next_chan (u_callbackCtr (p_store p u)) < 2 ^ 53"
    and "markDataType (es_data headers) = Some m"
    and "enumerates (ne_order (p_net p (p_calls p))) (u_conns (p_store p u))"
  shows "\<exists>ch corr msg p'. unit_request lib u headers p = Done (Inr ch, p') \<and> corr_ok corr \<and>
    waiters (u_callbackCtr (p_store p u)) corr = None \<and>
    serializeRequest (pl_cvt lib) (es_role headers) (es_event headers) corr m = Some msg \<and>
    p_msgs p' = p_msgs p @ [(u, msg)] \<and>
    (if \<exists>c \<in> u_conns (p_store p u). ne_fail (p_net p (p_calls p)) c = None
     then unit_request_result u headers ch p' = None \<and>
       (\<exists>c \<in> u_conns (p_store p u). p_frames p' = p_frames p @ [(c, msg)]) \<and>
       waiters (u_callbackCtr (p_store p' u)) corr =
         Some \<lparr>waiter_ch = ch, ignUnitClose = es_ignoreUnitClose headers\<rparr>
     else unit_request_result u headers ch p' =
         Some (None, Some (no_conns_err (card (u_conns (p_store p u))) (u_id (p_store p u)))) \<and>
       p_frames p' = p_frames p \<and> waiters (u_callbackCtr (p_store p' u)) corr = None)"
  using assms by (rule unit_request_outcome)

definition plain_headers :: emitStruct where
  "plain_headers = \<lparr>es_role = ''r'', es_event = ''e'', es_ignoreUnitClose = False, es_data = VString ''hi''\<rparr>"

theorem request_waits_or_fails_witness:
  "\<exists>ch msg p'. unit_request plain_peer_lib 0 plain_headers two_conns_peer = Done (Inr ch, p') \<and>
    p_msgs p' = [(0, msg)] \<and> unit_request_result 0 plain_headers ch p' = None \<and>
    (\<exists>c \<in> {1, 2}. p_frames p' = [(c, msg)])"
proof -
  have unit: "p_store two_conns_peer 0 = no_unit\<lparr>u_id := ''x'', u_conns := {1, 2}\<rparr>"
    and net: "p_net two_conns_peer = (\<lambda>_. two_conns_env)" "p_msgs two_conns_peer = []" "p_frames two_conns_peer = []"
    by (simp_all add: two_conns_peer_def NewPeer_def)
  have "\<exists>c \<in> {1, 2}. ne_fail two_conns_env c = None" by (simp add: two_conns_env_def)
  moreover have "enumerates (ne_order two_conns_env) {1, 2}" by (auto simp: two_conns_env_def enumerates_def)
  moreover have "next_chan (createCallbackController :: message_ctx reqCallbackController) = 0"
    by (simp add: createCallbackController_def)
  ultimately show ?thesis
    using request_waits_or_fails [of two_conns_peer 0 plain_headers "3 # bytes_of ''hi''" plain_peer_lib] cb_init
    by (auto simp: unit net no_unit_def plain_headers_def)
qed

end
