(* ===== verification/Handler.thy ===== *)
theory Handler
  imports Requests
begin

text \<open>
  The dispatch of incoming messages (handler.go) and the loop that reads a connection
  (unit_internal.go).  A panic while a message is served is recovered and closes the unit; a
  message whose serving never returns keeps one of the goroutines that serve messages.
\<close>

text \<open>
  The parameters: what \<open>strconv.ParseFloat\<close> accepts beyond plain decimals, the JSON decoders of
  the two service messages, which may fill in part of the value and report an error, and the
  text of a run-time panic.
\<close>

record handler_lib =
  hl_more :: "string \<Rightarrow> gofloat option"
  hl_parseRoles :: "bytes \<Rightarrow> (int \<times> string list) \<times> goerror option"
  hl_parseAcquaint :: "bytes \<Rightarrow> (string \<times> string list \<times> string) \<times> goerror option"
  hl_panic :: string

section \<open>Parts of the dispatch\<close>

definition of_parse :: "'a option \<Rightarrow> ('a \<Rightarrow> peer exec) \<Rightarrow> peer exec" where
  "of_parse x k = (case x of None \<Rightarrow> Crashed | Some y \<Rightarrow> k y)"

text \<open>\<open>ctx.Data, err = retrieveDataByType(t, rawData)\<close> with the closing of the connection on an error.\<close>

definition with_data ::
    "handler_lib \<Rightarrow> message_ctx \<Rightarrow> byte \<Rightarrow> bytes \<Rightarrow> peer \<Rightarrow> (goval \<Rightarrow> peer exec) \<Rightarrow> peer exec" where
  "with_data hl ctx t rawData p k =
     (case retrieveDataByType (hl_more hl) t rawData of
        Panic \<Rightarrow> Crashed
      | Error _ \<Rightarrow> Done (spawn (GoCloseConn (mc_conn ctx) errWrongMessageType
                                 (''wrong data type: '' @ Datatype_String t)) p)
      | Ok v \<Rightarrow> k v)"

definition no_such_role :: "string \<Rightarrow> string \<Rightarrow> string" where
  "no_such_role name i = ''No such role ['' @ name @ ''] on peer '' @ i"

text \<open>\<open>ctx.Reject\<close> on a new context: there are no callbacks, so the application plays no part.\<close>

definition no_app :: app where
  "no_app = \<lparr>a_msg = (\<lambda>_ _. None), a_req = (\<lambda>_ _. None), a_reader = (\<lambda>_ _. None), a_writer = (\<lambda>_ _. None)\<rparr>"

definition reject_unknown :: "peer_lib \<Rightarrow> request_ctx \<Rightarrow> string \<Rightarrow> peer \<Rightarrow> peer exec" where
  "reject_unknown lib ctx roleName p =
     (case ctx_Reject lib no_app (RejectString (no_such_role roleName (p_id p))) (ctx, p) of
        None \<Rightarrow> Blocked
      | Some (_, _, p1) \<Rightarrow> Done p1)"

definition new_request :: "message_ctx \<Rightarrow> correlation \<Rightarrow> request_ctx" where
  "new_request ctx corr =
     \<lparr>rq_msg = ctx, rq_Res = VNil, rq_Err = None, rq_corr = corr, rq_r = False, rq_cbs = []\<rparr>"

definition respond_now ::
    "unitref \<Rightarrow> correlation \<Rightarrow> message_ctx callback \<Rightarrow> peer \<Rightarrow> peer exec" where
  "respond_now u corr cb p =
     (case respond (u_callbackCtr (p_store p u)) corr cb of
        Done ctr \<Rightarrow> Done (set_callbacks u ctr p)
      | Blocked \<Rightarrow> Blocked
      | Crashed \<Rightarrow> Crashed)"

section \<open>The cases\<close>

definition serve_message :: "handler_lib \<Rightarrow> peer_lib \<Rightarrow> message_ctx \<Rightarrow> peer \<Rightarrow> peer exec" where
  "serve_message hl lib ctx p =
     of_parse (parseOneway (pl_cvt lib) (mc_raw ctx)) (\<lambda>(roleName, event, t, rawData).
       with_data hl ctx t rawData p (\<lambda>v.
         let ctx1 = ctx\<lparr>mc_role := roleName, mc_T := t, mc_origin := rawData, mc_event := event, mc_Data := v\<rparr>
         in if getRole p roleName = None then Done p
            else Done (spawn (GoEmitMsg roleName ctx1) p)))"

definition serve_request :: "handler_lib \<Rightarrow> peer_lib \<Rightarrow> message_ctx \<Rightarrow> peer \<Rightarrow> peer exec" where
  "serve_request hl lib ctx p =
     of_parse (parseRequest (pl_cvt lib) (mc_raw ctx)) (\<lambda>(roleName, event, corr, t, rawData).
       with_data hl ctx t rawData p (\<lambda>v.
         let ctx1 = ctx\<lparr>mc_role := roleName, mc_T := t, mc_origin := rawData, mc_event := event, mc_Data := v\<rparr>;
             rc = new_request ctx1 corr
         in if getRole p roleName = None then reject_unknown lib rc roleName p
            else Done (spawn (GoEmitRequest roleName rc) p)))"

definition serve_stream ::
    "handler_lib \<Rightarrow> peer_lib \<Rightarrow> (string \<Rightarrow> stream_ctx \<Rightarrow> go) \<Rightarrow> message_ctx \<Rightarrow> peer \<Rightarrow> peer exec" where
  "serve_stream hl lib emit ctx p =
     of_parse (parseStreamRequest (pl_cvt lib) (mc_raw ctx)) (\<lambda>(roleName, event, corr, channel, t, rawData).
       with_data hl ctx t rawData p (\<lambda>v.
         let ctx1 = ctx\<lparr>mc_role := roleName, mc_event := event, mc_T := t, mc_origin := rawData,
                        mc_channel := channel, mc_Data := v\<rparr>;
             rc = new_request ctx1 corr
         in if getRole p roleName = None then reject_unknown lib rc roleName p
            else Done (spawn (emit roleName \<lparr>sx_req = rc, sx_cbs = []\<rparr>) p)))"

definition serve_stream_response ::
    "handler_lib \<Rightarrow> peer_lib \<Rightarrow> bool \<Rightarrow> message_ctx \<Rightarrow> peer \<Rightarrow> peer exec" where
  "serve_stream_response hl lib rejected ctx p =
     of_parse (parseStreamResponse (pl_cvt lib) (mc_raw ctx)) (\<lambda>(corr, channel, t, rawData).
       with_data hl ctx t rawData p (\<lambda>v.
         let ctx1 = ctx\<lparr>mc_channel := channel, mc_T := t, mc_origin := rawData, mc_Data := v\<rparr>;
             err = (if rejected then Some (ErrorString (string_of (visible (mc_raw ctx)))) else None)
         in Done (spawn (GoRespond (mc_unit ctx) corr \<lparr>cb_ctx = Some ctx1, cb_err = err\<rparr>) p)))"

definition serve_resolve :: "handler_lib \<Rightarrow> peer_lib \<Rightarrow> message_ctx \<Rightarrow> peer \<Rightarrow> peer exec" where
  "serve_resolve hl lib ctx p =
     of_parse (parseResponse (pl_cvt lib) (mc_raw ctx)) (\<lambda>(corr, t, rawData).
       with_data hl ctx t rawData p (\<lambda>v.
         let ctx1 = ctx\<lparr>mc_T := t, mc_origin := rawData, mc_Data := v\<rparr>
         in respond_now (mc_unit ctx) corr \<lparr>cb_ctx = Some ctx1, cb_err = None\<rparr> p))"

definition serve_reject :: "handler_lib \<Rightarrow> peer_lib \<Rightarrow> message_ctx \<Rightarrow> peer \<Rightarrow> peer exec" where
  "serve_reject hl lib ctx p =
     of_parse (parseResponse (pl_cvt lib) (mc_raw ctx)) (\<lambda>(corr, t, rawData).
       with_data hl ctx t rawData p (\<lambda>v.
         let ctx1 = ctx\<lparr>mc_T := t, mc_origin := rawData, mc_Data := v\<rparr>
         in Done (spawn (GoRespond (mc_unit ctx) corr
              \<lparr>cb_ctx = Some ctx1, cb_err = Some (ErrorString (string_of rawData))\<rparr>) p)))"

definition serve_roles :: "handler_lib \<Rightarrow> message_ctx \<Rightarrow> peer \<Rightarrow> peer exec" where
  "serve_roles hl ctx p =
     (let u = mc_unit ctx in
      case hl_parseRoles hl (visible (mc_raw ctx)) of ((i, roles), err) \<Rightarrow>
        if i \<le> getLastRoleSession p u then Done p
        else
          let p1 = setLastRoleSession u i p in
          if err \<noteq> None then
            Done (spawn (GoCloseConn (mc_conn ctx) errIncorrectMessageStructure
              (''wrong roles message message: '' @ string_of (visible (mc_raw ctx)))) p1)
          else
            Done (spawn (GoOnNewUnitRoles u) (setRoles u roles p1)))"

text \<open>\<open>order\<close> is the order of iteration over the destinations; the loops look for a common name.\<close>

definition serve_acquaint :: "handler_lib \<Rightarrow> string list \<Rightarrow> message_ctx \<Rightarrow> peer \<Rightarrow> peer exec" where
  "serve_acquaint hl order ctx p =
     (case hl_parseAcquaint hl (visible (mc_raw ctx)) of ((am_ID, am_Roles, am_Address), err) \<Rightarrow>
        let p1 = (if err \<noteq> None then
                    spawn (GoCloseConn (mc_conn ctx) errIncorrectMessageStructure
                      (''wrong acquaint message structure: '' @ string_of (visible (mc_raw ctx)))) p
                  else p)
        in if p_friendly p1 = False \<or> Peer_Unit p1 am_ID \<noteq> None then Done p1
           else if \<exists>dest \<in> set (ListDestinations order p1). dest \<in> set am_Roles then Done (spawn (GoConnect am_Address) p1)
           else Done p1)"

definition serve_unknown :: "message_ctx \<Rightarrow> peer \<Rightarrow> peer exec" where
  "serve_unknown ctx p =
     (case visible (mc_raw ctx) of
        [] \<Rightarrow> Crashed
      | b # _ \<Rightarrow> Done (spawn (GoCloseConn (mc_conn ctx) errWrongMessageType
                          (''wrong message type: '' @ show_nat (unat b))) p))"

section \<open>The dispatch\<close>

definition serve_switch :: "handler_lib \<Rightarrow> peer_lib \<Rightarrow> string list \<Rightarrow> message_ctx \<Rightarrow> peer \<Rightarrow> peer exec" where
  "serve_switch hl lib order ctx p =
     (if mc_w ctx = typeMessage then serve_message hl lib ctx p
      else if mc_w ctx = typeRequest then serve_request hl lib ctx p
      else if mc_w ctx = typeReader then serve_stream hl lib GoEmitWriter ctx p
      else if mc_w ctx = typeWriter then serve_stream hl lib GoEmitReader ctx p
      else if mc_w ctx = typeStreamResolve then serve_stream_response hl lib False ctx p
      else if mc_w ctx = typeStreamReject then serve_stream_response hl lib True ctx p
      else if mc_w ctx = typeResolve then serve_resolve hl lib ctx p
      else if mc_w ctx = typeReject then serve_reject hl lib ctx p
      else if mc_w ctx = typeRoles then serve_roles hl ctx p
      else if mc_w ctx = typeAcquaint then serve_acquaint hl order ctx p
      else serve_unknown ctx p)"

text \<open>With the deferred recovery; \<open>None\<close> means that the call does not return.\<close>

definition serveIncMsg :: "handler_lib \<Rightarrow> peer_lib \<Rightarrow> string list \<Rightarrow> message_ctx \<Rightarrow> peer \<Rightarrow> peer option" where
  "serveIncMsg hl lib order ctx p =
     (case serve_switch hl lib order ctx p of
        Done p1 \<Rightarrow> Some p1
      | Blocked \<Rightarrow> None
      | Crashed \<Rightarrow> Some (spawn (GoCloseUnit (mc_unit ctx) errIncorrectMessageStructure (hl_panic hl)) p))"

section \<open>Reading a connection\<close>

text \<open>
  One turn of the loop of \<open>readConnMessages\<close> on a message of the connection: a stream frame is
  applied, anything else goes to the goroutines that serve messages, as a slice with the
  capacity the reader allocated.  A panic ends the loop and deletes the connection; \<open>err\<close> is the
  recovered value where the message ends early or has a wrong length.
\<close>

datatype read_turn = Reads peer | Hands message_ctx peer | Ends peer

text \<open>The context of a message that was just read.\<close>

definition incoming :: "conn \<Rightarrow> unitref \<Rightarrow> byte \<Rightarrow> slice \<Rightarrow> message_ctx" where
  "incoming c u way raw =
     \<lparr>mc_conn = c, mc_unit = u, mc_role = [], mc_event = [], mc_Data = VNil, mc_T = 0,
      mc_origin = [], mc_w = way, mc_raw = raw, mc_channel = 0\<rparr>"

definition channel_text :: "(nat \<Rightarrow> u64) \<Rightarrow> bytes \<Rightarrow> string" where
  "channel_text cvt rest =
     (case readStreamHeader cvt rest of None \<Rightarrow> [] | Some (channel, _, _) \<Rightarrow> show_nat (unat channel))"

definition readConnTurn ::
    "peer_lib \<Rightarrow> (nat \<Rightarrow> int) \<Rightarrow> net_env \<Rightarrow> unitref \<Rightarrow> conn \<Rightarrow> goerror \<Rightarrow> bytes \<Rightarrow> bytes \<Rightarrow> peer \<Rightarrow> read_turn" where
  "readConnTurn lib cvti env u c err frame spare p =
     (case frame of
        [] \<Rightarrow> Ends (deleteConnection (pl_wrap lib) env u c (Some err) p)
      | way # rest \<Rightarrow>
          if way = typeStreamData then
            (case readStreamFrame (pl_cvt lib) cvti (u_streamCtr (p_store p u)) rest of
               Continue ctr \<Rightarrow> Reads (set_streams u ctr p)
             | ConnDies None \<Rightarrow> Ends (deleteConnection (pl_wrap lib) env u c (Some err) p)
             | ConnDies (Some code) \<Rightarrow>
                 Ends (deleteConnection (pl_wrap lib) env u c (Some (ErrorString (''Channel not found: '' @ channel_text (pl_cvt lib) rest)))
                   (closeConnWithCode c code (''Cannot find channel '' @ channel_text (pl_cvt lib) rest) p)))
          else Hands (incoming c u way (Slice (rest @ spare) (length rest))) p)"

section \<open>Lemmas\<close>

lemma incoming_simps [simp]:
  "mc_conn (incoming c u way raw) = c" "mc_unit (incoming c u way raw) = u" "mc_w (incoming c u way raw) = way"
  "mc_raw (incoming c u way raw) = raw"
  by (simp_all add: incoming_def)

text \<open>The frame types are different, so a message reaches the case of its own type.\<close>

lemmas frame_types = typeMessage_def typeRequest_def typeReader_def typeWriter_def typeStreamResolve_def
  typeStreamReject_def typeResolve_def typeReject_def typeRoles_def typeAcquaint_def

lemma serve_switch_case [simp]:
  "mc_w ctx = typeMessage \<Longrightarrow> serve_switch hl lib order ctx p = serve_message hl lib ctx p"
  "mc_w ctx = typeRequest \<Longrightarrow> serve_switch hl lib order ctx p = serve_request hl lib ctx p"
  "mc_w ctx = typeReader \<Longrightarrow> serve_switch hl lib order ctx p = serve_stream hl lib GoEmitWriter ctx p"
  "mc_w ctx = typeWriter \<Longrightarrow> serve_switch hl lib order ctx p = serve_stream hl lib GoEmitReader ctx p"
  "mc_w ctx = typeStreamResolve \<Longrightarrow> serve_switch hl lib order ctx p = serve_stream_response hl lib False ctx p"
  "mc_w ctx = typeStreamReject \<Longrightarrow> serve_switch hl lib order ctx p = serve_stream_response hl lib True ctx p"
  "mc_w ctx = typeResolve \<Longrightarrow> serve_switch hl lib order ctx p = serve_resolve hl lib ctx p"
  "mc_w ctx = typeReject \<Longrightarrow> serve_switch hl lib order ctx p = serve_reject hl lib ctx p"
  "mc_w ctx = typeRoles \<Longrightarrow> serve_switch hl lib order ctx p = serve_roles hl ctx p"
  "mc_w ctx = typeAcquaint \<Longrightarrow> serve_switch hl lib order ctx p = serve_acquaint hl order ctx p"
  by (simp_all add: serve_switch_def frame_types)

text \<open>A response to a waiting request.\<close>

lemma respond_now_waiting:
  assumes "cb_inv (u_callbackCtr (p_store p u))" and "waiters (u_callbackCtr (p_store p u)) corr = Some cw"
  shows "\<exists>t. respond_now u corr cb p = Done (set_callbacks u t p) \<and>
    chan_buf t = (chan_buf (u_callbackCtr (p_store p u)))(waiter_ch cw := [cb]) \<and> cb_inv t"
  using complete_inv [OF assms, of cb] assms(2) by (auto simp: respond_now_def respond_def)

lemma waiting_corr_ok:
  assumes "cb_inv s" and "waiters s corr = Some cw"
  shows "corr_ok corr"
  using cb_invD(2) [OF assms] corr_ok_ids by metis

lemma response_parsed:
  assumes "corr_ok corr" and "markDataType v = Some m" and "as_received v = Some w"
    and "serializeResponse cvt t corr m = Some (k # body)"
  shows "k = t \<and> parseResponse cvt' (Slice (body @ spare) (length body)) = Some (corr, hd m, tl m) \<and>
    retrieveDataByType mr (hd m) (tl m) = Ok w"
proof -
  have m: "m \<noteq> []" "retrieveDataByType mr (hd m) (tl m) = Ok w"
    using marked_received [OF assms(3), of mr] assms(2) by auto
  then have "m = hd m # tl m" by simp
  then show ?thesis
    using parseResponse_serialize [OF assms(1), of cvt t "hd m" "tl m" cvt'] assms(4) m(2) by auto
qed

lemma response_served:
  assumes "cb_reach (u_callbackCtr (p_store p u))" and "next_chan (u_callbackCtr (p_store p u)) \<le> 2 ^ 53"
    and "waiters (u_callbackCtr (p_store p u)) corr = Some cw"
    and "markDataType v = Some m" and "as_received v = Some w"
    and "serializeResponse cvt typeResolve corr m = Some (k # body)"
  shows "\<exists>p' ctx. serveIncMsg hl lib order (incoming c u k (Slice (body @ spare) (length body))) p = Some p' \<and>
    unit_request_result u headers (waiter_ch cw) p' = Some (Some ctx, None) \<and>
    mc_Data ctx = w \<and> mc_role ctx = es_role headers \<and> mc_event ctx = es_event headers \<and> mc_unit ctx = u \<and>
    (\<forall>ch. ch \<noteq> waiter_ch cw \<longrightarrow> unit_request_result u headers ch p' = unit_request_result u headers ch p) \<and>
    (\<forall>v. v \<noteq> u \<longrightarrow> p_store p' v = p_store p v) \<and> p_go p' = p_go p"
proof -
  have inv: "cb_inv (u_callbackCtr (p_store p u))" using assms(1,2) by (rule cb_reach_inv)
  let ?raw = "Slice (body @ spare) (length body)"
  have parsed: "k = typeResolve" "parseResponse (pl_cvt lib) ?raw = Some (corr, hd m, tl m)"
    "retrieveDataByType (hl_more hl) (hd m) (tl m) = Ok w"
    using response_parsed [OF waiting_corr_ok [OF inv assms(3)] assms(4-6)] by auto
  let ?ctx = "(incoming c u k ?raw)\<lparr>mc_T := hd m, mc_origin := tl m, mc_Data := w\<rparr>"
  obtain t where t: "respond_now u corr \<lparr>cb_ctx = Some ?ctx, cb_err = None\<rparr> p = Done (set_callbacks u t p)"
      "chan_buf t = (chan_buf (u_callbackCtr (p_store p u)))(waiter_ch cw := [\<lparr>cb_ctx = Some ?ctx, cb_err = None\<rparr>])"
    using respond_now_waiting [OF inv assms(3)] by metis
  have "serveIncMsg hl lib order (incoming c u k ?raw) p = Some (set_callbacks u t p)"
    using parsed t(1) by (simp add: serveIncMsg_def serve_resolve_def of_parse_def with_data_def)
  moreover have "unit_request_result u headers (waiter_ch cw) (set_callbacks u t p) =
      Some (Some (?ctx\<lparr>mc_role := es_role headers, mc_event := es_event headers\<rparr>), None)"
    by (simp add: unit_request_result_def name_response_def t(2))
  ultimately show ?thesis
    by (intro exI [of _ "set_callbacks u t p"] exI conjI) (auto simp: unit_request_result_def t(2))
qed

section \<open>Properties\<close>


text \<open>A concrete request waiting on unit 0, and its response.\<close>

definition waiting_peer :: peer where
  "waiting_peer = set_callbacks 0
     (case prepare createCallbackController False of Done (_, _, t) \<Rightarrow> t | _ \<Rightarrow> createCallbackController) two_conns_peer"

lemma waiting_peer_facts:
  "cb_reach (u_callbackCtr (p_store waiting_peer 0))"
  "next_chan (u_callbackCtr (p_store waiting_peer 0)) = 1"
  "waiters (u_callbackCtr (p_store waiting_peer 0)) 1 = Some \<lparr>waiter_ch = 0, ignUnitClose = False\<rparr>"
proof -
  have run: "\<exists>t. prepare (createCallbackController :: message_ctx reqCallbackController) False = Done (1, 0, t) \<and>
      next_chan t = 1 \<and> waiters t 1 = Some \<lparr>waiter_ch = 0, ignUnitClose = False\<rparr>"
    by (simp add: prepare_def Let_def produceCorrelation_def maxCorrelation_def createCallbackController_def)
  then show "cb_reach (u_callbackCtr (p_store waiting_peer 0))"
    by (auto simp: waiting_peer_def intro: cb_prepare [OF cb_init])
  show "next_chan (u_callbackCtr (p_store waiting_peer 0)) = 1"
    "waiters (u_callbackCtr (p_store waiting_peer 0)) 1 = Some \<lparr>waiter_ch = 0, ignUnitClose = False\<rparr>"
    using run by (auto simp: waiting_peer_def)
qed

definition plain_handler_lib :: handler_lib where
  "plain_handler_lib = \<lparr>hl_more = (\<lambda>_. None), hl_parseRoles = (\<lambda>raw. ((int (length raw), [string_of raw]), None)),
     hl_parseAcquaint = (\<lambda>_. (([], [], []), None)), hl_panic = ''runtime error''\<rparr>"


section \<open>Messages about roles\<close>

definition session_of :: "handler_lib \<Rightarrow> message_ctx \<Rightarrow> int" where
  "session_of hl ctx = fst (fst (hl_parseRoles hl (visible (mc_raw ctx))))"

definition roles_in :: "handler_lib \<Rightarrow> message_ctx \<Rightarrow> string list" where
  "roles_in hl ctx = snd (fst (hl_parseRoles hl (visible (mc_raw ctx))))"

definition is_roles_msg :: "handler_lib \<Rightarrow> unitref \<Rightarrow> message_ctx \<Rightarrow> bool" where
  "is_roles_msg hl u ctx \<longleftrightarrow>
     mc_w ctx = typeRoles \<and> mc_unit ctx = u \<and> snd (hl_parseRoles hl (visible (mc_raw ctx))) = None"

fun serve_all :: "handler_lib \<Rightarrow> peer_lib \<Rightarrow> string list \<Rightarrow> message_ctx list \<Rightarrow> peer \<Rightarrow> peer option" where
  "serve_all hl lib order [] p = Some p"
| "serve_all hl lib order (ctx # ctxs) p =
     Option.bind (serveIncMsg hl lib order ctx p) (serve_all hl lib order ctxs)"

lemma serve_roles_msg:
  assumes "is_roles_msg hl u ctx"
  shows "serveIncMsg hl lib order ctx p =
    Some (if session_of hl ctx \<le> getLastRoleSession p u then p
          else spawn (GoOnNewUnitRoles u) (setRoles u (roles_in hl ctx) (setLastRoleSession u (session_of hl ctx) p)))"
proof -
  obtain i roles where "hl_parseRoles hl (visible (mc_raw ctx)) = ((i, roles), None)"
    using assms by (metis is_roles_msg_def surj_pair snd_conv)
  then show ?thesis
    using assms by (simp add: is_roles_msg_def serveIncMsg_def serve_roles_def session_of_def roles_in_def Let_def)
qed

lemma roles_simps [simp]:
  "getLastRoleSession (spawn g p) u = getLastRoleSession p u"
  "getLastRoleSession (setRoles u rs p) u = getLastRoleSession p u"
  "getLastRoleSession (setLastRoleSession u i p) u = i"
  "u_roles (p_store (setRoles u rs p) u) = set rs"
  "u_roles (p_store (setLastRoleSession u i p) u) = u_roles (p_store p u)"
  by (simp_all add: getLastRoleSession_def setRoles_def setLastRoleSession_def)

lemma serve_all_older:
  "\<forall>ctx \<in> set ctxs. is_roles_msg hl u ctx \<and> session_of hl ctx \<le> getLastRoleSession p u \<Longrightarrow>
   serve_all hl lib order ctxs p = Some p"
  by (induction ctxs) (auto simp: serve_roles_msg)

lemma serve_all_newest:
  "\<forall>d \<in> set ctxs. is_roles_msg hl u d \<and> (d = ctx \<or> session_of hl d < session_of hl ctx) \<Longrightarrow>
   ctx \<in> set ctxs \<Longrightarrow> getLastRoleSession p u < session_of hl ctx \<Longrightarrow>
   \<exists>p'. serve_all hl lib order ctxs p = Some p' \<and> u_roles (p_store p' u) = set (roles_in hl ctx) \<and>
     getLastRoleSession p' u = session_of hl ctx"
proof (induction ctxs arbitrary: p)
  case (Cons d ctxs)
  have d: "is_roles_msg hl u d" using Cons.prems(1) by simp
  let ?q = "spawn (GoOnNewUnitRoles u) (setRoles u (roles_in hl d) (setLastRoleSession u (session_of hl d) p))"
  show ?case
  proof (cases "d = ctx")
    case True
    have "serve_all hl lib order ctxs ?q = Some ?q"
      using Cons.prems(1) True by (intro serve_all_older [where u = u]) auto
    then show ?thesis using Cons.prems(3) True serve_roles_msg [OF d, of lib order p] by simp
  next
    case False
    let ?r = "if session_of hl d \<le> getLastRoleSession p u then p else ?q"
    have "\<exists>p'. serve_all hl lib order ctxs ?r = Some p' \<and> u_roles (p_store p' u) = set (roles_in hl ctx) \<and>
        getLastRoleSession p' u = session_of hl ctx"
      using Cons.prems False by (intro Cons.IH) auto
    then show ?thesis using serve_roles_msg [OF d, of lib order p] by simp
  qed
qed simp

text \<open>
  C20.  Messages about the roles of a unit may arrive in any order: once all are served, one
  after the other, the unit has the roles of the message with the highest session, if that
  one is newer than what the unit knew.
\<close>

theorem newest_roles_win:
  assumes "\<forall>d \<in> set ctxs. is_roles_msg hl u d \<and> (d = ctx \<or> session_of hl d < session_of hl ctx)"
    and "ctx \<in> set ctxs" and "getLastRoleSession p u < session_of hl ctx"
  shows "\<exists>p'. serve_all hl lib order ctxs p = Some p' \<and> u_roles (p_store p' u) = set (roles_in hl ctx) \<and>
    getLastRoleSession p' u = session_of hl ctx"
  using assms by (rule serve_all_newest)

theorem newest_roles_win_witness:
  "\<exists>p'. serve_all plain_handler_lib plain_peer_lib []
      [incoming 1 0 typeRoles (slice_of [97, 98]), incoming 1 0 typeRoles (slice_of [97])] two_conns_peer = Some p' \<and>
    u_roles (p_store p' 0) = set (roles_in plain_handler_lib (incoming 1 0 typeRoles (slice_of [97, 98]))) \<and>
    getLastRoleSession p' 0 = session_of plain_handler_lib (incoming 1 0 typeRoles (slice_of [97, 98]))"
  by (rule newest_roles_win)
     (simp_all add: is_roles_msg_def plain_handler_lib_def session_of_def getLastRoleSession_def
       two_conns_peer_def NewPeer_def no_unit_def)

text \<open>
  Several goroutines serve messages.  The session is read, set, and the roles are set in three
  separate critical sections, so the serving of two messages can interleave at them.
\<close>

datatype roles_task = Arrived int "string list" | Passed int "string list" | Noted "string list"

fun roles_step :: "unitref \<Rightarrow> roles_task \<Rightarrow> peer \<Rightarrow> peer \<times> roles_task option" where
  "roles_step u (Arrived i roles) p =
     (p, if i \<le> getLastRoleSession p u then None else Some (Passed i roles))"
| "roles_step u (Passed i roles) p = (setLastRoleSession u i p, Some (Noted roles))"
| "roles_step u (Noted roles) p = (spawn (GoOnNewUnitRoles u) (setRoles u roles p), None)"

inductive interleaves :: "unitref \<Rightarrow> roles_task list \<Rightarrow> peer \<Rightarrow> peer \<Rightarrow> bool" where
  all_done: "interleaves u [] p p"
| one_ends: "roles_step u t p = (p1, None) \<Longrightarrow> interleaves u (ts @ us) p1 q \<Longrightarrow> interleaves u (ts @ t # us) p q"
| one_moves: "roles_step u t p = (p1, Some t1) \<Longrightarrow> interleaves u (ts @ t1 # us) p1 q \<Longrightarrow>
    interleaves u (ts @ t # us) p q"

inductive_cases interleavesE: "interleaves u ts p q"
inductive_simps interleaves_Nil [simp]: "interleaves u [] p q"

lemmas first_ends = one_ends [where ts = "[]", simplified]
lemmas first_moves = one_moves [where ts = "[]", simplified]

lemma second_moves:
  "roles_step u t p = (p', Some t') \<Longrightarrow> interleaves u [s, t'] p' q \<Longrightarrow> interleaves u [s, t] p q"
  using one_moves [of u t p p' t' "[s]" "[]" q] by simp

lemma second_ends:
  "roles_step u t p = (p', None) \<Longrightarrow> interleaves u [s] p' q \<Longrightarrow> interleaves u [s, t] p q"
  using one_ends [of u t p p' "[s]" "[]" q] by simp

lemma interleaves_single:
  "interleaves u [t] p q \<longleftrightarrow>
    (case roles_step u t p of (p1, None) \<Rightarrow> q = p1 | (p1, Some t1) \<Rightarrow> interleaves u [t1] p1 q)"
proof
  assume "interleaves u [t] p q"
  then show "case roles_step u t p of (p1, None) \<Rightarrow> q = p1 | (p1, Some t1) \<Rightarrow> interleaves u [t1] p1 q"
    by (cases rule: interleaves.cases) (auto simp: append_eq_Cons_conv Cons_eq_append_conv)
qed (auto intro: first_ends first_moves all_done split: prod.splits option.splits)

text \<open>Alone, the three steps are the serving of the message.\<close>

lemma roles_steps_alone:
  assumes "is_roles_msg hl u ctx"
  shows "interleaves u [Arrived (session_of hl ctx) (roles_in hl ctx)] p q \<longleftrightarrow>
    serveIncMsg hl lib order ctx p = Some q"
  by (auto simp: serve_roles_msg [OF assms] interleaves_single)

text \<open>
  C38.  With two goroutines an older message can win: a unit may keep the roles of the older
  of two messages although both were served.
\<close>

theorem older_roles_can_win:
  assumes "is_roles_msg hl u ctx" and "is_roles_msg hl u newer"
    and "getLastRoleSession p u < session_of hl ctx" and "session_of hl ctx < session_of hl newer"
  shows "\<exists>q. interleaves u [Arrived (session_of hl ctx) (roles_in hl ctx),
      Arrived (session_of hl newer) (roles_in hl newer)] p q \<and>
    u_roles (p_store q u) = set (roles_in hl ctx) \<and> getLastRoleSession q u = session_of hl ctx"
proof -
  let ?a = "session_of hl ctx" and ?b = "session_of hl newer"
  let ?q = "spawn (GoOnNewUnitRoles u) (setRoles u (roles_in hl ctx) (setLastRoleSession u ?a
       (spawn (GoOnNewUnitRoles u) (setRoles u (roles_in hl newer) (setLastRoleSession u ?b p)))))"
  have "interleaves u [Passed ?a (roles_in hl ctx), Arrived ?b (roles_in hl newer)] p ?q"
    using assms(3,4)
    by (intro second_moves [where t = "Arrived ?b (roles_in hl newer)" and t' = "Passed ?b (roles_in hl newer)" and p' = p]
          second_moves [where t = "Passed ?b (roles_in hl newer)" and t' = "Noted (roles_in hl newer)"
            and p' = "setLastRoleSession u ?b p"]
          second_ends [where t = "Noted (roles_in hl newer)"
            and p' = "spawn (GoOnNewUnitRoles u) (setRoles u (roles_in hl newer) (setLastRoleSession u ?b p))"])
       (auto simp: interleaves_single)
  then have "interleaves u [Arrived ?a (roles_in hl ctx), Arrived ?b (roles_in hl newer)] p ?q"
    by (rule first_moves [rotated]) (use assms(3) in simp)
  moreover have "u_roles (p_store ?q u) = set (roles_in hl ctx) \<and> getLastRoleSession ?q u = ?a" by simp
  ultimately show ?thesis by blast
qed

theorem older_roles_can_win_witness:
  "\<exists>q. interleaves 0 [Arrived 1 [''a''], Arrived 2 [''ab'']] two_conns_peer q \<and>
    u_roles (p_store q 0) = {''a''} \<and> getLastRoleSession q 0 = 1"
proof -
  let ?m = "\<lambda>bs. incoming 5 0 typeRoles (slice_of bs)"
  have m: "is_roles_msg plain_handler_lib 0 (?m bs)" "session_of plain_handler_lib (?m bs) = int (length bs)"
    "roles_in plain_handler_lib (?m bs) = [string_of bs]" for bs
    by (simp_all add: is_roles_msg_def plain_handler_lib_def session_of_def roles_in_def)
  have "getLastRoleSession two_conns_peer 0 = 0"
    by (simp add: getLastRoleSession_def two_conns_peer_def NewPeer_def no_unit_def)
  then show ?thesis
    using older_roles_can_win [OF m(1) m(1), of two_conns_peer "bytes_of ''a''" "bytes_of ''ab''"]
    by (simp add: m)
qed

section \<open>What serving a message can touch\<close>

text \<open>A request for a role the peer does not have is answered with one rejection.\<close>

lemma no_app_Reject:
  "rq_cbs ctx = [] \<Longrightarrow> ctx_Reject lib no_app (RejectString d) (ctx, p) =
    send_answer lib typeReject (VOther (Some (bytes_of ''{}''))) (ctx\<lparr>rq_r := True, rq_Err := Some (ErrorString d)\<rparr>, p)"
  by (simp add: ctx_Reject_def runCallbacks_def nil_or_error_def)

lemma reject_unknown_run:
  "reject_unknown lib (new_request ctx corr) name p =
    (case serializeResponse (pl_cvt lib) typeReject corr (DatatypeJSON # bytes_of ''{}'') of
       None \<Rightarrow> Blocked
     | Some res \<Rightarrow> Done (snd (writeMsgToSomeConnection (pl_wrap lib) (mc_unit ctx) res p)))"
  by (auto simp: reject_unknown_def new_request_def no_app_Reject send_answer_def DatatypeJSON_def
      split: option.split prod.split sum.split)

text \<open>
  Serving changes the unit the message came from and no other; it runs no function of the
  application, keeps the roles, and leaves the entries of all other units in the table.
\<close>

definition serving_touches :: "unitref \<Rightarrow> peer \<Rightarrow> peer \<Rightarrow> bool" where
  "serving_touches u p q \<longleftrightarrow> (\<forall>v. v \<noteq> u \<longrightarrow> p_store q v = p_store p v) \<and> p_ran q = p_ran p \<and>
     p_roles q = p_roles p \<and> p_next q = p_next p \<and> (\<forall>i. i \<noteq> u_id (p_store p u) \<longrightarrow> p_units q i = p_units p i)"

lemma touches_refl [simp]: "serving_touches u p p"
  by (simp add: serving_touches_def)

lemma touches_spawn [simp]: "serving_touches u p (spawn g q) = serving_touches u p q"
  by (simp add: serving_touches_def)

lemma touches_unit [simp]: "serving_touches u p (set_unit u s p)"
  by (simp add: serving_touches_def)

lemma set_unit_twice [simp]: "set_unit u s (set_unit u t p) = set_unit u s p"
  by (simp add: set_unit_def)

lemma touches_write: "serving_touches u p (snd (writeMsgToSomeConnection wrap u msg p))"
  by (cases "writeMsgToSomeConnection wrap u msg p") (simp add: serving_touches_def write_frameD)

lemma touches_with_data:
  "with_data hl ctx t raw p k = Done q \<Longrightarrow> (\<And>v. k v = Done q \<Longrightarrow> serving_touches u p q) \<Longrightarrow> serving_touches u p q"
  by (auto simp: with_data_def split: outcome.splits)

lemma touches_of_parse:
  "of_parse x k = Done q \<Longrightarrow> (\<And>y. k y = Done q \<Longrightarrow> serving_touches u p q) \<Longrightarrow> serving_touches u p q"
  by (auto simp: of_parse_def split: option.splits)

lemma touches_respond: "respond_now u corr cb p = Done q \<Longrightarrow> serving_touches u p q"
  by (auto simp: respond_now_def set_callbacks_def split: exec.splits)

lemma touches_unknown_role:
  "reject_unknown lib (new_request ctx corr) name p = Done q \<Longrightarrow> u = mc_unit ctx \<Longrightarrow> serving_touches u p q"
  by (auto simp: reject_unknown_run touches_write split: option.splits)

lemma serve_switch_touches: "serve_switch hl lib order ctx p = Done q \<Longrightarrow> serving_touches (mc_unit ctx) p q"
  unfolding serve_switch_def
  by (auto simp: serve_message_def serve_request_def serve_stream_def serve_stream_response_def serve_resolve_def
      serve_reject_def serve_roles_def serve_acquaint_def serve_unknown_def Let_def setRoles_def setLastRoleSession_def
      elim!: touches_of_parse touches_with_data touches_respond touches_unknown_role
      split: if_splits prod.splits list.splits)

text \<open>
  C13.  Serving a message affects only the unit that sent it: whatever the frame holds, no
  other unit and no entry of one in the table changes, no function of the application runs on
  the goroutine that serves messages, and the roles of the peer stay.
\<close>

theorem message_touches_sender_only:
  assumes "serveIncMsg hl lib order ctx p = Some q"
  shows "(\<forall>v. v \<noteq> mc_unit ctx \<longrightarrow> p_store q v = p_store p v) \<and> p_ran q = p_ran p \<and> p_roles q = p_roles p \<and>
    (\<forall>i. i \<noteq> u_id (p_store p (mc_unit ctx)) \<longrightarrow> p_units q i = p_units p i)"
proof -
  have "serving_touches (mc_unit ctx) p q"
    using assms serve_switch_touches [of hl lib order ctx p]
    by (auto simp: serveIncMsg_def split: exec.splits)
  then show ?thesis by (simp add: serving_touches_def)
qed

theorem message_touches_sender_only_witness:
  "\<exists>q. serveIncMsg plain_handler_lib plain_peer_lib [] (incoming 1 0 7 (slice_of [])) two_conns_peer = Some q \<and>
    p_store q 1 = p_store two_conns_peer 1 \<and> p_ran q = [] \<and> p_roles q = p_roles two_conns_peer"
proof -
  have run: "serveIncMsg plain_handler_lib plain_peer_lib [] (incoming 1 0 7 (slice_of [])) two_conns_peer =
      Some (spawn (GoCloseUnit 0 errIncorrectMessageStructure ''runtime error'') two_conns_peer)"
    by (simp add: serveIncMsg_def serve_switch_def frame_types serve_unknown_def plain_handler_lib_def)
  have "p_ran two_conns_peer = []" by (simp add: two_conns_peer_def NewPeer_def)
  then show ?thesis using message_touches_sender_only [OF run] run by auto
qed

section \<open>When serving returns\<close>

lemma returns_of_parse:
  "(\<And>y. x = Some y \<Longrightarrow> k y \<noteq> Blocked) \<Longrightarrow> of_parse x k \<noteq> Blocked"
  by (auto simp: of_parse_def split: option.split)

lemma returns_with_data: "(\<And>v. k v \<noteq> Blocked) \<Longrightarrow> with_data hl ctx t raw p k \<noteq> Blocked"
  by (auto simp: with_data_def split: outcome.split)

lemma returns_respond: "cb_inv (u_callbackCtr (p_store p u)) \<Longrightarrow> respond_now u corr cb p \<noteq> Blocked"
  using respond_inv [of "u_callbackCtr (p_store p u)" corr cb] by (auto simp: respond_now_def)

lemma returns_reject:
  assumes "unat corr < 2 ^ 56"
  shows "reject_unknown lib (new_request ctx corr) name p \<noteq> Blocked"
proof -
  have "unat corr < 256 ^ 7" using assms by simp
  then have "serializeCorrelation (pl_cvt lib) corr \<noteq> None" by (simp add: serializeCorrelation_run)
  then show ?thesis by (auto simp: reject_unknown_run serializeResponse_def split: option.split)
qed

text \<open>The correlations of the frame that a rejection would have to encode are below \<open>2 ^ 56\<close>.\<close>

definition small_correlation :: "(nat \<Rightarrow> u64) \<Rightarrow> slice \<Rightarrow> bool" where
  "small_correlation cvt raw \<longleftrightarrow>
     (\<forall>role event corr t d. parseRequest cvt raw = Some (role, event, corr, t, d) \<longrightarrow> unat corr < 2 ^ 56) \<and>
     (\<forall>role event corr channel t d.
        parseStreamRequest cvt raw = Some (role, event, corr, channel, t, d) \<longrightarrow> unat corr < 2 ^ 56)"

text \<open>
  C12.  Serving any message returns, whatever bytes it holds and in every state of the requests
  of its unit, if a correlation in it takes at most seven bytes.
\<close>

theorem small_message_is_served:
  assumes "cb_reach (u_callbackCtr (p_store p (mc_unit ctx)))"
    and "next_chan (u_callbackCtr (p_store p (mc_unit ctx))) \<le> 2 ^ 53"
    and "small_correlation (pl_cvt lib) (mc_raw ctx)"
  shows "\<exists>q. serveIncMsg hl lib order ctx p = Some q"
proof -
  have inv: "cb_inv (u_callbackCtr (p_store p (mc_unit ctx)))" using assms(1,2) by (rule cb_reach_inv)
  have "serve_request hl lib ctx p \<noteq> Blocked"
    unfolding serve_request_def using assms(3)
    by (intro returns_of_parse) (auto simp: small_correlation_def Let_def returns_reject intro!: returns_with_data split: if_splits)
  moreover have "serve_stream hl lib emit ctx p \<noteq> Blocked" for emit
    unfolding serve_stream_def using assms(3)
    by (intro returns_of_parse) (auto simp: small_correlation_def Let_def returns_reject intro!: returns_with_data split: if_splits)
  moreover have "serve_message hl lib ctx p \<noteq> Blocked" "serve_stream_response hl lib b ctx p \<noteq> Blocked"
    "serve_reject hl lib ctx p \<noteq> Blocked" for b
    unfolding serve_message_def serve_stream_response_def serve_reject_def
    by (auto simp: Let_def intro!: returns_of_parse returns_with_data split: if_splits)
  moreover have "serve_resolve hl lib ctx p \<noteq> Blocked"
    unfolding serve_resolve_def
    by (auto simp: Let_def inv intro!: returns_of_parse returns_with_data returns_respond)
  moreover have "serve_roles hl ctx p \<noteq> Blocked" "serve_acquaint hl order ctx p \<noteq> Blocked" "serve_unknown ctx p \<noteq> Blocked"
    by (auto simp: serve_roles_def serve_acquaint_def serve_unknown_def Let_def split: prod.split list.split)
  ultimately have "serve_switch hl lib order ctx p \<noteq> Blocked"
    by (simp add: serve_switch_def)
  then show ?thesis by (auto simp: serveIncMsg_def split: exec.split)
qed

theorem small_message_is_served_witness:
  "\<exists>q. serveIncMsg plain_handler_lib plain_peer_lib [] (incoming 1 0 typeRequest (slice_of [0, 1, 0])) waiting_peer = Some q"
proof (rule small_message_is_served)
  show "small_correlation (pl_cvt plain_peer_lib) (mc_raw (incoming 1 0 typeRequest (slice_of [0, 1, 0])))"
    by (simp add: small_correlation_def parseRequest_def parseStreamRequest_def subslice_def)
qed (simp_all add: waiting_peer_facts)

text \<open>
  C35.  A request for a role the peer does not have, with a correlation of eight significant
  bytes, is never served where out-of-range conversions give 0: the goroutine that serves it
  encodes the correlation of the rejection for ever.  One message stops one of the goroutines.
\<close>

theorem huge_correlation_stops_worker:
  assumes "pl_cvt lib = (\<lambda>_. 0)" and "mc_w ctx = typeRequest"
    and "parseRequest (pl_cvt lib) (mc_raw ctx) = Some (name, event, corr, t, raw)"
    and "retrieveDataByType (hl_more hl) t raw = Ok v" and "getRole p name = None" and "2 ^ 56 \<le> unat corr"
  shows "serveIncMsg hl lib order ctx p = None"
  using assms
  by (simp add: serveIncMsg_def serve_request_def of_parse_def with_data_def reject_unknown_run
      serializeResponse_def serializeCorrelation_loops)

theorem huge_correlation_stops_worker_witness:
  "serveIncMsg plain_handler_lib plain_peer_lib []
     (incoming 1 0 typeRequest (slice_of [0, 1, 0, 0, 8, 97, 1, 0, 0, 0, 0, 0, 0, 0, 1])) two_conns_peer = None"
proof (rule huge_correlation_stops_worker)
  have a: "string_of [97] = ''a''" using string_of_bytes_of [of "''a''"] by (simp add: bytes_of_def)
  show "parseRequest (pl_cvt plain_peer_lib) (mc_raw (incoming 1 0 typeRequest
      (slice_of [0, 1, 0, 0, 8, 97, 1, 0, 0, 0, 0, 0, 0, 0, 1]))) = Some (''a'', '''', 2 ^ 56, 1, [])"
    by (simp add: parseRequest_def subslice_def slice_index_def slice_from_def sliceToCorrelation_def
        a string_of_def [of "[]"] pow256_def upt_rec)
qed (simp_all add: plain_peer_lib_def two_conns_peer_def NewPeer_def getRole_def)

end
