(* ===== verification/Membership.thy ===== *)
theory Membership
  imports Peer
begin

text \<open>
  Which units a peer and its destinations hold: the invariant of the peer's tables under all
  operations on connections, roles and destinations, and the runs in which a unit stays in a
  destination after it is gone, or is dropped although it is connected.
\<close>

section \<open>The invariant\<close>

definition unit_entry_ok :: "peer \<Rightarrow> string \<Rightarrow> unitref \<Rightarrow> bool" where
  "unit_entry_ok p i u \<longleftrightarrow> u < p_next p \<and> u_id (p_store p u) = i \<and> u_conns (p_store p u) \<noteq> {}"

definition peer_ok :: "peer \<Rightarrow> bool" where
  "peer_ok p \<longleftrightarrow> (\<forall>i u. p_units p i = Some u \<longrightarrow> unit_entry_ok p i u) \<and>
     (\<forall>u. finite (u_conns (p_store p u))) \<and>
     (\<forall>name d. p_destinations p name = Some d \<longrightarrow> dest_inv d \<and> d_name d = name)"

lemma peer_okI:
  assumes "\<And>i u. p_units p i = Some u \<Longrightarrow> unit_entry_ok p i u"
    and "\<And>u. finite (u_conns (p_store p u))"
    and "\<And>name d. p_destinations p name = Some d \<Longrightarrow> dest_inv d \<and> d_name d = name"
  shows "peer_ok p"
  using assms by (auto simp: peer_ok_def)

lemma peer_okD:
  assumes "peer_ok p"
  shows "p_units p i = Some u \<Longrightarrow> unit_entry_ok p i u"
    and "finite (u_conns (p_store p u))"
    and "p_destinations p name = Some d \<Longrightarrow> dest_inv d \<and> d_name d = name"
  using assms by (auto simp: peer_ok_def)

text \<open>Operations that leave the units alone, and operations that leave the destinations alone.\<close>

lemma peer_ok_same:
  assumes "peer_ok p" and "p_units q = p_units p" and "p_store q = p_store p" and "p_next q = p_next p"
    and "p_destinations q = p_destinations p"
  shows "peer_ok q"
  using assms by (simp add: peer_ok_def unit_entry_ok_def)

lemma peer_ok_dests:
  assumes "peer_ok p" and "p_units q = p_units p" and "p_store q = p_store p" and "p_next q = p_next p"
    and "\<And>name d. p_destinations q name = Some d \<Longrightarrow> dest_inv d \<and> d_name d = name"
  shows "peer_ok q"
  using assms by (simp add: peer_ok_def unit_entry_ok_def)

lemma dest_names [simp]:
  "d_name (dest_addUnit d u) = d_name d" "d_name (dest_deleteUnit d u) = d_name d"
  "d_name (createDestination name) = name"
  by (simp_all add: dest_addUnit_def dest_deleteUnit_def createDestination_def Let_def)

lemma fold_addUnit_ok:
  "dest_inv d \<Longrightarrow> dest_inv (foldl dest_addUnit d us) \<and> d_name (foldl dest_addUnit d us) = d_name d"
  by (induction us arbitrary: d) simp_all

lemma delete_from_dests_ok:
  "(\<And>name d. dests name = Some d \<Longrightarrow> dest_inv d \<and> d_name d = name) \<Longrightarrow>
   delete_from_dests order u dests name = Some d \<Longrightarrow> dest_inv d \<and> d_name d = name"
proof (induction order arbitrary: dests)
  case (Cons r order)
  show ?case
  proof (cases "dests r")
    case (Some e)
    have "\<And>name d. (dests(r \<mapsto> dest_deleteUnit e u)) name = Some d \<Longrightarrow> dest_inv d \<and> d_name d = name"
      using Cons.prems(1) Some by (auto split: if_splits)
    moreover have "delete_from_dests order u (dests(r \<mapsto> dest_deleteUnit e u)) name = Some d"
      using Cons.prems(2) Some by simp
    ultimately show ?thesis by (rule Cons.IH)
  qed (use Cons.prems in simp)
qed simp

lemma deleteConnection_dests:
  "p_destinations (deleteConnection wrap env u c err p) =
    (if card (u_conns (p_store p u) - {c}) < 1
     then delete_from_dests (ne_roles env u) u (p_destinations p) else p_destinations p)"
  by (simp add: deleteConnection_def peer_deleteUnit_def Let_def split: option.split)

lemma deleteConnection_next [simp]: "p_next (deleteConnection wrap env u c err p) = p_next p"
  by (simp add: deleteConnection_def peer_deleteUnit_def Let_def split: option.split)

lemma deleteConnection_ok:
  assumes "peer_ok p"
  shows "peer_ok (deleteConnection wrap env u c err p)"
proof (rule peer_okI)
  let ?q = "deleteConnection wrap env u c err p"
  note fin = peer_okD(2) [OF assms, of u]
  fix i v assume v: "p_units ?q i = Some v"
  then have pv: "p_units p i = Some v" by (auto simp: deleteConnection_units split: if_splits)
  note ok = peer_okD(1) [OF assms pv, unfolded unit_entry_ok_def]
  have "u_conns (p_store p u) - {c} \<noteq> {}" if "v = u"
  proof
    assume "u_conns (p_store p u) - {c} = {}"
    then have "card (u_conns (p_store p u) - {c}) < 1" by (metis card.empty less_one)
    then have "p_units ?q (u_id (p_store p u)) = None" by (simp only: deleteConnection_units if_True fun_upd_same)
    then show False using v ok that by simp
  qed
  then show "unit_entry_ok ?q i v" using ok by (auto simp: unit_entry_ok_def deleteConnection_store)
next
  fix v show "finite (u_conns (p_store (deleteConnection wrap env u c err p) v))"
    using peer_okD(2) [OF assms] by (simp add: deleteConnection_store)
next
  fix name d assume "p_destinations (deleteConnection wrap env u c err p) name = Some d"
  then show "dest_inv d \<and> d_name d = name"
    using peer_okD(3) [OF assms] delete_from_dests_ok [of "p_destinations p" "ne_roles env u" u name d]
    by (auto simp: deleteConnection_dests split: if_splits)
qed

interpretation peer_ok_write: write_steps "\<lambda>_ p q. peer_ok p \<longrightarrow> peer_ok q"
  by unfold_locales (auto simp: deleteConnection_ok intro: peer_ok_same)

lemma write_ok:
  assumes "peer_ok p" and "writeMsgToSomeConnection wrap u msg p = (res, p')"
  shows "peer_ok p'"
  using peer_ok_write.write_keeps [OF assms(2)] assms(1) by (auto intro: peer_ok_same)

lemma onNewUnitRoles_ok: "peer_ok p \<Longrightarrow> peer_ok (onNewUnitRoles u p)"
  by (rule peer_ok_dests) (auto simp: onNewUnitRoles_def dest: peer_okD(3) split: option.splits)

lemma Peer_Destination_ok:
  assumes "peer_ok p"
  shows "peer_ok (Peer_Destination units name p)"
  by (rule peer_ok_dests [OF assms])
     (auto simp: Peer_Destination_def Let_def fold_addUnit_ok dest: peer_okD(3) [OF assms] split: option.splits if_splits)

lemma closeWithCode_ok:
  assumes "peer_ok p"
  shows "peer_ok (closeWithCode cs u code msg p)"
proof -
  have "p_units (foldl (\<lambda>p c. closeConnWithCode c code msg p) p xs) = p_units p \<and>
      p_store (foldl (\<lambda>p c. closeConnWithCode c code msg p) p xs) = p_store p \<and>
      p_next (foldl (\<lambda>p c. closeConnWithCode c code msg p) p xs) = p_next p \<and>
      p_destinations (foldl (\<lambda>p c. closeConnWithCode c code msg p) p xs) = p_destinations p" for xs
    by (induction xs arbitrary: p) (simp_all add: closeConnWithCode_def)
  then show ?thesis
    by (intro peer_ok_dests [OF assms])
       (auto simp: closeWithCode_def Let_def dest: peer_okD(3) [OF assms])
qed

text \<open>A new unit is entered and gets its first connection within one operation.\<close>

lemma addConn_new:
  assumes "getUnit p (pd_id res) = None" and "addConn lib c (Inr res) p = (Inr v, p')"
  shows "v = p_next p" and "p_store p' v = (createUnit res)\<lparr>u_conns := {c}\<rparr>"
    and "p_units p' = (p_units p)(pd_id res \<mapsto> v)" and "p_next p' = Suc v"
    and "w \<noteq> v \<Longrightarrow> p_store p' w = p_store p w"
    and "p_destinations p' = p_destinations (onNewUnitRoles v (peer_addUnit (createUnit res) p))"
  using assms
  by (auto simp: addConn_def getUnit_def peer_addUnit_def runOnUnit_def onNewUnitRoles_def peer_bindConn_def
      createUnit_def HasRole_def Let_def split: option.splits if_splits cong: option.case_cong)

lemma addConn_known:
  assumes "getUnit p (pd_id res) = Some v" and "addConn lib c (Inr res) p = (Inr w, p')"
  shows "w = v" and "p_store p' = (p_store p)(v := (p_store p v)\<lparr>u_conns := insert c (u_conns (p_store p v))\<rparr>)"
    and "p_units p' = p_units p" and "p_next p' = p_next p"
    and "p_destinations p' = p_destinations (onNewUnitRoles v p)"
  using assms
  by (auto simp: addConn_def getUnit_def onNewUnitRoles_def peer_bindConn_def Let_def insert_absorb
      split: option.splits if_splits)

lemma addConn_refused:
  "addConn lib c auth p = (Inl err, p') \<Longrightarrow> peer_ok p \<Longrightarrow> peer_ok p'"
  by (auto simp: addConn_def Let_def closeConnWithCode_def intro: peer_ok_same split: sum.splits option.splits)

lemma addConn_accepted: "addConn lib c auth p = (Inr u, p') \<Longrightarrow> \<exists>res. auth = Inr res"
  by (auto simp: addConn_def split: sum.splits)

lemma onNewUnitRoles_dests:
  assumes "p_destinations p = p_destinations q" and "\<And>name d. p_destinations q name = Some d \<Longrightarrow> dest_inv d \<and> d_name d = name"
    and "p_destinations (onNewUnitRoles v p) name = Some d"
  shows "dest_inv d \<and> d_name d = name"
  using assms by (auto simp: onNewUnitRoles_def split: option.splits)

lemma addConn_ok:
  assumes ok: "peer_ok p" and add: "addConn lib c auth p = (r, p')"
  shows "peer_ok p'"
proof (cases r)
  case (Inl err)
  then show ?thesis using addConn_refused add ok by blast
next
  case (Inr v)
  then obtain res where res: "auth = Inr res" using add addConn_accepted by blast
  note add' = add [unfolded Inr res]
  show ?thesis
  proof (cases "getUnit p (pd_id res)")
    case None
    note new = addConn_new [OF None add']
    have old: "v \<noteq> w" if "p_units p i = Some w" for i w
      using peer_okD(1) [OF ok that] new(1) by (simp add: unit_entry_ok_def)
    have "p_destinations (peer_addUnit (createUnit res) p) = p_destinations p"
      by (simp add: peer_addUnit_def Let_def)
    then have dests: "p_destinations p' name = Some d \<Longrightarrow> dest_inv d \<and> d_name d = name" for name d
      using onNewUnitRoles_dests [OF _ peer_okD(3) [OF ok]] new(6) by metis
    show ?thesis
    proof (rule peer_okI)
      fix i w assume w: "p_units p' i = Some w"
      show "unit_entry_ok p' i w"
      proof (cases "i = pd_id res")
        case True
        with w new(3) have "w = v" by simp
        then show ?thesis using True new(2,4) by (simp add: unit_entry_ok_def createUnit_def)
      next
        case False
        with w new(3) have pw: "p_units p i = Some w" by simp
        then have "w \<noteq> v" using old by blast
        then show ?thesis
          using peer_okD(1) [OF ok pw] new(1,4) new(5) [of w] by (simp add: unit_entry_ok_def)
      qed
    next
      fix w show "finite (u_conns (p_store p' w))"
        using peer_okD(2) [OF ok] new(2) new(5) [of w] by (cases "w = v") simp_all
    qed (rule dests)
  next
    case (Some u)
    note known = addConn_known [OF Some add']
    show ?thesis
    proof (rule peer_okI)
      fix i w assume "p_units p' i = Some w"
      then have "p_units p i = Some w" using known(3) by simp
      from peer_okD(1) [OF ok this] show "unit_entry_ok p' i w"
        using known(2,4) by (cases "w = u") (simp_all add: unit_entry_ok_def)
    next
      fix w show "finite (u_conns (p_store p' w))"
        using peer_okD(2) [OF ok] known(2) by simp
    next
      fix name d assume "p_destinations p' name = Some d"
      then show "dest_inv d \<and> d_name d = name"
        using onNewUnitRoles_dests [OF refl peer_okD(3) [OF ok]] known(5) by metis
    qed
  qed
qed

lemma Connect_ok:
  assumes "peer_ok p"
  shows "peer_ok (snd (Connect lib urlStr options dial auth p))"
proof -
  have a: "peer_ok (q\<lparr>p_addrUnits := t\<rparr>)" "peer_ok (spawn g q)" if "peer_ok q" for q t g
    by (rule peer_ok_same [OF that]; simp)+
  let ?p1 = "if \<not> DoNotReconnect options then p\<lparr>p_addrUnits := the (store (p_addrUnits p) urlStr None None)\<rparr> else p"
  have "peer_ok ?p1" using a(1) assms by simp
  then have "peer_ok p2" if "addConn lib c auth ?p1 = (r, p2)" for c r p2
    using that by (rule addConn_ok)
  then show ?thesis
    using a assms by (auto simp: Connect_def Let_def split: sum.splits prod.splits)
qed

section \<open>Reachable peers\<close>

inductive peer_reach :: "peer \<Rightarrow> bool" where
  pr_new: "peer_reach (NewPeer i name friendly net)"
| pr_involve: "peer_reach p \<Longrightarrow> addConn lib c auth p = (r, p') \<Longrightarrow> peer_reach p'"
| pr_connect: "peer_reach p \<Longrightarrow> peer_reach (snd (Connect lib urlStr options dial auth p))"
| pr_delete: "peer_reach p \<Longrightarrow> peer_reach (deleteConnection wrap env u c err p)"
| pr_write: "peer_reach p \<Longrightarrow> writeMsgToSomeConnection wrap u msg p = (r, p') \<Longrightarrow> peer_reach p'"
| pr_session: "peer_reach p \<Longrightarrow> peer_reach (setLastRoleSession u i p)"
| pr_setRoles: "peer_reach p \<Longrightarrow> peer_reach (setRoles u roles p)"
| pr_onNewUnitRoles: "peer_reach p \<Longrightarrow> peer_reach (onNewUnitRoles u p)"
| pr_destination: "peer_reach p \<Longrightarrow> peer_reach (Peer_Destination units name p)"
| pr_close: "peer_reach p \<Longrightarrow> peer_reach (closeWithCode cs u code msg p)"

lemma peer_reach_ok: "peer_reach p \<Longrightarrow> peer_ok p"
proof (induction rule: peer_reach.induct)
  case (pr_new i name friendly net)
  show ?case by (simp add: peer_ok_def NewPeer_def no_unit_def)
next
  case (pr_session p u i)
  then show ?case by (auto simp: peer_ok_def unit_entry_ok_def setLastRoleSession_def)
next
  case (pr_setRoles p u roles)
  then show ?case by (auto simp: peer_ok_def unit_entry_ok_def setRoles_def)
qed (blast intro: addConn_ok Connect_ok deleteConnection_ok write_ok onNewUnitRoles_ok
      Peer_Destination_ok closeWithCode_ok)+

section \<open>Properties\<close>

text \<open>
  In every reachable peer the unit found under an id has that id and at least one
  connection, and every destination is found under its name and ready exactly when it has
  units.
\<close>

theorem peer_tables_consistent:
  assumes "peer_reach p"
  shows "(\<forall>i u. getUnit p i = Some u \<longrightarrow> u_id (p_store p u) = i \<and> Unit_Connected p u \<and> u_conns (p_store p u) \<noteq> {}) \<and>
    (\<forall>name d. p_destinations p name = Some d \<longrightarrow>
       Destination_Name d = name \<and> (Destination_Ready d \<longleftrightarrow> (\<exists>u. HasUnit d u)))"
  using peer_okD [OF peer_reach_ok [OF assms]]
  by (auto simp: unit_entry_ok_def getUnit_def Unit_Connected_def dest_inv_def Destination_Name_def
      Destination_Ready_def HasUnit_def)

text \<open>The peer data of a remote peer that serves one role.\<close>

definition remote_data :: peerData where
  "remote_data = no_peerData\<lparr>pd_id := ''x'', pd_roles := [''r''],
     pd_meta := (pd_meta no_peerData)\<lparr>mi_protocol := protocolVersion\<rparr>\<rparr>"

definition peer0 :: peer where
  "peer0 = Peer_Destination [] ''r'' (NewPeer ''me'' ''n'' True (\<lambda>_. two_conns_env))"

lemma compatible [simp]:
  "checkProtocolCompatibility (pl_wrap plain_peer_lib) (pl_semver plain_peer_lib) v w = None"
  by (simp add: checkProtocolCompatibility_def plain_peer_lib_def)

definition peer1 :: peer where
  "peer1 = snd (addConn plain_peer_lib 1 (Inr remote_data) peer0)"

lemma peer1_reach: "peer_reach peer1"
  using pr_involve [OF pr_destination [OF pr_new]] unfolding peer1_def peer0_def by (metis surj_pair snd_conv)

lemma peer0_new: "getUnit peer0 (pd_id remote_data) = None" "p_next peer0 = 0"
  by (simp_all add: peer0_def Peer_Destination_def NewPeer_def getUnit_def Let_def)

lemma peer1_add: "addConn plain_peer_lib 1 (Inr remote_data) peer0 = (Inr 0, peer1)"
proof -
  have "\<exists>v q. addConn plain_peer_lib 1 (Inr remote_data) peer0 = (Inr v, q)"
    by (simp add: addConn_def Let_def)
  then show ?thesis using addConn_new(1) [OF peer0_new(1)] peer0_new(2) by (fastforce simp: peer1_def)
qed

lemmas peer1_facts = addConn_new [OF peer0_new(1) peer1_add]

theorem peer_tables_consistent_witness:
  "Unit_Connected peer1 0 \<and> u_conns (p_store peer1 0) \<noteq> {}"
proof -
  have "getUnit peer1 ''x'' = Some 0" using peer1_facts(3) by (simp add: getUnit_def remote_data_def)
  then show ?thesis using peer_tables_consistent [OF peer1_reach] by blast
qed



text \<open>
  C39.  A connection is deleted once by the failing write and once by its reader.  If the
  remote peer connects again in between, the second deletion drops the new unit: it has a
  connection but is not a unit of the peer any more.
\<close>

theorem late_close_drops_new_unit:
  assumes "u < p_next p" and "u_conns (p_store p u) \<subseteq> {c}" and "pd_id res = u_id (p_store p u)"
    and "p1 = deleteConnection wrap env u c err p"
    and "addConn lib c' (Inr res) p1 = (Inr v, p2)"
    and "p3 = deleteConnection wrap env' u c err' p2"
  shows "Unit_Connected p2 v \<and> \<not> Unit_Connected p3 v \<and> u_conns (p_store p3 v) = {c'} \<and>
    (\<forall>w. \<not> (getUnit p3 (pd_id res) = Some w))"
proof -
  have "u_conns (p_store p u) - {c} = {}" using assms(2) by blast
  then have less: "card (u_conns (p_store p u) - {c}) < 1" by (metis card.empty less_one)
  have p1: "getUnit p1 (pd_id res) = None" "p_next p1 = p_next p"
    "u_conns (p_store p1 u) = u_conns (p_store p u) - {c}" "u_id (p_store p1 u) = pd_id res"
    using assms(3,4) less by (simp_all add: getUnit_def deleteConnection_units deleteConnection_store)
  note new = addConn_new [OF p1(1) assms(5)]
  have uv: "u \<noteq> v" using assms(1) p1(2) new(1) by simp
  have p2: "p_store p2 u = p_store p1 u" using uv new(5) by simp
  have "p_units p3 (pd_id res) = None"
    using assms(6) p1(3,4) p2 less by (simp add: deleteConnection_units)
  moreover have "p_store p3 v = p_store p2 v" using assms(6) uv by (simp add: deleteConnection_store)
  ultimately show ?thesis
    using new(2,3) by (simp add: Unit_Connected_def getUnit_def createUnit_def)
qed

theorem late_close_drops_new_unit_witness:
  "\<exists>p2 p3. Unit_Connected p2 1 \<and> \<not> Unit_Connected p3 1 \<and> u_conns (p_store p3 1) = {7} \<and>
    (\<forall>w. \<not> (getUnit p3 (pd_id remote_data) = Some w)) \<and>
    p3 = deleteConnection (\<lambda>e _. e) two_conns_env 0 1 None p2"
proof -
  note new = peer1_facts
  let ?p1 = "deleteConnection (\<lambda>e _. e) two_conns_env 0 1 None peer1"
  obtain v p2 where b: "addConn plain_peer_lib 7 (Inr remote_data) ?p1 = (Inr v, p2)"
    by (simp add: addConn_def Let_def)
  have c: "0 < p_next peer1" "u_conns (p_store peer1 0) \<subseteq> {1}" "pd_id remote_data = u_id (p_store peer1 0)"
    using new by (simp_all add: createUnit_def)
  have "getUnit ?p1 (pd_id remote_data) = None"
    using new by (simp add: getUnit_def deleteConnection_units createUnit_def)
  from addConn_new(1) [OF this b] have v: "v = 1" using new(4) by simp
  note drop = late_close_drops_new_unit [OF c refl b refl, of two_conns_env None]
  show ?thesis
    by (intro exI [of _ p2] exI [of _ "deleteConnection (\<lambda>e _. e) two_conns_env 0 1 None p2"])
       (use drop v in \<open>simp only: simp_thms\<close>)
qed

lemma delete_from_dests_all:
  "(\<forall>r \<in> set order. dests r \<noteq> None) \<Longrightarrow> delete_from_dests order u dests name =
    (if name \<in> set order then map_option (\<lambda>d. dest_deleteUnit d u) (dests name) else dests name)"
proof (induction order arbitrary: dests)
  case (Cons r order)
  then obtain d where d: "dests r = Some d" by fastforce
  have again: "dest_deleteUnit (dest_deleteUnit d u) u = dest_deleteUnit d u"
    using dest_members.member_remove [of d u u] by (simp add: dest_deleteUnit_def [of "dest_deleteUnit d u"])
  have "\<forall>s \<in> set order. (dests(r \<mapsto> dest_deleteUnit d u)) s \<noteq> None" using Cons.prems by simp
  note ih = Cons.IH [OF this]
  show ?case by (simp add: d ih again)
qed simp

text \<open>
  A unit that lost its last connection leaves the destinations of all its roles if each
  of them has a destination.  Otherwise it may stay in any of them: nothing is removed if a
  role without destination is visited first.
\<close>

theorem deleted_unit_leaves_destinations:
  assumes "enumerates order (u_roles (p_store p u))" and "p' = peer_deleteUnit order u err p"
  shows "((\<forall>r \<in> u_roles (p_store p u). p_destinations p r \<noteq> None) \<longrightarrow>
      (\<forall>r \<in> u_roles (p_store p u). \<exists>d. p_destinations p' r = Some d \<and> \<not> HasUnit d u)) \<and>
    (order \<noteq> [] \<longrightarrow> p_destinations p (hd order) = None \<longrightarrow> p_destinations p' = p_destinations p)"
proof -
  have s: "set order = u_roles (p_store p u)" using assms(1) by (rule enumeratesD)
  show ?thesis
  proof (intro conjI impI ballI)
    fix r assume *: "\<forall>r \<in> u_roles (p_store p u). p_destinations p r \<noteq> None" "r \<in> u_roles (p_store p u)"
    then obtain d where "p_destinations p r = Some d" by fastforce
    then show "\<exists>d. p_destinations p' r = Some d \<and> \<not> HasUnit d u"
      using assms(2) delete_from_dests_all [of order "p_destinations p" u r] * s
      by (simp add: peer_deleteUnit_def dest_members.member_remove)
  next
    assume "order \<noteq> []" "p_destinations p (hd order) = None"
    then show "p_destinations p' = p_destinations p"
      using assms(2) by (cases order) (simp_all add: peer_deleteUnit_def)
  qed
qed

definition half_served :: peer where
  "half_served = two_conns_peer\<lparr>p_store := (\<lambda>_. no_unit\<lparr>u_id := ''x'', u_roles := {''a'', ''b''}\<rparr>),
     p_destinations := [''a'' \<mapsto> dest_addUnit (createDestination ''a'') 0]\<rparr>"

theorem deleted_unit_leaves_destinations_witness:
  "p_destinations (peer_deleteUnit [''b'', ''a''] 0 None half_served) = p_destinations half_served"
proof -
  have "enumerates [''b'', ''a''] (u_roles (p_store half_served 0))"
    by (auto simp: enumerates_def half_served_def)
  moreover have "p_destinations half_served ''b'' = None" by (simp add: half_served_def)
  ultimately show ?thesis
    using deleted_unit_leaves_destinations [OF _ refl, of "[''b'', ''a'']" half_served 0] by simp
qed

end
