(* ===== verification/Node.thy ===== *)
theory Node
  imports Handler Membership
begin

text \<open>
  A peer as a whole: the goroutines it starts, the messages it reads, the calls of the
  application and the expiry of timers, as one step relation, with the invariant of its tables
  and of the controllers of all its units.
\<close>

section \<open>Heartbeats\<close>

text \<open>
  One turn of \<open>heartBeatConn\<close> after the pause: whether the ping could be written and whether a
  pong came in time are given; the result says whether the goroutine goes on.
\<close>

definition heartBeatTurn :: "unitref \<Rightarrow> conn \<Rightarrow> bool \<Rightarrow> bool \<Rightarrow> peer \<Rightarrow> peer \<times> bool" where
  "heartBeatTurn u c written pong p =
     (if c \<notin> u_conns (p_store p u) then (p, False)
      else if \<not> written then (p, False)
      else if pong then (p, True)
      else (closeConnWithCode c errHeartbeatTimeout ''heartbeat timeout'' p, True))"

section \<open>Goroutines\<close>

text \<open>What a goroutine meets: the orders of its iterations, and the results of dialling.\<close>

record go_env =
  ge_keys :: "string list"
  ge_units :: "string list"
  ge_conns :: "conn list"
  ge_roles :: "unitref \<Rightarrow> string list"
  ge_dial :: "goerror + conn"
  ge_auth :: "goerror + peerData"

text \<open>The body of every goroutine; \<open>None\<close> means that it does not end.  Reading and heartbeats take turns of their own.\<close>

fun run_go :: "peer_lib \<Rightarrow> app \<Rightarrow> go_env \<Rightarrow> go \<Rightarrow> peer \<Rightarrow> peer option" where
  "run_go lib app ge (GoRunOnClose u err) p = Some (runOnClose u err p)"
| "run_go lib app ge (GoReconn addr waitFirst) p = Some (startReconnCycle lib addr (ge_dial ge) (ge_auth ge) p)"
| "run_go lib app ge (GoReadConn u c) p = Some p"
| "run_go lib app ge (GoHeartBeat u c) p = Some p"
| "run_go lib app ge GoBroadcastRoles p = Some (broadcastRoles lib (ge_keys ge) (ge_units ge) p)"
| "run_go lib app ge (GoRunOnRole name) p = Some (runOnRole name p)"
| "run_go lib app ge (GoIntroduce u addr) p = Some (introduceUnitToOthers lib (ge_keys ge) (ge_units ge) u addr p)"
| "run_go lib app ge (GoAcquaint u) p = Some (acquaintWithOthers lib (ge_roles ge) (ge_keys ge) u p)"
| "run_go lib app ge (GoCloseConn c code msg) p = Some (closeConnWithCode c code msg p)"
| "run_go lib app ge (GoCloseUnit u code msg) p = Some (closeWithCode (ge_conns ge) u code msg p)"
| "run_go lib app ge (GoOnNewUnitRoles u) p = Some (onNewUnitRoles u p)"
| "run_go lib app ge (GoConnect addr) p =
     Some (snd (Connect lib addr \<lparr>DoNotReconnect = False, DoNotAcquaint = False\<rparr> (ge_dial ge) (ge_auth ge) p))"
| "run_go lib app ge (GoRespond u corr cb) p =
     (case respond_now u corr cb p of Done q \<Rightarrow> Some q | _ \<Rightarrow> None)"
| "run_go lib app ge (GoEmitMsg name ctx) p = map_option snd (emitMsg app name (ctx, p))"
| "run_go lib app ge (GoEmitRequest name ctx) p = map_option snd (emitRequest lib app name (ctx, p))"
| "run_go lib app ge (GoEmitReader name ctx) p = map_option snd (emitReader lib app name (ctx, p))"
| "run_go lib app ge (GoEmitWriter name ctx) p = map_option snd (emitWriter lib app name (ctx, p))"

section \<open>Steps\<close>

text \<open>Fewer than \<open>2 ^ 53\<close> requests were made to the unit so far.\<close>

definition fresh_requests :: "unitref \<Rightarrow> peer \<Rightarrow> bool" where
  "fresh_requests u p \<longleftrightarrow> next_chan (u_callbackCtr (p_store p u)) < 2 ^ 53"

inductive node_step :: "handler_lib \<Rightarrow> peer_lib \<Rightarrow> app \<Rightarrow> peer \<Rightarrow> peer \<Rightarrow> bool"
  for hl :: handler_lib and lib :: peer_lib and app :: app where
  st_go: "g \<in> set (p_go p) \<Longrightarrow> run_go lib app ge g (p\<lparr>p_go := remove1 g (p_go p)\<rparr>) = Some q \<Longrightarrow> node_step hl lib app p q"
| st_serve: "serveIncMsg hl lib order ctx p = Some q \<Longrightarrow> node_step hl lib app p q"
| st_reads: "readConnTurn lib cvti env u c err frame spare p = Reads q \<Longrightarrow> node_step hl lib app p q"
| st_ends: "readConnTurn lib cvti env u c err frame spare p = Ends q \<Longrightarrow> node_step hl lib app p q"
| st_beat: "heartBeatTurn u c written pong p = (q, more_turns) \<Longrightarrow> node_step hl lib app p q"
| st_timeout: "respond_now u corr (timeout_error t) p = Done q \<Longrightarrow> node_step hl lib app p q"
| st_involve: "addConn lib c auth p = (r, q) \<Longrightarrow> node_step hl lib app p q"
| st_connect: "Connect lib addr options dial auth p = (r, q) \<Longrightarrow> node_step hl lib app p q"
| st_role: "Peer_Role name p = (role, q) \<Longrightarrow> node_step hl lib app p q"
| st_enable: "node_step hl lib app p (Role_Enable name p)"
| st_disable: "node_step hl lib app p (Role_Disable name p)"
| st_destination: "node_step hl lib app p (Peer_Destination units name p)"
| st_onUnit: "node_step hl lib app p (Peer_OnUnit f p)"
| st_onRole: "node_step hl lib app p (Peer_OnRole f p)"
| st_onClose: "node_step hl lib app p (Unit_OnClose u f p)"
| st_close: "Unit_Close addrs corrs cs u p = Done q \<Longrightarrow> node_step hl lib app p q"
| st_send: "unit_send lib u headers p = (r, q) \<Longrightarrow> node_step hl lib app p q"
| st_request: "fresh_requests u p \<Longrightarrow> unit_request lib u headers p = Done (r, q) \<Longrightarrow> node_step hl lib app p q"
| st_stream: "fresh_requests u p \<Longrightarrow> stream_request lib t u headers p = Done (r, q) \<Longrightarrow> node_step hl lib app p q"
| st_reader: "newReader_result lib u headers h p = Some (r, q) \<Longrightarrow> node_step hl lib app p q"
| st_writer: "newWriter_result lib u headers h p = Some (s, q) \<Longrightarrow> node_step hl lib app p q"

inductive node_reach :: "handler_lib \<Rightarrow> peer_lib \<Rightarrow> app \<Rightarrow> peer \<Rightarrow> bool"
  for hl :: handler_lib and lib :: peer_lib and app :: app where
  nr_new: "node_reach hl lib app (NewPeer i name friendly net)"
| nr_step: "node_reach hl lib app p \<Longrightarrow> node_step hl lib app p q \<Longrightarrow> node_reach hl lib app q"

section \<open>The invariant\<close>

definition controllers_ok :: "unit_state \<Rightarrow> bool" where
  "controllers_ok s \<longleftrightarrow> cb_inv (u_callbackCtr s) \<and> sc_inv (u_streamCtr s)"

definition node_ok :: "peer \<Rightarrow> bool" where
  "node_ok p \<longleftrightarrow> peer_ok p \<and> (\<forall>u. controllers_ok (p_store p u))"

lemma controllers_okD:
  assumes "node_ok p"
  shows "cb_inv (u_callbackCtr (p_store p u))" "sc_inv (u_streamCtr (p_store p u))" "peer_ok p"
  using assms by (simp_all add: node_ok_def controllers_ok_def)

text \<open>The ways in which the operations change a peer.\<close>

lemma node_ok_same:
  assumes "node_ok p" and "p_units q = p_units p" and "p_store q = p_store p" and "p_next q = p_next p"
    and "p_destinations q = p_destinations p"
  shows "node_ok q"
  using assms peer_ok_same [of p q] by (simp add: node_ok_def)

lemma node_ok_unit:
  assumes "node_ok p" and "controllers_ok s" and "u_id s = u_id (p_store p u)" and "u_conns s = u_conns (p_store p u)"
  shows "node_ok (set_unit u s p)"
  using assms by (auto simp: node_ok_def peer_ok_def unit_entry_ok_def)

lemma node_ok_store: "node_ok p \<Longrightarrow> peer_ok q \<Longrightarrow> p_store q = p_store p \<Longrightarrow> node_ok q"
  by (simp add: node_ok_def)

lemma node_ok_callbacks: "node_ok p \<Longrightarrow> cb_inv ctr \<Longrightarrow> node_ok (set_callbacks u ctr p)"
  by (simp add: set_callbacks_def node_ok_unit controllers_ok_def controllers_okD)

lemma node_ok_streams: "node_ok p \<Longrightarrow> sc_inv ctr \<Longrightarrow> node_ok (set_streams u ctr p)"
  by (simp add: set_streams_def node_ok_unit controllers_ok_def controllers_okD)

lemma node_ok_spawn [simp]: "node_ok (spawn g p) \<longleftrightarrow> node_ok p"
  using node_ok_same [of "spawn g p" p] node_ok_same [of p "spawn g p"] by auto

lemma node_ok_fields [simp]:
  "node_ok (p\<lparr>p_go := gs\<rparr>) = node_ok p" "node_ok (p\<lparr>p_ran := rs\<rparr>) = node_ok p"
  "node_ok (p\<lparr>p_roles := ro\<rparr>) = node_ok p" "node_ok (p\<lparr>p_addrUnits := ad\<rparr>) = node_ok p"
  "node_ok (p\<lparr>p_lastRolesChange := i\<rparr>) = node_ok p" "node_ok (p\<lparr>p_closes := cl\<rparr>) = node_ok p"
  "node_ok (p\<lparr>p_unitHandlers := hs\<rparr>) = node_ok p" "node_ok (p\<lparr>p_roleHandlers := hs\<rparr>) = node_ok p"
  "node_ok (p\<lparr>p_calls := n, p_msgs := ms\<rparr>) = node_ok p"
  by (auto simp: node_ok_def peer_ok_def unit_entry_ok_def)

lemma sc_inv_closed: "sc_inv s \<Longrightarrow> sc_inv (onConnClosed wrap order s c err)"
  by (simp add: sc_inv_def)

lemma sc_inv_bind [simp]: "sc_inv (StreamController.bindConn s c channel) = sc_inv s"
  by (simp add: sc_inv_def)

lemma sc_inv_delete: "sc_inv s \<Longrightarrow> sc_inv (delete_stream s channel)"
  by (auto simp: sc_inv_def delete_stream_def)

lemma sc_inv_create: "sc_inv s \<Longrightarrow> createStream s = Done (channel, a, t) \<Longrightarrow> sc_inv t"
  by (auto simp: createStream_ids) (auto simp: sc_inv_def ids_def less_Suc_eq)

lemma sc_inv_frame: "sc_inv s \<Longrightarrow> readStreamFrame cvt cvti s r = Continue t \<Longrightarrow> sc_inv t"
  by (auto simp: readStreamFrame_def sc_inv_def split: option.splits)

lemma deleteConnection_node_ok: "node_ok p \<Longrightarrow> node_ok (deleteConnection wrap env u c err p)"
  by (auto simp: node_ok_def deleteConnection_ok deleteConnection_store controllers_ok_def sc_inv_closed)

interpretation node_write: write_steps "\<lambda>_ p q. node_ok p \<longrightarrow> node_ok q"
  by unfold_locales (auto simp: deleteConnection_node_ok intro: node_ok_same)

lemma write_node_ok:
  assumes "node_ok p" and "writeMsgToSomeConnection wrap u msg p = (res, q)"
  shows "node_ok q"
  using node_write.write_keeps [OF assms(2)] assms(1) by (simp add: node_ok_same [of p])

lemma write_node_ok' [simp]: "node_ok p \<Longrightarrow> node_ok (snd (writeMsgToSomeConnection wrap u msg p))"
  using write_node_ok by (metis surjective_pairing)

section \<open>Every operation keeps the invariant\<close>

subsection \<open>The peer\<close>

lemma fold_node_ok:
  "(\<And>q x. node_ok q \<Longrightarrow> node_ok (f q x)) \<Longrightarrow> node_ok p \<Longrightarrow> node_ok (foldl f p xs)"
  by (induction xs arbitrary: p) simp_all

lemma closeConn_node_ok [simp]: "node_ok (closeConnWithCode c code msg p) = node_ok p"
  by (simp add: closeConnWithCode_def)

lemma sendRoles_node_ok: "node_ok p \<Longrightarrow> node_ok (snd (sendRoles lib u i roles p))"
  by (auto simp: sendRoles_def dest: write_node_ok split: sum.split prod.split)

lemma onNewUnitRoles_node_ok [simp]: "node_ok p \<Longrightarrow> node_ok (onNewUnitRoles u p)"
  by (frule controllers_okD(3), erule node_ok_store) (simp_all add: onNewUnitRoles_ok, simp add: onNewUnitRoles_def)

lemma Peer_Destination_node_ok: "node_ok p \<Longrightarrow> node_ok (Peer_Destination units name p)"
  by (frule controllers_okD(3), erule node_ok_store) (simp_all add: Peer_Destination_ok, simp add: Peer_Destination_def Let_def split: option.split)

lemma fold_close_store: "p_store (foldl (\<lambda>p c. closeConnWithCode c code msg p) p cs) = p_store p"
  by (induction cs arbitrary: p) (simp_all add: closeConnWithCode_def)

lemma closeWithCode_node_ok: "node_ok p \<Longrightarrow> node_ok (closeWithCode cs u code msg p)"
  by (frule controllers_okD(3), erule node_ok_store) (simp_all add: closeWithCode_ok, simp add: closeWithCode_def Let_def fold_close_store)

lemma addConn_node_ok:
  assumes "node_ok p" and "addConn lib c auth p = (r, q)"
  shows "node_ok q"
proof -
  have ok: "peer_ok q" using addConn_ok [OF controllers_okD(3) [OF assms(1)] assms(2)] .
  have new: "controllers_ok ((createUnit res)\<lparr>u_conns := cs\<rparr>)" for res cs
    by (simp add: controllers_ok_def createUnit_def cb_inv_init sc_reach_inv sc_init)
  have "controllers_ok (p_store q v)" for v
  proof (cases r)
    case (Inl err)
    then have "p_store q = p_store p"
      using assms(2) by (auto simp: addConn_def Let_def closeConnWithCode_def split: sum.splits option.splits)
    then show ?thesis using assms(1) by (simp add: node_ok_def)
  next
    case (Inr u)
    then obtain res where res: "auth = Inr res" using assms(2) addConn_accepted by blast
    note add = assms(2) [unfolded Inr res]
    show ?thesis
    proof (cases "getUnit p (pd_id res)")
      case None
      note facts = addConn_new [OF None add]
      show ?thesis using facts(2,5) new assms(1) by (cases "v = u") (simp_all add: node_ok_def)
    next
      case (Some w)
      then show ?thesis using addConn_known(2) [OF Some add] assms(1) by (simp add: node_ok_def controllers_ok_def)
    qed
  qed
  with ok show ?thesis by (simp add: node_ok_def)
qed

lemma Connect_node_ok: "node_ok p \<Longrightarrow> node_ok (snd (Connect lib addr options dial auth p))"
  by (auto simp: Connect_def Let_def dest: addConn_node_ok [rotated] split: sum.split prod.split)

lemma startReconnCycle_node_ok: "node_ok p \<Longrightarrow> node_ok (startReconnCycle lib addr dial auth p)"
  by (simp add: startReconnCycle_def Connect_node_ok split: prod.split)

lemma broadcastRoles_node_ok: "node_ok p \<Longrightarrow> node_ok (broadcastRoles lib ks us p)"
  unfolding broadcastRoles_def Let_def
  by (rule fold_node_ok) (simp_all add: incRolesBroadcastSession_def Let_def sendRoles_node_ok)

lemma introduce_node_ok: "node_ok p \<Longrightarrow> node_ok (introduceUnitToOthers lib ks us u addr p)"
  by (auto simp: introduceUnitToOthers_def intro: fold_node_ok split: sum.split)

lemma acquaint_node_ok: "node_ok p \<Longrightarrow> node_ok (acquaintWithOthers lib rs addrs u p)"
  by (auto simp: acquaintWithOthers_def Let_def intro!: fold_node_ok split: option.split sum.split)

lemma roles_node_ok: "node_ok p \<Longrightarrow> node_ok (setRoles u rs p)" "node_ok p \<Longrightarrow> node_ok (setLastRoleSession u i p)"
  by (simp_all add: setRoles_def setLastRoleSession_def node_ok_unit controllers_ok_def controllers_okD)

subsection \<open>Requests\<close>

lemma respond_node_ok: "node_ok p \<Longrightarrow> respond_now u corr cb p = Done q \<Longrightarrow> node_ok q"
  using respond_inv [OF controllers_okD(1), of p u corr cb]
  by (auto simp: respond_now_def node_ok_callbacks split: exec.splits)

lemma fail_node_ok: "node_ok p \<Longrightarrow> fail_request u corr err p = Done q \<Longrightarrow> node_ok q"
  using respond_node_ok [of p u corr "\<lparr>cb_ctx = None, cb_err = Some err\<rparr>" q]
  by (simp add: respond_now_def fail_request_def)

lemma prepare_node_ok:
  "node_ok p \<Longrightarrow> fresh_requests u p \<Longrightarrow> prepare (u_callbackCtr (p_store p u)) ign = Done (corr, ch, ctr) \<Longrightarrow>
   node_ok (set_callbacks u ctr p)"
  using cb_inv_prepare [OF controllers_okD(1)] by (auto simp: fresh_requests_def intro: node_ok_callbacks)

lemma unit_send_node_ok: "node_ok p \<Longrightarrow> unit_send lib u headers p = (r, q) \<Longrightarrow> node_ok q"
  by (auto simp: unit_send_def dest: write_node_ok split: option.splits prod.splits sum.splits)

lemma unit_request_node_ok:
  assumes "node_ok p" and "fresh_requests u p" and "unit_request lib u headers p = Done (r, q)"
  shows "node_ok q"
  using assms(1,3) prepare_node_ok [OF assms(1,2)]
  by (auto simp: unit_request_def Let_def dest!: write_node_ok [rotated] fail_node_ok [rotated]
      split: option.splits exec.splits prod.splits sum.splits)

lemma stream_request_node_ok:
  assumes "node_ok p" and "fresh_requests u p" and "stream_request lib t u headers p = Done (r, q)"
  shows "node_ok q"
proof -
  have create: "node_ok (set_streams u sctr p1)"
    if "node_ok p1" "createStream (u_streamCtr (p_store p1 u)) = Done (channel, sc, sctr)" for p1 channel sc sctr
    using sc_inv_create [OF controllers_okD(2) [OF that(1)] that(2)] that(1) by (simp add: node_ok_streams)
  show ?thesis
    using assms(1,3) prepare_node_ok [OF assms(1,2)] create
    by (auto simp: stream_request_def Let_def dest!: write_node_ok [rotated] fail_node_ok [rotated]
        simp del: set_callbacks_simps
        split: option.splits exec.splits prod.splits sum.splits)
qed

lemma bind_node_ok: "node_ok p \<Longrightarrow>
  node_ok (set_streams u (StreamController.bindConn (u_streamCtr (p_store p u)) c channel) p)"
  by (simp add: node_ok_streams controllers_okD)

lemma newReader_result_node_ok: "node_ok p \<Longrightarrow> newReader_result lib u headers h p = Some (r, q) \<Longrightarrow> node_ok q"
  by (auto simp: newReader_result_def bind_eq_Some_conv bind_node_ok split: prod.splits)

lemma newWriter_result_node_ok: "node_ok p \<Longrightarrow> newWriter_result lib u headers h p = Some (r, q) \<Longrightarrow> node_ok q"
  by (auto simp: newWriter_result_def bind_eq_Some_conv bind_node_ok split: prod.splits)

lemma Unit_Close_node_ok:
  assumes "node_ok p" and "Unit_Close addrs corrs cs u p = Done q"
  shows "node_ok q"
  using assms(2) onClose_inv [OF controllers_okD(1) [OF assms(1)], of corrs u] assms(1)
    node_ok_callbacks [OF assms(1), of _ u]
  by (auto simp: Unit_Close_def Let_def set_callbacks_def intro!: closeWithCode_node_ok node_ok_unit
      simp: controllers_ok_def controllers_okD split: exec.splits)

subsection \<open>The application\<close>

text \<open>The functions of the application use the peer through its operations only, so they keep the invariant.\<close>

definition keeps :: "('c \<times> peer \<Rightarrow> ('c \<times> peer) option) \<Rightarrow> bool" where
  "keeps f \<longleftrightarrow> (\<forall>s s'. f s = Some s' \<longrightarrow> node_ok (snd s) \<longrightarrow> node_ok (snd s'))"

definition app_ok :: "app \<Rightarrow> bool" where
  "app_ok app \<longleftrightarrow> (\<forall>h. keeps (a_msg app h) \<and> keeps (a_req app h) \<and> keeps (a_reader app h) \<and> keeps (a_writer app h))"

lemma keepsI: "(\<And>c p c' p'. f (c, p) = Some (c', p') \<Longrightarrow> node_ok p \<Longrightarrow> node_ok p') \<Longrightarrow> keeps f"
  by (auto simp: keeps_def)

lemma keepsD: "keeps f \<Longrightarrow> f (c, p) = Some (c', p') \<Longrightarrow> node_ok p \<Longrightarrow> node_ok p'"
  by (fastforce simp: keeps_def)

lemma keeps_bind:
  assumes "keeps f" and "keeps g"
  shows "keeps (\<lambda>s. Option.bind (f s) g)"
proof (rule keepsI)
  fix c p c' p' assume "Option.bind (f (c, p)) g = Some (c', p')" and ok: "node_ok p"
  then obtain c1 p1 where "f (c, p) = Some (c1, p1)" "g (c1, p1) = Some (c', p')"
    by (auto simp: bind_eq_Some_conv)
  with ok show "node_ok p'" using keepsD [OF assms(1)] keepsD [OF assms(2)] by blast
qed

lemma app_okD:
  assumes "app_ok app"
  shows "keeps (a_msg app h)" "keeps (a_req app h)" "keeps (a_reader app h)" "keeps (a_writer app h)"
  using assms by (simp_all add: app_ok_def)

lemma callbacks_from_keeps:
  assumes "app_ok app"
  shows "keeps (callbacks_from app i)"
proof (induction i)
  case (Suc i)
  show ?case
  proof (rule keepsI)
    fix c p c' p' assume run: "callbacks_from app (Suc i) (c, p) = Some (c', p')" and ok: "node_ok p"
    then have "keeps (\<lambda>s. Option.bind (a_req app (rq_cbs c ! i) s) (callbacks_from app i))"
      by (intro keeps_bind app_okD [OF assms] Suc.IH)
    then show "node_ok p'" using run ok by (auto dest: keepsD split: if_splits)
  qed
qed (simp add: keeps_def)

lemma runCallbacks_node_ok:
  "app_ok app \<Longrightarrow> runCallbacks app (c, p) = Some (c', p') \<Longrightarrow> node_ok p \<Longrightarrow> node_ok p'"
  unfolding runCallbacks_def by (rule keepsD [OF callbacks_from_keeps])

lemma until_answered_keeps: "(\<And>h. keeps (run h)) \<Longrightarrow> keeps (until_answered stop run hs)"
proof (induction hs)
  case (Cons h hs)
  then have "keeps (\<lambda>s. Option.bind (run h s) (until_answered stop run hs))" by (intro keeps_bind) auto
  then show ?case by (simp add: keeps_def)
qed (simp add: keeps_def)

lemma run_all_keeps: "(\<And>h. keeps (run h)) \<Longrightarrow> keeps (run_all run hs)"
proof (induction hs)
  case (Cons h hs)
  then have "keeps (\<lambda>s. Option.bind (run h s) (run_all run hs))" by (intro keeps_bind) auto
  then show ?case by (simp add: keeps_def)
qed (simp add: keeps_def)

subsection \<open>Answers\<close>

lemma send_answer_node_ok: "send_answer lib t d (c, p) = Some (e, c', p') \<Longrightarrow> node_ok p \<Longrightarrow> node_ok p'"
  by (auto simp: send_answer_def dest: write_node_ok [rotated] split: option.splits prod.splits sum.splits)

lemma ctx_Reply_node_ok:
  assumes "app_ok app" and "ctx_Reply lib app d (c, p) = Some (e, c', p')" and "node_ok p"
  shows "node_ok p'"
  using assms(2,3) runCallbacks_node_ok [OF assms(1)] send_answer_node_ok
  by (auto simp: ctx_Reply_def Let_def bind_eq_Some_conv split: option.splits)

lemma ctx_Reject_node_ok:
  assumes "app_ok app" and "ctx_Reject lib app d (c, p) = Some (e, c', p')" and "node_ok p"
  shows "node_ok p'"
  using assms(2,3) runCallbacks_node_ok [OF assms(1)] send_answer_node_ok
  by (auto simp: ctx_Reject_def Let_def bind_eq_Some_conv split: reject_data.splits)

lemma stream_unit_node_ok:
  "node_ok p \<Longrightarrow> sc_inv ctr \<Longrightarrow> node_ok (set_unit u ((p_store p u)\<lparr>u_streamCtr := ctr\<rparr>) p)"
  using node_ok_streams by (simp add: set_streams_def)

lemma stream_answer_node_ok:
  assumes "stream_answer lib t d (c, p) = Some (r, c', p')" and "node_ok p"
  shows "node_ok p'"
proof -
  have edit: "node_ok (set_unit u ((p_store q u)\<lparr>u_streamCtr := delete_stream (u_streamCtr (p_store q u)) channel\<rparr>) q)"
    "node_ok (set_unit u ((p_store q u)\<lparr>u_streamCtr := StreamController.bindConn (u_streamCtr (p_store q u)) cn channel\<rparr>) q)"
    if "node_ok q" for q u channel cn
    using that by (simp_all add: stream_unit_node_ok sc_inv_delete controllers_okD)
  have create: "node_ok (set_unit u ((p_store p u)\<lparr>u_streamCtr := ctr\<rparr>) p)"
    if "createStream (u_streamCtr (p_store p u)) = Done (channel, sc, ctr)" for u channel sc ctr
    using stream_unit_node_ok [OF assms(2)] sc_inv_create [OF controllers_okD(2) [OF assms(2)] that] by simp
  show ?thesis
    using assms edit create write_node_ok
    by (auto simp: stream_answer_def Let_def split: option.splits exec.splits prod.splits sum.splits) blast+
qed

lemma stream_reply_node_ok:
  assumes "app_ok app" and "stream_reply lib app d (c, p) = Some (r, c', p')" and "node_ok p"
  shows "node_ok p'"
  using assms(2,3) runCallbacks_node_ok [OF assms(1)] stream_answer_node_ok
  by (auto simp: stream_reply_def Let_def bind_eq_Some_conv split: option.splits)

lemma Reader_Reply_node_ok:
  assumes "app_ok app" and "Reader_Reply lib app d (c, p) = Some (r, c', p')" and "node_ok p"
  shows "node_ok p'"
proof -
  obtain r1 c1 q where q: "on_request (stream_reply lib app d) (c, p) = Some (r1, c1, q)"
    using assms(2) by (auto simp: Reader_Reply_def bind_eq_Some_conv)
  then have "q = p'" using assms(2) by (cases r1) (auto simp: Reader_Reply_def)
  then show ?thesis using q assms(3) stream_reply_node_ok [OF assms(1)] by (auto simp: on_request_def)
qed

lemma Writer_Reply_node_ok:
  assumes "app_ok app" and "Writer_Reply lib app d (c, p) = Some (r, c', p')" and "node_ok p"
  shows "node_ok p'"
proof -
  obtain r1 c1 q where q: "on_request (stream_reply lib app d) (c, p) = Some (r1, c1, q)"
    using assms(2) by (auto simp: Writer_Reply_def bind_eq_Some_conv)
  then have "q = p'" using assms(2) by (cases r1) (auto simp: Writer_Reply_def)
  then show ?thesis using q assms(3) stream_reply_node_ok [OF assms(1)] by (auto simp: on_request_def)
qed

subsection \<open>Handlers of a role\<close>

lemma default_answer_node_ok:
  assumes "app_ok app" and "default_answer lib app (c, p) = Some (e, c', p')" and "node_ok p"
  shows "node_ok p'"
  using assms(2,3) ctx_Reply_node_ok [OF assms(1)] ctx_Reject_node_ok [OF assms(1)]
  by (auto simp: default_answer_def split: option.splits if_splits)

lemma emitRequest_node_ok:
  assumes "app_ok app" and "emitRequest lib app name (c, p) = Some (c', p')" and "node_ok p"
  shows "node_ok p'"
proof -
  note chain = keepsD [OF until_answered_keeps, OF app_okD(2) [OF assms(1)]]
  show ?thesis
    using assms(2,3)
    by (auto simp: emitRequest_def bind_eq_Some_conv dest!: chain runCallbacks_node_ok [OF assms(1)]
        default_answer_node_ok [OF assms(1)] split: if_splits)
qed

lemma emit_stream_node_ok:
  assumes "app_ok app" and "\<And>h. keeps (run h)" and "\<And>d. keeps (reply d)"
    and "emit_stream lib app run handlers reply name (c, p) = Some (c', p')" and "node_ok p"
  shows "node_ok p'"
proof -
  note chain = keepsD [OF until_answered_keeps, OF assms(2)]
  show ?thesis
    using assms(4,5)
    by (auto simp: emit_stream_def on_request_def bind_eq_Some_conv dest!: chain runCallbacks_node_ok [OF assms(1)]
        ctx_Reject_node_ok [OF assms(1)] keepsD [OF assms(3)] split: if_splits option.splits)
qed

lemma emitReader_node_ok:
  assumes "app_ok app" and "emitReader lib app name (c, p) = Some (c', p')" and "node_ok p"
  shows "node_ok p'"
proof -
  have "keeps (\<lambda>s. map_option snd (Reader_Reply lib app d s))" for d
    using Reader_Reply_node_ok [OF assms(1)] by (auto intro!: keepsI)
  from emit_stream_node_ok [OF assms(1) app_okD(3) [OF assms(1)] this assms(2) [unfolded emitReader_def] assms(3)]
  show ?thesis .
qed

lemma emitWriter_node_ok:
  assumes "app_ok app" and "emitWriter lib app name (c, p) = Some (c', p')" and "node_ok p"
  shows "node_ok p'"
proof -
  have "keeps (\<lambda>s. map_option snd (Writer_Reply lib app d s))" for d
    using Writer_Reply_node_ok [OF assms(1)] by (auto intro!: keepsI)
  from emit_stream_node_ok [OF assms(1) app_okD(4) [OF assms(1)] this assms(2) [unfolded emitWriter_def] assms(3)]
  show ?thesis .
qed

lemma emitMsg_node_ok:
  assumes "app_ok app" and "emitMsg app name (c, p) = Some (c', p')" and "node_ok p"
  shows "node_ok p'"
proof -
  note chain = keepsD [OF run_all_keeps, OF app_okD(1) [OF assms(1)]]
  show ?thesis using assms(2,3) by (auto simp: emitMsg_def bind_eq_Some_conv dest!: chain)
qed

subsection \<open>Messages and goroutines\<close>

lemma of_parse_node_ok:
  "of_parse x k = Done q \<Longrightarrow> (\<And>y. k y = Done q \<Longrightarrow> node_ok q) \<Longrightarrow> node_ok q"
  by (auto simp: of_parse_def split: option.splits)

lemma with_data_node_ok:
  "with_data hl ctx t raw p k = Done q \<Longrightarrow> (\<And>v. k v = Done q \<Longrightarrow> node_ok q) \<Longrightarrow> node_ok p \<Longrightarrow> node_ok q"
  by (auto simp: with_data_def split: outcome.splits)

lemma reject_unknown_node_ok: "reject_unknown lib (new_request ctx corr) name p = Done q \<Longrightarrow> node_ok p \<Longrightarrow> node_ok q"
  by (auto simp: reject_unknown_run split: option.splits)

lemma serveIncMsg_node_ok:
  assumes "node_ok p" and "serveIncMsg hl lib order ctx p = Some q"
  shows "node_ok q"
proof -
  have "node_ok r" if "serve_switch hl lib order ctx p = Done r" for r
    using that assms(1) unfolding serve_switch_def
    by (auto simp: serve_message_def serve_request_def serve_stream_def serve_stream_response_def serve_resolve_def
        serve_reject_def serve_roles_def serve_acquaint_def serve_unknown_def Let_def roles_node_ok
        elim!: of_parse_node_ok with_data_node_ok
        dest: reject_unknown_node_ok respond_node_ok [rotated] split: if_splits prod.splits list.splits)
  then show ?thesis using assms by (auto simp: serveIncMsg_def split: exec.splits)
qed

lemma readConnTurn_node_ok:
  assumes "node_ok p"
  shows "readConnTurn lib cvti env u c err frame spare p = Reads q \<Longrightarrow> node_ok q"
    and "readConnTurn lib cvti env u c err frame spare p = Ends q \<Longrightarrow> node_ok q"
  using assms sc_inv_frame [OF controllers_okD(2) [OF assms]]
  by (auto simp: readConnTurn_def node_ok_streams deleteConnection_node_ok
      split: list.splits if_splits conn_turn.splits option.splits)

lemma run_go_node_ok:
  assumes "app_ok app" and "node_ok p" and "run_go lib app ge g p = Some q"
  shows "node_ok q"
  using assms(2,3)
  by (cases g)
     (auto simp: runOnClose_def runOnRole_def startReconnCycle_node_ok broadcastRoles_node_ok introduce_node_ok
       acquaint_node_ok closeWithCode_node_ok Connect_node_ok
       dest: emitRequest_node_ok [OF assms(1)] emitReader_node_ok [OF assms(1)] emitWriter_node_ok [OF assms(1)]
         emitMsg_node_ok [OF assms(1)] respond_node_ok [rotated]
       split: exec.splits)

lemma roles_ops_node_ok:
  "node_ok p \<Longrightarrow> node_ok (snd (Peer_Role name p))" "node_ok p \<Longrightarrow> node_ok (Role_Enable name p)"
  "node_ok p \<Longrightarrow> node_ok (Role_Disable name p)" "node_ok p \<Longrightarrow> node_ok (Peer_OnUnit f p)"
  "node_ok p \<Longrightarrow> node_ok (Peer_OnRole f p)" "node_ok p \<Longrightarrow> node_ok (Unit_OnClose u f p)"
  by (simp_all add: Peer_Role_def Role_Enable_def Role_Disable_def Peer_OnUnit_def Peer_OnRole_def Unit_OnClose_def
      Let_def node_ok_unit controllers_ok_def controllers_okD split: option.split)

lemma node_step_ok:
  assumes "node_step hl lib app p q" and "app_ok app" and "node_ok p"
  shows "node_ok q"
  using assms
proof (induction rule: node_step.induct)
  case (st_go g p ge q)
  then show ?case using run_go_node_ok [of app "p\<lparr>p_go := remove1 g (p_go p)\<rparr>"] by simp
next
  case (st_beat u c written pong p q more_turns)
  then show ?case by (auto simp: heartBeatTurn_def split: if_splits)
next
  case (st_role name p role q)
  then show ?case using roles_ops_node_ok(1) [of p name] by simp
next
  case (st_connect addr options dial auth p r q)
  then show ?case using Connect_node_ok [of p lib addr options dial auth] by simp
qed (blast intro: serveIncMsg_node_ok readConnTurn_node_ok respond_node_ok addConn_node_ok roles_ops_node_ok
      Peer_Destination_node_ok Unit_Close_node_ok unit_send_node_ok unit_request_node_ok stream_request_node_ok
      newReader_result_node_ok newWriter_result_node_ok)+

lemma node_reach_ok:
  assumes "node_reach hl lib app p" and "app_ok app"
  shows "node_ok p"
  using assms
proof (induction rule: node_reach.induct)
  case (nr_new i name friendly net)
  show ?case
    by (simp add: node_ok_def peer_ok_def NewPeer_def no_unit_def controllers_ok_def cb_inv_init sc_reach_inv sc_init)
qed (rule node_step_ok)

section \<open>Properties\<close>


definition plain_env :: go_env where
  "plain_env = \<lparr>ge_keys = [], ge_units = [], ge_conns = [], ge_roles = (\<lambda>_. []), ge_dial = Inr 3,
     ge_auth = Inr remote_data\<rparr>"

lemma idle_app_ok: "app_ok idle_app"
  by (simp add: app_ok_def keeps_def idle_app_def)

lemma peer1_node: "node_reach hl plain_peer_lib app peer1"
proof -
  have "node_step hl plain_peer_lib app peer0 peer1"
    using peer1_add by (rule st_involve)
  moreover have "node_reach hl plain_peer_lib app peer0"
    unfolding peer0_def by (rule nr_step [OF nr_new st_destination])
  ultimately show ?thesis by (rule nr_step [rotated])
qed


text \<open>
  C14.  No callback is ever lost by blocking: in every reachable state a response, a rejection,
  a timeout or the closing of a unit completes at once, without a panic.
\<close>

theorem callbacks_never_block:
  assumes "node_reach hl lib app p" and "app_ok app"
  shows "\<exists>q r. run_go lib app ge (GoRespond u corr cb) p = Some q \<and> Unit_Close addrs corrs cs u p = Done r"
proof -
  have ok: "node_ok p" using assms by (rule node_reach_ok)
  obtain t where "respond_now u corr cb p = Done (set_callbacks u t p)"
    using respond_inv [OF controllers_okD(1) [OF ok, of u], of corr cb] by (auto simp: respond_now_def)
  moreover obtain t' where "onClose corrs (u_callbackCtr (p_store p u)) = Done t'"
    using onClose_inv [OF controllers_okD(1) [OF ok, of u], of corrs] by blast
  ultimately show ?thesis by (simp add: Unit_Close_def Let_def)
qed

theorem callbacks_never_block_witness:
  "\<exists>q r. run_go plain_peer_lib idle_app plain_env (GoRespond 0 7 \<lparr>cb_ctx = None, cb_err = None\<rparr>) peer1 = Some q \<and>
    Unit_Close [] [7] [] 0 peer1 = Done r"
  by (rule callbacks_never_block [OF peer1_node idle_app_ok])

end
