(* ===== verification/Locks.thy ===== *)
theory Locks
  imports StreamController
begin

text \<open>
  The two locks of the library, as machines whose steps are the critical sections and the
  acquisitions of their inner mutexes: \<open>connLocker\<close> (ConnLocker.go), which serialises writers of
  a connection and keeps a flag that \<open>isLocked\<close> reads, and \<open>busyMutex\<close> (structs.go).  Goroutines
  are named by numbers.
\<close>

section \<open>The interface\<close>

text \<open>A lock whose critical section only the holder of its mutex is in.\<close>

locale lock_machine =
  fixes init :: 's and step :: "'s \<Rightarrow> 's \<Rightarrow> bool" and holder :: "'s \<Rightarrow> nat option" and critical :: "'s \<Rightarrow> nat \<Rightarrow> bool"
  assumes critical_init: "critical init t \<Longrightarrow> holder init = Some t"
    and critical_step: "step s s' \<Longrightarrow> (\<And>u. critical s u \<Longrightarrow> holder s = Some u) \<Longrightarrow> critical s' t \<Longrightarrow> holder s' = Some t"
begin

lemma critical_holds: "step\<^sup>*\<^sup>* init s \<Longrightarrow> critical s t \<Longrightarrow> holder s = Some t"
  by (induction arbitrary: t rule: rtranclp_induct) (auto intro: critical_init critical_step)

lemma exclusion: "step\<^sup>*\<^sup>* init s \<Longrightarrow> critical s t \<Longrightarrow> critical s u \<Longrightarrow> t = u"
  using critical_holds [of s t] critical_holds [of s u] by simp

end

section \<open>The lock of a connection\<close>

datatype writer_pc = Outside | Marked | Writing | Released

record connLocker =
  cl_mx :: "nat option"
  cl_locked :: bool
  cl_pc :: "nat \<Rightarrow> writer_pc"

definition createConnLocker :: connLocker where
  "createConnLocker = \<lparr>cl_mx = None, cl_locked = False, cl_pc = (\<lambda>_. Outside)\<rparr>"

definition isLocked :: "connLocker \<Rightarrow> bool" where
  "isLocked cl = cl_locked cl"

text \<open>
  \<open>Lock\<close> sets the flag and then acquires the mutex, \<open>Unlock\<close> releases the mutex and then clears
  the flag; between them \<open>WriteMessage\<close> writes its frame.
\<close>

inductive cl_step :: "connLocker \<Rightarrow> connLocker \<Rightarrow> bool" where
  cl_mark: "cl_pc s t = Outside \<Longrightarrow> cl_step s (s\<lparr>cl_locked := True, cl_pc := (cl_pc s)(t := Marked)\<rparr>)"
| cl_acquire: "cl_pc s t = Marked \<Longrightarrow> cl_mx s = None \<Longrightarrow>
    cl_step s (s\<lparr>cl_mx := Some t, cl_pc := (cl_pc s)(t := Writing)\<rparr>)"
| cl_release: "cl_pc s t = Writing \<Longrightarrow> cl_step s (s\<lparr>cl_mx := None, cl_pc := (cl_pc s)(t := Released)\<rparr>)"
| cl_clear: "cl_pc s t = Released \<Longrightarrow> cl_step s (s\<lparr>cl_locked := False, cl_pc := (cl_pc s)(t := Outside)\<rparr>)"

inductive_cases cl_stepE: "cl_step s s'"

abbreviation cl_reach :: "connLocker \<Rightarrow> bool" where
  "cl_reach s \<equiv> cl_step\<^sup>*\<^sup>* createConnLocker s"

interpretation conn_lock: lock_machine createConnLocker cl_step cl_mx "\<lambda>s t. cl_pc s t = Writing"
proof
  fix s s' t assume st: "cl_step s s'" and all: "\<And>u. cl_pc s u = Writing \<Longrightarrow> cl_mx s = Some u" and w: "cl_pc s' t = Writing"
  from st show "cl_mx s' = Some t"
  proof cases
    case (cl_release v)
    then have "cl_pc s t = Writing" "t \<noteq> v" using w by (auto split: if_splits)
    then show ?thesis using all [of t] all [of v] cl_release(2) by simp
  qed (use all [of t] w in \<open>auto split: if_splits\<close>)
qed (simp add: createConnLocker_def)

text \<open>The holder of the mutex is writing, and a set flag means that a writer is under way.\<close>

definition cl_inv :: "connLocker \<Rightarrow> bool" where
  "cl_inv s \<longleftrightarrow> (\<forall>t. cl_mx s = Some t \<longrightarrow> cl_pc s t = Writing) \<and> (cl_locked s \<longrightarrow> (\<exists>t. cl_pc s t \<noteq> Outside))"

lemma cl_reach_inv: "cl_reach s \<Longrightarrow> cl_inv s"
proof (induction rule: rtranclp_induct)
  case (step s s')
  have writing: "cl_pc s t = Writing \<Longrightarrow> cl_mx s = Some t" for t
    using conn_lock.critical_holds [OF step.hyps(1)] .
  show ?case
    using step.hyps(2) step.IH
  proof (elim cl_stepE)
    fix t assume "cl_pc s t = Writing" "s' = s\<lparr>cl_mx := None, cl_pc := (cl_pc s)(t := Released)\<rparr>"
    then show "cl_inv s'" using step.IH by (auto simp: cl_inv_def)
  qed (auto simp: cl_inv_def)
qed (simp add: cl_inv_def createConnLocker_def)

text \<open>
  C28.  At most one goroutine writes to a connection at a time; a writer is never stuck: while
  any is under way, one of them can go on; and once all are done the connection looks free.
\<close>

theorem conn_writers_exclude:
  assumes "cl_reach s"
  shows "(cl_pc s t = Writing \<longrightarrow> cl_pc s u = Writing \<longrightarrow> t = u) \<and>
    (cl_pc s t \<noteq> Outside \<longrightarrow> (\<exists>s' v. cl_step s s' \<and> cl_pc s v \<noteq> Outside \<and> cl_pc s' v \<noteq> cl_pc s v)) \<and>
    ((\<forall>v. cl_pc s v = Outside) \<longrightarrow> \<not> isLocked s)"
proof -
  have inv: "cl_inv s" using assms by (rule cl_reach_inv)
  have "\<exists>s' v. cl_step s s' \<and> cl_pc s v \<noteq> Outside \<and> cl_pc s' v \<noteq> cl_pc s v" if t: "cl_pc s t \<noteq> Outside"
  proof (cases "cl_mx s")
    case (Some v)
    then have "cl_pc s v = Writing" using inv by (simp add: cl_inv_def)
    from cl_release [OF this] show ?thesis using \<open>cl_pc s v = Writing\<close> by (intro exI [of _ v] exI conjI) auto
  next
    case None
    then have "cl_pc s t \<noteq> Writing" using conn_lock.critical_holds [OF assms, of t] by auto
    then consider "cl_pc s t = Marked" | "cl_pc s t = Released" using t by (cases "cl_pc s t") auto
    then show ?thesis
    proof cases
      case 1
      from cl_acquire [OF 1 None] show ?thesis using 1 by (intro exI [of _ t] exI conjI) auto
    next
      case 2
      from cl_clear [OF 2] show ?thesis using 2 by (intro exI [of _ t] exI conjI) auto
    qed
  qed
  then show ?thesis
    using conn_lock.exclusion [OF assms, of t u] inv by (auto simp: cl_inv_def isLocked_def)
qed

definition one_writer :: connLocker where
  "one_writer = \<lparr>cl_mx = Some 1, cl_locked = True, cl_pc = (\<lambda>_. Outside)(1 := Writing)\<rparr>"

lemma one_writer_reach: "cl_reach one_writer"
proof -
  let ?s1 = "\<lparr>cl_mx = None, cl_locked = True, cl_pc = (\<lambda>_. Outside)(1 := Marked)\<rparr>"
  have "cl_step createConnLocker ?s1"
    using cl_mark [of createConnLocker 1] by (simp add: createConnLocker_def)
  moreover have "cl_step ?s1 one_writer" using cl_acquire [of ?s1 1] by (simp add: one_writer_def)
  ultimately show ?thesis by (meson rtranclp.intros)
qed

theorem conn_writers_exclude_witness:
  "\<exists>s' v. cl_step one_writer s' \<and> cl_pc one_writer v \<noteq> Outside \<and> cl_pc s' v \<noteq> cl_pc one_writer v"
  using conn_writers_exclude [OF one_writer_reach, of 1 1] by (auto simp: one_writer_def)

text \<open>
  The flag is a hint only: a connection can look free while a goroutine writes to it, because
  another one clears the flag after the first has acquired the mutex.
\<close>

theorem writing_can_look_free:
  "\<exists>s t. cl_reach s \<and> cl_pc s t = Writing \<and> \<not> isLocked s"
proof -
  let ?s2 = "\<lparr>cl_mx = Some 1, cl_locked = True, cl_pc = (\<lambda>_. Outside)(1 := Writing, 2 := Marked)\<rparr>"
  let ?s3 = "\<lparr>cl_mx = None, cl_locked = True, cl_pc = (\<lambda>_. Outside)(1 := Released, 2 := Marked)\<rparr>"
  let ?s4 = "\<lparr>cl_mx = Some 2, cl_locked = True, cl_pc = (\<lambda>_. Outside)(1 := Released, 2 := Writing)\<rparr>"
  let ?s5 = "\<lparr>cl_mx = Some 2, cl_locked = False, cl_pc = (\<lambda>_. Outside)(1 := Outside, 2 := Writing)\<rparr>"
  have "cl_step one_writer ?s2" using cl_mark [of one_writer 2] by (simp add: one_writer_def)
  moreover have "cl_step ?s2 ?s3" using cl_release [of ?s2 1] by (simp add: fun_upd_twist)
  moreover have "cl_step ?s3 ?s4" using cl_acquire [of ?s3 2] by simp
  moreover have "cl_step ?s4 ?s5" using cl_clear [of ?s4 1] by (simp add: fun_upd_twist)
  ultimately have "cl_reach ?s5" using one_writer_reach by (meson rtranclp.rtrancl_into_rtrancl)
  then show ?thesis by (intro exI [of _ ?s5] exI [of _ 2]) (simp add: isLocked_def)
qed

section \<open>busyMutex\<close>

text \<open>
  \<open>Lock\<close> holds \<open>busyMX\<close> while it waits for the mutex, and \<open>Unlock\<close> needs \<open>busyMX\<close> to release it.
\<close>

datatype busy_pc = Away | Entering | Inside | Leaving

record busyMutex =
  bm_mutex :: "nat option"
  bm_busyMX :: "nat option"
  bm_busy :: bool
  bm_pc :: "nat \<Rightarrow> busy_pc"

definition new_busyMutex :: busyMutex where
  "new_busyMutex = \<lparr>bm_mutex = None, bm_busyMX = None, bm_busy = False, bm_pc = (\<lambda>_. Away)\<rparr>"

definition isBusy :: "busyMutex \<Rightarrow> bool" where
  "isBusy mm = bm_busy mm"

inductive bm_step :: "busyMutex \<Rightarrow> busyMutex \<Rightarrow> bool" where
  bm_enter: "bm_pc s t = Away \<Longrightarrow> bm_busyMX s = None \<Longrightarrow>
    bm_step s (s\<lparr>bm_busyMX := Some t, bm_busy := True, bm_pc := (bm_pc s)(t := Entering)\<rparr>)"
| bm_acquire: "bm_pc s t = Entering \<Longrightarrow> bm_mutex s = None \<Longrightarrow>
    bm_step s (s\<lparr>bm_mutex := Some t, bm_busyMX := None, bm_pc := (bm_pc s)(t := Inside)\<rparr>)"
| bm_leave: "bm_pc s t = Inside \<Longrightarrow> bm_busyMX s = None \<Longrightarrow>
    bm_step s (s\<lparr>bm_busyMX := Some t, bm_pc := (bm_pc s)(t := Leaving)\<rparr>)"
| bm_release: "bm_pc s t = Leaving \<Longrightarrow>
    bm_step s (s\<lparr>bm_mutex := None, bm_busy := False, bm_busyMX := None, bm_pc := (bm_pc s)(t := Away)\<rparr>)"

inductive_cases bm_stepE: "bm_step s s'"

interpretation busy_lock: lock_machine new_busyMutex bm_step bm_mutex "\<lambda>s t. bm_pc s t = Inside \<or> bm_pc s t = Leaving"
proof
  fix s s' t assume st: "bm_step s s'" and all: "\<And>u. bm_pc s u = Inside \<or> bm_pc s u = Leaving \<Longrightarrow> bm_mutex s = Some u"
    and w: "bm_pc s' t = Inside \<or> bm_pc s' t = Leaving"
  from st show "bm_mutex s' = Some t"
  proof cases
    case (bm_release v)
    then have "bm_pc s t = Inside \<or> bm_pc s t = Leaving" "t \<noteq> v" using w by (auto split: if_splits)
    then show ?thesis using all [of t] all [of v] bm_release(2) by simp
  next
    case (bm_acquire v)
    then show ?thesis using all [of t] w by (auto split: if_splits)
  next
    case (bm_leave v)
    then have "bm_pc s t = Inside \<or> bm_pc s t = Leaving" using w by (cases "t = v") auto
    then show ?thesis using all [of t] bm_leave(1) by simp
  qed (use all [of t] w in \<open>auto split: if_splits\<close>)
qed (simp add: new_busyMutex_def)

text \<open>
  The other lock excludes goroutines from each other as well, but it can deadlock: when a
  second goroutine locks while the first is inside, no goroutine can ever take a step again.
\<close>

theorem busyMutex_excludes_and_deadlocks:
  "(bm_step\<^sup>*\<^sup>* new_busyMutex s \<longrightarrow> bm_pc s t = Inside \<longrightarrow> bm_pc s u = Inside \<longrightarrow> t = u) \<and>
   (\<exists>d. bm_step\<^sup>*\<^sup>* new_busyMutex d \<and> bm_pc d 1 = Inside \<and> (\<nexists>d'. bm_step d d'))"
proof -
  let ?s1 = "\<lparr>bm_mutex = None, bm_busyMX = Some 1, bm_busy = True, bm_pc = (\<lambda>_. Away)(1 := Entering)\<rparr>"
  let ?s2 = "\<lparr>bm_mutex = Some 1, bm_busyMX = None, bm_busy = True, bm_pc = (\<lambda>_. Away)(1 := Inside)\<rparr>"
  let ?s3 = "\<lparr>bm_mutex = Some 1, bm_busyMX = Some 2, bm_busy = True, bm_pc = (\<lambda>_. Away)(1 := Inside, 2 := Entering)\<rparr>"
  have "bm_step new_busyMutex ?s1" using bm_enter [of new_busyMutex 1] by (simp add: new_busyMutex_def)
  moreover have "bm_step ?s1 ?s2" using bm_acquire [of ?s1 1] by simp
  moreover have "bm_step ?s2 ?s3" using bm_enter [of ?s2 2] by simp
  ultimately have "bm_step\<^sup>*\<^sup>* new_busyMutex ?s3" by (meson rtranclp.intros)
  moreover have "\<nexists>d'. bm_step ?s3 d'" by (auto elim!: bm_stepE split: if_splits)
  moreover have "bm_pc ?s3 1 = Inside" by simp
  ultimately have "\<exists>d. bm_step\<^sup>*\<^sup>* new_busyMutex d \<and> bm_pc d 1 = Inside \<and> (\<nexists>d'. bm_step d d')" by blast
  then show ?thesis using busy_lock.exclusion [of s t u] by blast
qed

theorem busyMutex_excludes_and_deadlocks_witness:
  "\<exists>d. bm_step\<^sup>*\<^sup>* new_busyMutex d \<and> bm_pc d 1 = Inside \<and> (\<nexists>d'. bm_step d d')"
  using busyMutex_excludes_and_deadlocks by blast

section \<open>The table of locks\<close>

type_synonym unitConns = "conn \<Rightarrow> busyMutex option"

definition unitConns_set :: "unitConns \<Rightarrow> conn \<Rightarrow> busyMutex \<Rightarrow> unitConns" where
  "unitConns_set uc c bm = uc(c \<mapsto> bm)"

definition unitConns_get :: "unitConns \<Rightarrow> conn \<Rightarrow> busyMutex option" where
  "unitConns_get uc c = uc c"

definition unitConns_delete :: "unitConns \<Rightarrow> conn \<Rightarrow> unitConns" where
  "unitConns_delete uc c = uc(c := None)"

end
