(* ===== verification/Spec2Isabelle.thy ===== *)
theory Spec2Isabelle
  imports Node Locks
begin

text \<open>
  roletalk is a Go library for peer-to-peer communication over websockets.  A \<open>Peer\<close> connects to
  remote peers, which it sees as \<open>Unit\<close>s; it offers \<open>Role\<close>s with handlers for messages, requests
  and streams, and reaches the roles of others through \<open>Destination\<close>s that balance between the
  units serving a role.

  How the parts interact.  A connection is authenticated (auth.go) and bound to a unit
  (Peer.addConn); a goroutine per connection reads frames (Unit.readConnMessages), applies stream
  frames itself and hands messages to the goroutines that serve them (Peer.serveIncMsg).  These
  decode a frame (protocol.go), start the handlers of a role (role_internal.go) or complete a
  waiting request (reqCallbackController).  Handlers answer through their context (Contexts.go),
  which writes one frame to some connection of the unit (Unit.writeMsgToSomeConnection).

  The theories, in the order of their imports.
  \<^item> Prelude: Go integers, strings, slices with capacity, decimal printing, results, and the order
    of an iteration over a map (\<open>enumerates\<close>).
  \<^item> Correlation, Constants, DataTypes, Protocol: constants.go, Datatype.go and protocol.go.  The
    encoders use \<open>float64\<close> as the code does; the conversions Go leaves open are the parameters
    \<open>cvt\<close> and \<open>cvti\<close>.  Round trips, the integer reference \<open>be_bytes\<close>, and where they end.
  \<^item> Middleware: the four handler registries of structs.go refine one registry.
  \<^item> Callbacks: correlations and waiting requests (unit_internal.go) as a state machine.
  \<^item> StreamController, Streams: streamController.go, \<open>Readable\<close> and \<open>Writable\<close> of Contexts.go and the
    stream frames; a session of a reader, a connection and its grants is a step relation.
  \<^item> AddressScheme, Destination, Auth: addressScheme.go, Destination.go with
    destination_internal.go, auth.go.
  \<^item> PeerState, Connections, Peer, Membership: the records of Peer, Unit, Role and the contexts;
    writing and deleting connections; the operations of Peer.go, peer_internal.go, Role.go,
    Unit.go and service_messaging.go; the invariant of the tables of a peer.
  \<^item> Contexts, Requests, Handler: answers and handler chains, outgoing requests and streams, the
    dispatch of handler.go and one turn of the reading loop.
  \<^item> Node: the peer as a whole, a step relation over its goroutines, messages, timers and calls,
    with the invariant of all its tables and controllers.
  \<^item> Locks: ConnLocker.go and \<open>busyMutex\<close>.
  \<^item> This theory: what two peers do together.

  Correspondence of state.  The record \<open>peer\<close> has the fields of \<open>Peer\<close>; pointers to units are
  numbers into \<open>p_store\<close>, so a unit that left the table \<open>p_units\<close> can still be used; roles and
  destinations are reached by name.  Go channels of a request are numbered (\<open>chan_buf\<close>).  The
  record also logs, in order, what a call starts or emits: goroutines (\<open>p_go\<close>), messages and
  frames (\<open>p_msgs\<close>, \<open>p_frames\<close>), close frames (\<open>p_closes\<close>) and runs of handlers (\<open>p_ran\<close>).  A panic,
  an error and an endless loop are values: \<open>Panic\<close>, \<open>Error\<close>, \<open>Crashed\<close>, \<open>Blocked\<close>, \<open>None\<close>.

  Interfaces are locales: \<open>frame_codec\<close> (a round trip), \<open>registry\<close> (handlers of an event),
  \<open>id_supply\<close> (fresh correlations), \<open>membership\<close> (units of a destination), \<open>write_steps\<close> (what
  writing a message keeps), \<open>lock_machine\<close> (exclusion); each is interpreted on the model.

  Bounds.  Correlations and channels come from a counter modulo \<open>2 ^ 53\<close>, so results on requests
  and streams assume fewer than \<open>2 ^ 53\<close> of them per unit.  No definition uses fuel: the loops
  that can run for ever (the encoders) return \<open>None\<close>, proved to happen only from \<open>2 ^ 56\<close> on.

  Parameters.  Code outside the repository is an argument: \<open>errors.Wrap\<close>, encoding/json on the
  service messages, semantic versions, HMAC, the network (which connections fail or look locked,
  and the clock), and the functions of the application.  Critical sections of one mutex are
  single steps.  A read of a connection is assumed to give as many bytes as were asked for when
  the message has them.

  Not modelled.  Listening, upgrading and closing HTTP servers (Peer.ServeHTTP, Listen, Close,
  WaitForClose), dialling, the durations of timers, the websocket library, and \<open>Singleton\<close>.  Two
  connections of one new remote peer that are added at the same time are added one after the
  other here.
\<close>

section \<open>What the responder does\<close>

text \<open>A request for a role the peer has is handed to a goroutine, with its data decoded.\<close>

lemma request_served:
  assumes "header_ok role event" and "corr_ok corr" and "markDataType v = Some m" and "as_received v = Some w"
    and "serializeRequest cvt role event corr m = Some (k # body)" and "getRole q role = Some r"
  shows "serveIncMsg hl lib order (incoming c u k (Slice (body @ spare) (length body))) q =
    Some (spawn (GoEmitRequest role (new_request ((incoming c u k (Slice (body @ spare) (length body)))
      \<lparr>mc_role := role, mc_T := hd m, mc_origin := tl m, mc_event := event, mc_Data := w\<rparr>) corr)) q)"
proof -
  have m: "m \<noteq> []" "retrieveDataByType (hl_more hl) (hd m) (tl m) = Ok w"
    using marked_received [OF assms(4), of "hl_more hl"] assms(3) by auto
  then have "m = hd m # tl m" by simp
  then have "k = typeRequest"
    "parseRequest (pl_cvt lib) (Slice (body @ spare) (length body)) = Some (role, event, corr, hd m, tl m)"
    using parseRequest_serialize [OF assms(1,2), of cvt "hd m" "tl m" "pl_cvt lib"] assms(5) by auto
  then show ?thesis
    using m(2) assms(6) by (simp add: serveIncMsg_def serve_request_def of_parse_def with_data_def Let_def)
qed

text \<open>A handler that replies with a value at once when no callbacks are registered.\<close>

definition replies :: "peer_lib \<Rightarrow> app \<Rightarrow> handler \<Rightarrow> goval \<Rightarrow> bool" where
  "replies lib app h d \<longleftrightarrow> (\<forall>ctx q. rq_cbs ctx = [] \<longrightarrow>
     a_req app h (ctx, q) = map_option snd (ctx_Reply lib app d (ctx, q)))"

lemma send_answer_run:
  assumes "corr_ok (rq_corr ctx)" and "markDataType d = Some m"
  shows "\<exists>res e p'. serializeResponse (pl_cvt lib) t (rq_corr ctx) m = Some res \<and>
    send_answer lib t d (ctx, p) = Some (e, ctx, p') \<and> p_msgs p' = p_msgs p @ [(mc_unit (rq_msg ctx), res)]"
proof -
  obtain res where res: "serializeResponse (pl_cvt lib) t (rq_corr ctx) m = Some res"
    using corr_ok_enc [OF assms(1)] by (simp add: serializeResponse_def)
  obtain r p' where w: "writeMsgToSomeConnection (pl_wrap lib) (mc_unit (rq_msg ctx)) res p = (r, p')"
    by (metis surj_pair)
  have "\<exists>e. send_answer lib t d (ctx, p) = Some (e, ctx, p')"
    using assms(2) res w by (cases r) (simp_all add: send_answer_def)
  then show ?thesis using res write_frameD(1) [OF w] by blast
qed

lemma request_replied:
  assumes "replies lib app h d" and "markDataType d = Some m" and "corr_ok corr"
    and "mwRequest_get (r_mwRequest (role_of q name)) '''' = []"
    and "mwRequest_get (r_mwRequest (role_of q name)) (mc_event ctx) = [h]"
  shows "\<exists>res c' q'. serializeResponse (pl_cvt lib) typeResolve corr m = Some res \<and>
    emitRequest lib app name (new_request ctx corr, q) = Some (c', q') \<and> p_msgs q' = p_msgs q @ [(mc_unit ctx, res)]"
proof -
  let ?c = "(new_request ctx corr)\<lparr>rq_r := True, rq_Res := d\<rparr>"
  have fields: "rq_corr ?c = corr" "mc_unit (rq_msg ?c) = mc_unit ctx" "rq_Err ?c = None" "rq_Res ?c = d" "rq_r ?c"
    by (simp_all add: new_request_def)
  obtain res e q' where a: "serializeResponse (pl_cvt lib) typeResolve corr m = Some res"
    "send_answer lib typeResolve d (?c, q) = Some (e, ?c, q')" "p_msgs q' = p_msgs q @ [(mc_unit ctx, res)]"
    using send_answer_run [of ?c d m lib typeResolve q] assms(2,3) fields by auto
  have "ctx_Reply lib app d (new_request ctx corr, q) = send_answer lib typeResolve d (?c, q)"
    by (simp add: ctx_Reply_def runCallbacks_def new_request_def Let_def)
  then have "a_req app h (new_request ctx corr, q) = Some (?c, q')"
    using assms(1) a(2) by (simp add: replies_def new_request_def)
  moreover have "mc_event (rq_msg (new_request ctx corr)) = mc_event ctx" "\<not> rq_r (new_request ctx corr)"
    by (simp_all add: new_request_def)
  ultimately have "emitRequest lib app name (new_request ctx corr, q) = Some (?c, q')"
    using assms(4,5) fields(5) by (simp add: emitRequest_def)
  then show ?thesis using a by blast
qed

section \<open>Properties\<close>

text \<open>
  C1.  A call returns what the remote handler replied: the frame the requester hands over is
  served by the other peer, whose goroutine runs the handler on the value sent; the frame it
  answers with, served by the requester, ends this call with the value replied.  Spare
  capacity, connections, libraries and the state of the responder do not matter.
\<close>

theorem call_returns_reply:
  assumes "cb_reach (u_callbackCtr (p_store p u))" and "next_chan (u_callbackCtr (p_store p u)) < 2 ^ 53"
    and "enumerates (ne_order (p_net p (p_calls p))) (u_conns (p_store p u))"
    and "markDataType (es_data headers) = Some m" and "as_received (es_data headers) = Some v"
    and "header_ok (es_role headers) (es_event headers)"
    and "unit_request lib u headers p = Done (Inr ch, p1)" and "unit_request_result u headers ch p1 = None"
    and "getRole q (es_role headers) = Some r" and "mwRequest_get (r_mwRequest r) '''' = []"
    and "mwRequest_get (r_mwRequest r) (es_event headers) = [h]" and "replies lib' app h d"
    and "as_received d = Some w"
  shows "\<exists>k body rc q1 q2 k' body' p2 ctx. p_msgs p1 = p_msgs p @ [(u, k # body)] \<and>
    serveIncMsg hl' lib' order' (incoming c' u' k (Slice (body @ spare) (length body))) q = Some q1 \<and>
    p_go q1 = p_go q @ [GoEmitRequest (es_role headers) rc] \<and> mc_Data (rq_msg rc) = v \<and>
    run_go lib' app ge (GoEmitRequest (es_role headers) rc) q1 = Some q2 \<and>
    p_msgs q2 = p_msgs q @ [(u', k' # body')] \<and>
    serveIncMsg hl lib order (incoming c u k' (Slice (body' @ spare') (length body'))) p1 = Some p2 \<and>
    unit_request_result u headers ch p2 = Some (Some ctx, None) \<and> mc_Data ctx = w"
proof -
  obtain corr msg where req: "corr_ok corr"
      "serializeRequest (pl_cvt lib) (es_role headers) (es_event headers) corr m = Some msg"
      "p_msgs p1 = p_msgs p @ [(u, msg)]"
      "waiters (u_callbackCtr (p_store p1 u)) corr = Some \<lparr>waiter_ch = ch, ignUnitClose = es_ignoreUnitClose headers\<rparr>"
    using unit_request_outcome [OF assms(1,2,4,3), of lib] assms(7,8) by (auto split: if_splits)
  then obtain k body where msg: "msg = k # body" by (auto simp: serializeRequest_def Let_def split: bind_splits)
  let ?ctx = "(incoming c' u' k (Slice (body @ spare) (length body)))\<lparr>mc_role := es_role headers, mc_T := hd m,
    mc_origin := tl m, mc_event := es_event headers, mc_Data := v\<rparr>"
  let ?q1 = "spawn (GoEmitRequest (es_role headers) (new_request ?ctx corr)) q"
  have served: "serveIncMsg hl' lib' order' (incoming c' u' k (Slice (body @ spare) (length body))) q = Some ?q1"
    using request_served [OF assms(6) req(1) assms(4,5) req(2) [unfolded msg] assms(9)] by simp
  obtain md where md: "markDataType d = Some md" using marked_received [OF assms(13)] by blast
  have "role_of ?q1 (es_role headers) = r" using assms(9) by (simp add: role_of_def getRole_def)
  then obtain res rc' q2 where rep: "serializeResponse (pl_cvt lib') typeResolve corr md = Some res"
      "emitRequest lib' app (es_role headers) (new_request ?ctx corr, ?q1) = Some (rc', q2)"
      "p_msgs q2 = p_msgs q @ [(u', res)]"
    using request_replied [OF assms(12) md req(1), of ?q1 "es_role headers" ?ctx] assms(10,11) by auto
  then obtain k' body' where res: "res = k' # body'" by (auto simp: serializeResponse_def split: bind_splits)
  have reach: "cb_reach (u_callbackCtr (p_store p1 u))" "next_chan (u_callbackCtr (p_store p1 u)) \<le> 2 ^ 53"
    using unit_request_reach [OF assms(1,7)] assms(2) by simp_all
  obtain p2 ctx where fin: "serveIncMsg hl lib order (incoming c u k' (Slice (body' @ spare') (length body'))) p1 = Some p2"
      "unit_request_result u headers ch p2 = Some (Some ctx, None)" "mc_Data ctx = w"
    using response_served [OF reach req(4) md assms(13) rep(1) [unfolded res]] by fastforce
  have "mc_Data (rq_msg (new_request ?ctx corr)) = v" by (simp add: new_request_def)
  with req(3) msg served rep(2,3) res fin show ?thesis
    by (intro exI conjI) (auto simp: spawn_simps)
qed

lemma replying_app_replies: "replies plain_peer_lib replying_app 0 (VString ''ok'')"
  by (simp add: replies_def replying_app_def ctx_Reply_def runCallbacks_def)

theorem call_returns_reply_witness:
  "\<exists>ch p1 k body rc q1 q2 k' body' p2 ctx.
    unit_request plain_peer_lib 0 plain_headers two_conns_peer = Done (Inr ch, p1) \<and>
    p_msgs p1 = p_msgs two_conns_peer @ [(0, k # body)] \<and>
    serveIncMsg plain_handler_lib plain_peer_lib [] (incoming 2 0 k (Slice (body @ [9]) (length body))) serving_peer = Some q1 \<and>
    p_go q1 = p_go serving_peer @ [GoEmitRequest ''r'' rc] \<and>
    run_go plain_peer_lib replying_app plain_env (GoEmitRequest ''r'' rc) q1 = Some q2 \<and>
    p_msgs q2 = p_msgs serving_peer @ [(0, k' # body')] \<and>
    serveIncMsg plain_handler_lib plain_peer_lib [] (incoming 2 0 k' (Slice (body' @ []) (length body'))) p1 = Some p2 \<and>
    unit_request_result 0 plain_headers ch p2 = Some (Some ctx, None) \<and> mc_Data ctx = VString ''ok''"
proof -
  have unit: "p_store two_conns_peer 0 = no_unit\<lparr>u_id := ''x'', u_conns := {1, 2}\<rparr>" "p_net two_conns_peer = (\<lambda>_. two_conns_env)"
    by (simp_all add: two_conns_peer_def NewPeer_def)
  have reach: "cb_reach (u_callbackCtr (p_store two_conns_peer 0))"
      "next_chan (u_callbackCtr (p_store two_conns_peer 0)) < 2 ^ 53"
      "enumerates (ne_order (p_net two_conns_peer (p_calls two_conns_peer))) (u_conns (p_store two_conns_peer 0))"
    using cb_init by (auto simp: unit no_unit_def createCallbackController_def two_conns_env_def enumerates_def)
  have data: "markDataType (es_data plain_headers) = Some (3 # bytes_of ''hi'')"
      "as_received (es_data plain_headers) = Some (VString ''hi'')" "es_role plain_headers = ''r''" "es_event plain_headers = ''e''"
    by (simp_all add: plain_headers_def)
  have "\<exists>c \<in> {1, 2}. ne_fail two_conns_env c = None" by (simp add: two_conns_env_def)
  then obtain ch p1 where req: "unit_request plain_peer_lib 0 plain_headers two_conns_peer = Done (Inr ch, p1)"
      "unit_request_result 0 plain_headers ch p1 = None"
    using unit_request_outcome [OF reach(1,2) data(1) reach(3), of plain_peer_lib]
    by (auto simp: unit no_unit_def split: if_splits)
  let ?r = "Role_OnRequest ''e'' 0 (createRole ''r'')"
  have role: "getRole serving_peer (es_role plain_headers) = Some ?r" "mwRequest_get (r_mwRequest ?r) '''' = []"
      "mwRequest_get (r_mwRequest ?r) (es_event plain_headers) = [0]" "header_ok (es_role plain_headers) (es_event plain_headers)"
    by (simp_all add: data serving_peer_def getRole_def Role_OnRequest_def createRole_def header_ok_def mwq.get_set mwq.get_create)
  have ok: "as_received (VString ''ok'') = Some (VString ''ok'')" by simp
  from call_returns_reply [OF reach data(1,2) role(4) req role(1-3) replying_app_replies ok,
      of plain_handler_lib "[]" 2 0 "[9]" plain_env plain_handler_lib "[]" 2 "[]"]
  show ?thesis using req(1) unfolding data(3) by blast
qed

section \<open>Rejections\<close>

lemma rejection_served:
  assumes "cb_inv (u_callbackCtr (p_store p u))" and "waiters (u_callbackCtr (p_store p u)) corr = Some cw"
    and "markDataType v = Some m" and "as_received v = Some w"
    and "serializeResponse cvt typeReject corr m = Some (k # body)"
  shows "\<exists>cb p1 p2 ctx. serveIncMsg hl lib order (incoming c u k (Slice (body @ spare) (length body))) p = Some p1 \<and>
    p_go p1 = p_go p @ [GoRespond u corr cb] \<and> run_go lib app ge (GoRespond u corr cb) p1 = Some p2 \<and>
    unit_request_result u headers (waiter_ch cw) p2 = Some (Some ctx, Some (ErrorString (string_of (tl m))))"
proof -
  let ?raw = "Slice (body @ spare) (length body)"
  have parsed: "k = typeReject" "parseResponse (pl_cvt lib) ?raw = Some (corr, hd m, tl m)"
    "retrieveDataByType (hl_more hl) (hd m) (tl m) = Ok w"
    using response_parsed [OF waiting_corr_ok [OF assms(1,2)] assms(3-5)] by auto
  let ?cb = "\<lparr>cb_ctx = Some ((incoming c u k ?raw)\<lparr>mc_T := hd m, mc_origin := tl m, mc_Data := w\<rparr>),
    cb_err = Some (ErrorString (string_of (tl m)))\<rparr>"
  let ?p1 = "spawn (GoRespond u corr ?cb) p"
  have served: "serveIncMsg hl lib order (incoming c u k ?raw) p = Some ?p1"
    using parsed by (simp add: serveIncMsg_def serve_reject_def of_parse_def with_data_def Let_def)
  obtain t where "respond_now u corr ?cb ?p1 = Done (set_callbacks u t ?p1)"
      "chan_buf t = (chan_buf (u_callbackCtr (p_store p u)))(waiter_ch cw := [?cb])"
    using respond_now_waiting [of ?p1 u corr cw ?cb] assms(1,2) by auto
  then have "run_go lib app ge (GoRespond u corr ?cb) ?p1 = Some (set_callbacks u t ?p1)"
      "\<exists>ctx. unit_request_result u headers (waiter_ch cw) (set_callbacks u t ?p1) =
        Some (Some ctx, Some (ErrorString (string_of (tl m))))"
    by (simp_all add: unit_request_result_def name_response_def)
  then show ?thesis using served by (metis spawn_simps(12))
qed

text \<open>
  C37.  Whatever text a handler rejects a request with, the caller gets the error text
  \<open>{}\<close>: the error is sent as JSON, which is empty for the errors of the standard library.
\<close>

theorem rejection_arrives_without_text:
  assumes "cb_reach (u_callbackCtr (p_store p u))" and "next_chan (u_callbackCtr (p_store p u)) \<le> 2 ^ 53"
    and "waiters (u_callbackCtr (p_store p u)) (rq_corr rc) = Some cw" and "rq_cbs rc = []"
    and "ctx_Reject lib' app' (RejectString words) (rc, q) = Some (e, rc', q')"
  shows "\<exists>k body cb p1 p2 ctx. p_msgs q' = p_msgs q @ [(mc_unit (rq_msg rc), k # body)] \<and>
    serveIncMsg hl lib order (incoming c u k (Slice (body @ spare) (length body))) p = Some p1 \<and>
    p_go p1 = p_go p @ [GoRespond u (rq_corr rc) cb] \<and> run_go lib app ge (GoRespond u (rq_corr rc) cb) p1 = Some p2 \<and>
    unit_request_result u headers (waiter_ch cw) p2 = Some (Some ctx, Some (ErrorString ''{}''))"
proof -
  have inv: "cb_inv (u_callbackCtr (p_store p u))" using assms(1,2) by (rule cb_reach_inv)
  let ?v = "VOther (Some (bytes_of ''{}''))" and ?m = "DatatypeJSON # bytes_of ''{}''"
  have v: "markDataType ?v = Some ?m" "as_received ?v = Some (VBytes (bytes_of ''{}''))"
    by (simp_all add: DatatypeJSON_def)
  let ?c = "rc\<lparr>rq_r := True, rq_Err := Some (ErrorString words)\<rparr>"
  have "corr_ok (rq_corr ?c)" using waiting_corr_ok [OF inv assms(3)] by simp
  from send_answer_run [OF this v(1)] obtain res e' q'' where
    res: "serializeResponse (pl_cvt lib') typeReject (rq_corr rc) ?m = Some res"
      "send_answer lib' typeReject ?v (?c, q) = Some (e', ?c, q'')" "p_msgs q'' = p_msgs q @ [(mc_unit (rq_msg rc), res)]"
    by fastforce
  have "ctx_Reject lib' app' (RejectString words) (rc, q) = send_answer lib' typeReject ?v (?c, q)"
    using assms(4) by (simp add: ctx_Reject_def runCallbacks_def nil_or_error_def)
  then have "q' = q''" using assms(5) res(2) by simp
  moreover obtain k body where kb: "res = k # body" using res(1) by (auto simp: serializeResponse_def split: bind_splits)
  moreover note rejection_served [OF inv assms(3) v res(1) [unfolded kb], of hl lib order c spare app ge headers]
  ultimately show ?thesis using res(3) by auto
qed

theorem rejection_arrives_without_text_witness:
  "\<exists>e rc' q' k body cb p1 p2 ctx.
    ctx_Reject plain_peer_lib idle_app (RejectString ''no'') (request0\<lparr>rq_corr := 1\<rparr>, serving_peer) = Some (e, rc', q') \<and>
    p_msgs q' = p_msgs serving_peer @ [(0, k # body)] \<and>
    serveIncMsg plain_handler_lib plain_peer_lib [] (incoming 1 0 k (Slice (body @ []) (length body))) waiting_peer = Some p1 \<and>
    run_go plain_peer_lib idle_app plain_env (GoRespond 0 1 cb) p1 = Some p2 \<and>
    unit_request_result 0 plain_headers 0 p2 = Some (Some ctx, Some (ErrorString ''{}''))"
proof -
  let ?rc = "request0\<lparr>rq_corr := 1\<rparr>"
  have w: "waiters (u_callbackCtr (p_store waiting_peer 0)) (rq_corr ?rc) = Some \<lparr>waiter_ch = 0, ignUnitClose = False\<rparr>"
    "next_chan (u_callbackCtr (p_store waiting_peer 0)) \<le> 2 ^ 53" "rq_cbs ?rc = []"
    using waiting_peer_facts by (simp_all add: request0_def)
  have "corr_ok (rq_corr (?rc\<lparr>rq_r := True, rq_Err := Some (ErrorString ''no'')\<rparr>))"
    by (simp add: corr_ok_def maxCorrelation_def)
  from send_answer_defined [OF this, of plain_peer_lib typeReject "VOther (Some (bytes_of ''{}''))" serving_peer]
  obtain e rc' q' where rej: "ctx_Reject plain_peer_lib idle_app (RejectString ''no'') (?rc, serving_peer) = Some (e, rc', q')"
    by (auto simp: ctx_Reject_def runCallbacks_def nil_or_error_def request0_def)
  have m: "mc_unit (rq_msg ?rc) = 0" "rq_corr ?rc = 1" by (simp_all add: request0_def)
  from rejection_arrives_without_text [OF waiting_peer_facts(1) w(2,1,3) rej, of plain_handler_lib plain_peer_lib "[]" 1
      "[]" idle_app plain_env plain_headers] rej
  show ?thesis unfolding m cbWaiter.select_convs by blast
qed

section \<open>The numbers of streams\<close>

text \<open>Requesting a stream takes the next number of the requester.\<close>

lemma stream_request_number:
  assumes "sc_inv (u_streamCtr (p_store p u))" and "stream_request lib t u headers p = Done (Inr (ch, channel, a, cn), p1)"
  shows "channel = ids (sc_next (u_streamCtr (p_store p u))) \<and>
    sc_next (u_streamCtr (p_store p1 u)) = Suc (sc_next (u_streamCtr (p_store p u)))"
proof -
  obtain m where m: "markDataType (es_data headers) = Some m"
    using assms(2) by (auto simp: stream_request_def split: option.splits)
  obtain corr ch' ctr where pr: "prepare (u_callbackCtr (p_store p u)) (es_ignoreUnitClose headers) = Done (corr, ch', ctr)"
    using assms(2) m by (auto simp: stream_request_def split: exec.splits)
  let ?s = "u_streamCtr (p_store p u)"
  have st: "u_streamCtr (p_store (set_callbacks u ctr p) u) = ?s" by simp
  obtain sctr where cr: "createStream ?s = Done (ids (sc_next ?s), sc_next ?s, sctr)" "sc_next sctr = Suc (sc_next ?s)"
    using createStream_ids [OF assms(1)] by simp
  obtain msg where msg: "serializeStreamRequest (pl_cvt lib) t (es_role headers) (es_event headers) corr (ids (sc_next ?s)) m = Some msg"
    using assms(2) m pr cr(1) by (auto simp: stream_request_def Let_def st split: option.splits)
  let ?p2 = "set_streams u sctr (set_callbacks u ctr p)"
  obtain r p3 where w: "writeMsgToSomeConnection (pl_wrap lib) u msg ?p2 = (r, p3)" by (metis surj_pair)
  have "sc_next (u_streamCtr (p_store p3 u)) = Suc (sc_next ?s)"
    using write_frameD(10) [OF w, of u] cr(2) by (simp add: set_streams_def)
  then show ?thesis
    using assms(2) m pr cr(1) msg w
    by (cases r) (auto simp: stream_request_def Let_def st fail_request_def split: exec.splits)
qed

lemma stream_answer_number:
  assumes "sc_inv (u_streamCtr (p_store q (mc_unit (rq_msg ctx))))"
    and "stream_answer lib t d (ctx, q) = Some (Inr (c, channel, a), ctx', q')"
  shows "channel = ids (sc_next (u_streamCtr (p_store q (mc_unit (rq_msg ctx))))) \<and>
    a = sc_next (u_streamCtr (p_store q (mc_unit (rq_msg ctx)))) \<and>
    sc_map (u_streamCtr (p_store q' (mc_unit (rq_msg ctx)))) =
      (sc_map (u_streamCtr (p_store q (mc_unit (rq_msg ctx)))))(channel \<mapsto> a)"
proof -
  let ?u = "mc_unit (rq_msg ctx)"
  let ?s = "u_streamCtr (p_store q ?u)"
  obtain m where m: "markDataType d = Some m" using assms(2) by (auto simp: stream_answer_def split: option.splits)
  obtain sctr where cr: "createStream ?s = Done (ids (sc_next ?s), sc_next ?s, sctr)"
      "sc_map sctr = (sc_map ?s)(ids (sc_next ?s) \<mapsto> sc_next ?s)"
    using createStream_ids [OF assms(1)] by simp
  obtain res where res: "serializeStreamResponse (pl_cvt lib) t (rq_corr ctx) (ids (sc_next ?s)) m = Some res"
    using assms(2) m cr(1) by (auto simp: stream_answer_def Let_def split: option.splits)
  let ?q1 = "set_unit ?u ((p_store q ?u)\<lparr>u_streamCtr := sctr\<rparr>) q"
  obtain r q2 where w: "writeMsgToSomeConnection (pl_wrap lib) ?u res ?q1 = (r, q2)" by (metis surj_pair)
  have "sc_map (u_streamCtr (p_store q2 ?u)) = sc_map sctr" using write_frameD(9) [OF w, of ?u] by simp
  then show ?thesis using assms(2) m cr res w by (cases r) (auto simp: stream_answer_def Let_def)
qed

lemma Reader_Reply_stream:
  assumes "sc_inv (u_streamCtr (p_store q (mc_unit (rq_msg (sx_req ctx)))))" and "rq_cbs (sx_req ctx) = []"
    and "Reader_Reply lib app d (ctx, q) = Some (Inr r, ctx', q')"
  shows "rd_c r = ids (sc_next (u_streamCtr (p_store q (mc_unit (rq_msg (sx_req ctx)))))) \<and>
    sc_map (u_streamCtr (p_store q' (mc_unit (rq_msg (sx_req ctx))))) =
      (sc_map (u_streamCtr (p_store q (mc_unit (rq_msg (sx_req ctx))))))
        (rd_c r \<mapsto> sc_next (u_streamCtr (p_store q (mc_unit (rq_msg (sx_req ctx))))))"
proof -
  obtain x cx where x: "on_request (stream_reply lib app d) (ctx, q) = Some (x, cx, q')"
    "(case x of Inl err \<Rightarrow> Some (Inl err, cx, q') | Inr (c, channel, _) \<Rightarrow>
       map_option (\<lambda>pref. (Inr (new_readable (Some c) channel pref), cx, q'))
         (createStreamPrefix (pl_cvt lib) channel streamByteQuota)) = Some (Inr r, ctx', q')"
  proof -
    obtain x cx q2 where "on_request (stream_reply lib app d) (ctx, q) = Some (x, cx, q2)"
      using assms(3) by (auto simp: Reader_Reply_def bind_eq_Some_conv)
    then show ?thesis using assms(3) by (intro that [of x cx]) (cases x; auto simp: Reader_Reply_def)+
  qed
  then obtain c channel a where "x = Inr (c, channel, a)" "rd_c r = channel"
    by (cases x) (auto simp: new_readable_def)
  then obtain cx' where s: "stream_reply lib app d (sx_req ctx, q) = Some (Inr (c, channel, a), cx', q')" "rd_c r = channel"
    using x(1) by (auto simp: on_request_def)
  let ?c = "if d \<noteq> VNil then (sx_req ctx)\<lparr>rq_r := True, rq_Res := d\<rparr> else (sx_req ctx)\<lparr>rq_r := True\<rparr>"
  have "runCallbacks app (?c, q) = Some (?c, q)" using assms(2) by (simp add: runCallbacks_def)
  then obtain t e where "stream_answer lib t e (?c, q) = Some (Inr (c, channel, a), cx', q')"
    using s(1) by (auto simp: stream_reply_def Let_def split: option.splits)
  moreover have "mc_unit (rq_msg ?c) = mc_unit (rq_msg (sx_req ctx))" by simp
  ultimately show ?thesis using stream_answer_number [of q ?c lib t e c channel a cx' q'] assms(1) s(2) by simp
qed

text \<open>
  C11.  The two ends of a stream number it on their own: the requester by the streams it has
  opened on its unit, the responder by those on its side.  When both have opened equally many,
  what the requester writes is appended to the new stream of the responder.  When the requester
  is ahead, the first frame it writes makes the responder close the connection.
\<close>

theorem stream_data_arrives_in_step:
  assumes "sc_reach (u_streamCtr (p_store p u))" and "sc_next (u_streamCtr (p_store p u)) < 2 ^ 53"
    and "sc_reach (u_streamCtr (p_store q w))"
    and "newWriter lib u headers p = Done (Inr (ch, channel, a, cn), p1)"
    and "mc_unit (rq_msg (sx_req ctx)) = w" and "rq_cbs (sx_req ctx) = []"
    and "Reader_Reply lib' app d (ctx, q) = Some (Inr r, ctx', q')"
  shows "\<exists>pref. createStreamPrefix (pl_cvt lib) channel streamByteChunk = Some (typeStreamData # pref) \<and>
    (sc_next (u_streamCtr (p_store p u)) = sc_next (u_streamCtr (p_store q w)) \<longrightarrow>
      (\<exists>ctr b. readStreamFrame (pl_cvt lib') cvti (u_streamCtr (p_store q' w)) (pref @ data) = Continue ctr \<and>
        getStreamChannel ctr (rd_c r) = Some b \<and>
        buf (sc_store ctr b) = buf (sc_store (u_streamCtr (p_store q' w)) b) @ data)) \<and>
    (sc_next (u_streamCtr (p_store q w)) < sc_next (u_streamCtr (p_store p u)) \<longrightarrow>
      readStreamFrame (pl_cvt lib') cvti (u_streamCtr (p_store q' w)) (pref @ data) = ConnDies (Some errWrongMessageType))"
proof -
  let ?n = "sc_next (u_streamCtr (p_store p u))" and ?m = "sc_next (u_streamCtr (p_store q w))"
  have invs: "sc_inv (u_streamCtr (p_store p u))" "sc_inv (u_streamCtr (p_store q w))"
    using assms(1,3) by (simp_all add: sc_reach_inv)
  have channel: "channel = ids ?n" using stream_request_number [OF invs(1) assms(4) [unfolded newWriter_def]] by simp
  have r: "rd_c r = ids ?m" "sc_map (u_streamCtr (p_store q' w)) = (sc_map (u_streamCtr (p_store q w)))(ids ?m \<mapsto> ?m)"
    using Reader_Reply_stream [OF _ assms(6,7)] invs(2) assms(5) by auto
  obtain pref where pref: "createStreamPrefix (pl_cvt lib) channel streamByteChunk = Some (typeStreamData # pref)"
      "readStreamHeader (pl_cvt lib') (pref @ data) = Some (channel, streamByteChunk, data)"
    using header_roundtrip [OF corr_ok_ids [of ?n], of "pl_cvt lib" streamByteChunk "pl_cvt lib'"] channel by auto
  have "sc_map (u_streamCtr (p_store q' w)) channel = None" if "?m < ?n"
  proof -
    have "sc_map (u_streamCtr (p_store q w)) (ids ?n) = None"
    proof (rule ccontr)
      assume "sc_map (u_streamCtr (p_store q w)) (ids ?n) \<noteq> None"
      then obtain b where "b < ?m" "ids ?n = ids b" using invs(2) by (auto simp: sc_inv_def)
      then show False using ids_eq_iff [of ?n b] assms(2) that by simp
    qed
    moreover have "ids ?n \<noteq> ids ?m" using ids_eq_iff [of ?n ?m] assms(2) that by simp
    ultimately show ?thesis by (simp add: r(2) channel)
  qed
  moreover have "\<exists>ctr. readStreamFrame (pl_cvt lib') cvti (u_streamCtr (p_store q' w)) (pref @ data) = Continue ctr \<and>
      getStreamChannel ctr (rd_c r) = Some ?m \<and>
      buf (sc_store ctr ?m) = buf (sc_store (u_streamCtr (p_store q' w)) ?m) @ data" if "?n = ?m"
    using pref(2) r that by (simp add: readStreamFrame_def getStreamChannel_def channel applyStreamFrame_def)
  ultimately show ?thesis using pref by (auto simp: readStreamFrame_def getStreamChannel_def)
qed

text \<open>
  C36.  One request for a stream to a role the other peer does not have takes both out of
  step for good: the requester has used a number, the responder has not.
\<close>

theorem rejected_stream_takes_peers_out_of_step:
  assumes "sc_reach (u_streamCtr (p_store p u))" and "stream_request lib t u headers p = Done (Inr r, p1)"
    and "mc_w ctx = typeReader \<or> mc_w ctx = typeWriter"
    and "parseStreamRequest (pl_cvt lib') (mc_raw ctx) = Some (role, event, corr, channel, k, d)"
    and "getRole q role = None" and "serveIncMsg hl lib' order ctx q = Some q1"
  shows "sc_next (u_streamCtr (p_store p1 u)) = Suc (sc_next (u_streamCtr (p_store p u))) \<and>
    sc_next (u_streamCtr (p_store q1 v)) = sc_next (u_streamCtr (p_store q v))"
proof -
  obtain ch c a cn where "r = (ch, c, a, cn)" by (metis prod_cases4)
  then have up: "sc_next (u_streamCtr (p_store p1 u)) = Suc (sc_next (u_streamCtr (p_store p u)))"
    using stream_request_number [OF sc_reach_inv [OF assms(1)]] assms(2) by blast
  have wr: "sc_next (u_streamCtr (p_store (snd (writeMsgToSomeConnection wrap w msg q)) v)) =
      sc_next (u_streamCtr (p_store q v))" for wrap w msg
    by (cases "writeMsgToSomeConnection wrap w msg q") (simp add: write_frameD(10))
  have "sc_next (u_streamCtr (p_store q1 v)) = sc_next (u_streamCtr (p_store q v))"
    using assms(3-6) wr
    by (auto simp: serveIncMsg_def serve_stream_def of_parse_def with_data_def reject_unknown_run Let_def
        split: exec.splits outcome.splits option.splits)
  with up show ?thesis by simp
qed

section \<open>Concrete streams\<close>

lemma stream_request_runs:
  assumes "cb_inv (u_callbackCtr (p_store p u))" and "fresh_requests u p" and "sc_inv (u_streamCtr (p_store p u))"
    and "markDataType (es_data headers) = Some m"
  shows "\<exists>r p1. stream_request lib t u headers p = Done (Inr r, p1)"
proof -
  let ?s = "u_callbackCtr (p_store p u)"
  have n: "next_chan ?s < 2 ^ 53" using assms(2) by (simp add: fresh_requests_def)
  obtain ctr where pr: "prepare ?s (es_ignoreUnitClose headers) = Done (ids (next_chan ?s), next_chan ?s, ctr)" "cb_inv ctr"
      "waiters ctr (ids (next_chan ?s)) = Some \<lparr>waiter_ch = next_chan ?s, ignUnitClose = es_ignoreUnitClose headers\<rparr>"
    using prepared [OF assms(1) n, of "es_ignoreUnitClose headers"] by auto
  obtain channel a sctr where cr: "createStream (u_streamCtr (p_store p u)) = Done (channel, a, sctr)" "corr_ok channel"
    using createStream_ids [OF assms(3)] corr_ok_ids by blast
  obtain msg where msg: "serializeStreamRequest (pl_cvt lib) t (es_role headers) (es_event headers)
      (ids (next_chan ?s)) channel m = Some msg"
    using cr(2) corr_ok_ids by (auto simp: serializeStreamRequest_def corr_ok_enc Let_def)
  let ?p2 = "set_streams u sctr (set_callbacks u ctr p)"
  obtain r p3 where w: "writeMsgToSomeConnection (pl_wrap lib) u msg ?p2 = (r, p3)" by (metis surj_pair)
  have "u_callbackCtr (p_store p3 u) = ctr" using write_frameD(8) [OF w, of u] by (simp add: set_streams_def)
  then have fail: "\<exists>p4. fail_request u (ids (next_chan ?s)) err p3 = Done p4" for err
    using failed [of p3 u "ids (next_chan ?s)" _ err] pr(2,3) by fastforce
  show ?thesis
  proof (cases r)
    case (Inl err)
    then show ?thesis using assms(4) pr(1) cr(1) msg w fail [of err] by (auto simp: stream_request_def Let_def)
  qed (use assms(4) pr(1) cr(1) msg w in \<open>simp add: stream_request_def Let_def\<close>)
qed

lemma Reader_Reply_runs:
  assumes "sc_inv (u_streamCtr (p_store q u))" and "mc_unit (rq_msg (sx_req ctx)) = u" and "rq_cbs (sx_req ctx) = []"
    and "rq_Err (sx_req ctx) = None" and "corr_ok (rq_corr (sx_req ctx))" and "markDataType d = Some m" and "d \<noteq> VNil"
    and "enumerates (ne_order (p_net q (p_calls q))) (u_conns (p_store q u))"
    and "\<exists>c \<in> u_conns (p_store q u). ne_fail (p_net q (p_calls q)) c = None"
  shows "\<exists>r ctx' q'. Reader_Reply lib app d (ctx, q) = Some (Inr r, ctx', q')"
proof -
  let ?c = "(sx_req ctx)\<lparr>rq_r := True, rq_Res := d\<rparr>" and ?s = "u_streamCtr (p_store q u)"
  obtain channel a sctr where cr: "createStream ?s = Done (channel, a, sctr)" "corr_ok channel"
    using createStream_ids [OF assms(1)] corr_ok_ids by blast
  obtain res where res: "serializeStreamResponse (pl_cvt lib) typeStreamResolve (rq_corr ?c) channel m = Some res"
    using cr(2) assms(5) by (auto simp: serializeStreamResponse_def corr_ok_enc)
  let ?q1 = "set_unit u ((p_store q u)\<lparr>u_streamCtr := sctr\<rparr>) q"
  obtain x q2 where w: "writeMsgToSomeConnection (pl_wrap lib) u res ?q1 = (x, q2)" by (metis surj_pair)
  obtain c where "x = Inr c" using write_outcome [OF _ w] assms(8,9) by (auto split: if_splits)
  then have "\<exists>q'. stream_answer lib typeStreamResolve d (?c, q) = Some (Inr (c, channel, a), ?c, q')"
    using assms(2,6) cr(1) res w by (simp add: stream_answer_def Let_def)
  moreover have "stream_reply lib app d (sx_req ctx, q) = stream_answer lib typeStreamResolve d (?c, q)"
    using assms(3,4,7) by (simp add: stream_reply_def runCallbacks_def)
  moreover obtain pref where "createStreamPrefix (pl_cvt lib) channel streamByteQuota = Some pref"
    using header_roundtrip [OF cr(2)] by blast
  ultimately show ?thesis by (auto simp: Reader_Reply_def on_request_def)
qed

lemma two_conns_unit:
  "p_store two_conns_peer 0 = no_unit\<lparr>u_id := ''x'', u_conns := {1, 2}\<rparr>" "p_net two_conns_peer = (\<lambda>_. two_conns_env)"
  "u_callbackCtr (p_store two_conns_peer 0) = createCallbackController"
  "u_streamCtr (p_store two_conns_peer 0) = createStreamController"
  "enumerates (ne_order (p_net two_conns_peer n)) (u_conns (p_store two_conns_peer 0))"
  "\<exists>c \<in> u_conns (p_store two_conns_peer 0). ne_fail (p_net two_conns_peer n) c = None"
  by (auto simp: two_conns_peer_def NewPeer_def no_unit_def two_conns_env_def enumerates_def)

definition stream0 :: stream_ctx where
  "stream0 = \<lparr>sx_req = request0, sx_cbs = []\<rparr>"

theorem stream_data_arrives_in_step_witness:
  "\<exists>ch channel a cn p1 r ctx' q' pref ctr b.
    newWriter plain_peer_lib 0 plain_headers two_conns_peer = Done (Inr (ch, channel, a, cn), p1) \<and>
    Reader_Reply plain_peer_lib idle_app (VString ''go'') (stream0, two_conns_peer) = Some (Inr r, ctx', q') \<and>
    createStreamPrefix (pl_cvt plain_peer_lib) channel streamByteChunk = Some (typeStreamData # pref) \<and>
    readStreamFrame (pl_cvt plain_peer_lib) (\<lambda>_. 0) (u_streamCtr (p_store q' 0)) (pref @ [1, 2]) = Continue ctr \<and>
    getStreamChannel ctr (rd_c r) = Some b \<and>
    buf (sc_store ctr b) = buf (sc_store (u_streamCtr (p_store q' 0)) b) @ [1, 2]"
proof -
  have sc: "sc_reach (u_streamCtr (p_store two_conns_peer 0))" "sc_next (u_streamCtr (p_store two_conns_peer 0)) < 2 ^ 53"
    using sc_init by (simp_all add: two_conns_unit(4)) (simp add: createStreamController_def)
  have "cb_inv (u_callbackCtr (p_store two_conns_peer 0))" "fresh_requests 0 two_conns_peer"
    by (simp_all add: two_conns_unit(3) cb_inv_init fresh_requests_def) (simp add: createCallbackController_def)
  moreover have "markDataType (es_data plain_headers) = Some (3 # bytes_of ''hi'')" by (simp add: plain_headers_def)
  ultimately obtain r0 p1 where new: "stream_request plain_peer_lib typeWriter 0 plain_headers two_conns_peer = Done (Inr r0, p1)"
    using stream_request_runs sc_reach_inv [OF sc(1)] by blast
  obtain ch channel a cn where r0: "r0 = (ch, channel, a, cn)" by (metis prod_cases4)
  have s0: "mc_unit (rq_msg (sx_req stream0)) = 0" "rq_cbs (sx_req stream0) = []" "rq_Err (sx_req stream0) = None"
    "corr_ok (rq_corr (sx_req stream0))"
    by (simp_all add: stream0_def request0_def corr_ok_def maxCorrelation_def)
  have d: "markDataType (VString ''go'') = Some (3 # bytes_of ''go'')" "VString ''go'' \<noteq> VNil" by simp_all
  obtain r ctx' q' where rep: "Reader_Reply plain_peer_lib idle_app (VString ''go'') (stream0, two_conns_peer) = Some (Inr r, ctx', q')"
    using Reader_Reply_runs [OF sc_reach_inv [OF sc(1)] s0 d two_conns_unit(5,6)] by blast
  note new' = new [unfolded r0 newWriter_def [symmetric]]
  from stream_data_arrives_in_step [OF sc sc(1) new' s0(1,2) rep, where cvti = "\<lambda>_. 0" and data = "[1, 2]"]
  obtain pref ctr b where "createStreamPrefix (pl_cvt plain_peer_lib) channel streamByteChunk = Some (typeStreamData # pref)"
    "readStreamFrame (pl_cvt plain_peer_lib) (\<lambda>_. 0) (u_streamCtr (p_store q' 0)) (pref @ [1, 2]) = Continue ctr"
    "getStreamChannel ctr (rd_c r) = Some b"
    "buf (sc_store ctr b) = buf (sc_store (u_streamCtr (p_store q' 0)) b) @ [1, 2]" by blast
  with new' rep show ?thesis by (intro exI conjI)
qed

theorem rejected_stream_takes_peers_out_of_step_witness:
  "\<exists>r p1 q1. stream_request plain_peer_lib typeReader 0 plain_headers two_conns_peer = Done (Inr r, p1) \<and>
    serveIncMsg plain_handler_lib plain_peer_lib [] (incoming 1 0 typeReader (slice_of [0, 1, 0, 0, 1, 1, 97, 1, 1, 1])) two_conns_peer = Some q1 \<and>
    sc_next (u_streamCtr (p_store p1 0)) = 1 \<and> sc_next (u_streamCtr (p_store q1 0)) = 0"
proof -
  have sc: "sc_reach (u_streamCtr (p_store two_conns_peer 0))" "sc_next (u_streamCtr (p_store two_conns_peer 0)) = 0"
    using sc_init by (simp_all add: two_conns_unit(4)) (simp add: createStreamController_def)
  have "cb_inv (u_callbackCtr (p_store two_conns_peer 0))" "fresh_requests 0 two_conns_peer"
    by (simp_all add: two_conns_unit(3) cb_inv_init fresh_requests_def) (simp add: createCallbackController_def)
  moreover have "markDataType (es_data plain_headers) = Some (3 # bytes_of ''hi'')" by (simp add: plain_headers_def)
  ultimately obtain r p1 where new: "stream_request plain_peer_lib typeReader 0 plain_headers two_conns_peer = Done (Inr r, p1)"
    using stream_request_runs sc_reach_inv [OF sc(1)] by blast
  let ?ctx = "incoming 1 0 typeReader (slice_of [0, 1, 0, 0, 1, 1, 97, 1, 1, 1])"
  have parse: "parseStreamRequest (pl_cvt plain_peer_lib) (mc_raw ?ctx) = Some (string_of [97], [], 1, 1, 1, [])"
    by (simp add: parseStreamRequest_def subslice_def slice_index_def slice_from_def sliceToCorrelation_def
        string_of_def [of "[]"] pow256_def upt_rec)
  have none: "getRole two_conns_peer role = None" for role by (simp add: getRole_def two_conns_peer_def NewPeer_def)
  have "corr_ok 1" by (simp add: corr_ok_def maxCorrelation_def)
  then obtain q1 where served: "serveIncMsg plain_handler_lib plain_peer_lib [] ?ctx two_conns_peer = Some q1"
    using parse none
    by (simp add: serveIncMsg_def serve_stream_def of_parse_def with_data_def reject_unknown_run serializeResponse_def
        corr_ok_enc Let_def)
  from rejected_stream_takes_peers_out_of_step [OF sc(1) new _ parse none served, of 0]
  show ?thesis using new served sc(2) by (intro exI [of _ r] exI [of _ p1] exI [of _ q1]) simp
qed

end
